(* ===== verification/Movie_Prelude.thy ===== *)
theory Movie_Prelude
  imports Main "HOL-Library.Word" "HOL-Library.Multiset"
begin

text \<open>
  Shared vocabulary of the development: bytes, results of code that may raise, the exception
  classes of \<^verbatim>\<open>movie/remoting/errors.py\<close>, sequencing of fallible steps, big-endian integers as
  \<^verbatim>\<open>struct.pack\<close> writes them, and generic list lemmas.
\<close>

section \<open>Collections of facts\<close>

named_theorems result_simps \<open>rewriting of sequenced fallible computations\<close>
named_theorems codec_len \<open>lengths of encoded fields\<close>
named_theorems codec_rt \<open>a reader applied to what its writer produced\<close>
named_theorems codec_can \<open>what a successful read says about the bytes consumed\<close>

section \<open>Bytes and UUIDs\<close>

type_synonym byte = "8 word"
type_synonym bytes = "byte list"
type_synonym uuid = "128 word"

section \<open>Exceptions and results\<close>

text \<open>
  One constructor per exception class that the modelled code raises: those of
  \<^verbatim>\<open>movie/remoting/errors.py\<close>, the transport errors of \<^verbatim>\<open>movie/remoting/transport.py\<close> and the built-in
  classes. Messages are not modelled: no branch of the program inspects the text of an exception.
\<close>

datatype exn =
    NoAssociationError
  | StaleIncarnationError
  | RemotingCapacityError
  | ResolutionError
  | HandshakeError
  | RemotingShutdownError
  | ProtocolValidationError
  | SerializerRegistryError
  | UnknownSerializerError
  | UnsupportedManifestError
  | SerializationError
  | DeserializationError
  | SerializerNegotiationError
  | InvalidPreambleError
  | MalformedFrameError
  | FrameTooLargeError
  | UnsupportedFrameError
  | UnsupportedFeatureError
  | UnsupportedHeaderVersionError
  | WrongStreamError
  | TransportClosedError
  | TransportCapacityError
  | TransportFlowControlError
  | TransportProtocolError
  | TransportListenError
  | TransportConnectError
  | TimeoutError
  | KeyError
  | IndexError
  | AssertionError
  | ValueError
  | RuntimeError
  | TypeError
  | QueueEmpty

text \<open>The subclasses of \<^verbatim>\<open>WireCodecError\<close>, which handlers catch together.\<close>

fun is_wire_codec_error :: "exn \<Rightarrow> bool" where
  "is_wire_codec_error InvalidPreambleError = True"
| "is_wire_codec_error MalformedFrameError = True"
| "is_wire_codec_error FrameTooLargeError = True"
| "is_wire_codec_error UnsupportedFrameError = True"
| "is_wire_codec_error UnsupportedFeatureError = True"
| "is_wire_codec_error UnsupportedHeaderVersionError = True"
| "is_wire_codec_error WrongStreamError = True"
| "is_wire_codec_error _ = False"

type_synonym 'a result = "exn + 'a"

text \<open>Sequencing: an exception ends the computation, a value is passed on.\<close>

definition rbind :: "'e + 'a \<Rightarrow> ('a \<Rightarrow> 'e + 'b) \<Rightarrow> 'e + 'b" where
  "rbind m f = (case m of Inl e \<Rightarrow> Inl e | Inr x \<Rightarrow> f x)"

definition guard :: "bool \<Rightarrow> 'e \<Rightarrow> 'e + unit" where
  "guard ok e = (if ok then Inr () else Inl e)"

lemma rbind_simps [simp]: "rbind (Inl e) f = Inl e" "rbind (Inr x) f = f x"
  by (simp_all add: rbind_def)

lemma rbind_eq_Inr [result_simps]: "rbind m f = Inr y \<longleftrightarrow> (\<exists>x. m = Inr x \<and> f x = Inr y)"
  by (cases m) auto

lemma rbind_eq_Inl [result_simps]:
  "rbind m f = Inl e \<longleftrightarrow> m = Inl e \<or> (\<exists>x. m = Inr x \<and> f x = Inl e)"
  by (cases m) auto

lemma rbind_assoc: "rbind (rbind m f) g = rbind m (\<lambda>x. rbind (f x) g)"
  by (cases m) simp_all

lemma guard_True [simp]: "guard True e = Inr ()"
  by (simp add: guard_def)

lemma guard_False [simp]: "guard False e = Inl e"
  by (simp add: guard_def)

lemma guard_eq_Inr [simp]: "guard b e = Inr u \<longleftrightarrow> b"
  by (simp add: guard_def)

lemma guard_eq_Inl [simp]: "guard b e = Inl e' \<longleftrightarrow> \<not> b \<and> e' = e"
  by (auto simp: guard_def)

lemma rbind_cong [fundef_cong]:
  "m = m' \<Longrightarrow> (\<And>x. m' = Inr x \<Longrightarrow> f x = g x) \<Longrightarrow> rbind m f = rbind m' g"
  by (cases m') auto

text \<open>Running fallible calls over a list from left to right, stopping at the first exception.\<close>

fun map_result :: "('a \<Rightarrow> 'e + 'b) \<Rightarrow> 'a list \<Rightarrow> 'e + 'b list" where
  "map_result f [] = Inr []"
| "map_result f (x # xs) = rbind (f x) (\<lambda>y. rbind (map_result f xs) (\<lambda>ys. Inr (y # ys)))"

lemma map_result_Inr:
  "map_result f xs = Inr ys \<longleftrightarrow> list_all2 (\<lambda>x y. f x = Inr y) xs ys"
  by (induction xs arbitrary: ys) (auto simp: rbind_eq_Inr list_all2_Cons1)

lemma list_all2_choose:
  assumes "list_all2 P xs ys" and "\<And>x y. x \<in> set xs \<Longrightarrow> P x y \<Longrightarrow> \<exists>z. Q x z \<and> R y z"
  shows "\<exists>zs. list_all2 Q xs zs \<and> list_all2 R ys zs"
  using assms
proof (induction xs ys rule: list_all2_induct)
  case Nil
  show ?case by simp
next
  case (Cons x xs y ys)
  then obtain z zs where "Q x z" "R y z" "list_all2 Q xs zs" "list_all2 R ys zs"
    by (metis list.set_intros)
  then have "list_all2 Q (x # xs) (z # zs) \<and> list_all2 R (y # ys) (z # zs)" by simp
  then show ?case by blast
qed

lemma map_result_total:
  "(\<And>x. x \<in> set xs \<Longrightarrow> \<exists>y. f x = Inr y) \<Longrightarrow> \<exists>ys. map_result f xs = Inr ys"
  by (induction xs) (auto simp: rbind_eq_Inr)

lemma map_result_Inl:
  "map_result f xs = Inl e \<Longrightarrow> \<exists>x \<in> set xs. f x = Inl e"
  by (induction xs) (auto simp: rbind_eq_Inl)

lemma map_result_cong:
  "(\<And>x. x \<in> set xs \<Longrightarrow> f x = g x) \<Longrightarrow> map_result f xs = map_result g xs"
  by (induction xs) auto

section \<open>Big-endian integers\<close>

text \<open>
  \<open>be_bytes n v\<close> is \<^verbatim>\<open>struct.pack\<close> with a big-endian unsigned format of \<open>n\<close> bytes, and
  \<open>be_int\<close> is \<^verbatim>\<open>struct.unpack\<close>.
\<close>

primrec be_bytes :: "nat \<Rightarrow> int \<Rightarrow> bytes" where
  "be_bytes 0 v = []"
| "be_bytes (Suc n) v = be_bytes n (v div 256) @ [word_of_int v]"

definition be_int :: "bytes \<Rightarrow> int" where
  "be_int bs = foldl (\<lambda>acc b. acc * 256 + uint b) 0 bs"

lemma length_be_bytes [simp, codec_len]: "length (be_bytes n v) = n"
  by (induction n arbitrary: v) auto

lemma be_int_Nil [simp]: "be_int [] = 0"
  by (simp add: be_int_def)

lemma be_int_snoc [simp]: "be_int (bs @ [b]) = be_int bs * 256 + uint b"
  by (simp add: be_int_def)

lemma uint_byte_bounds: "0 \<le> uint (b :: byte)" "uint (b :: byte) < 256"
  using uint_lt2p [of b] by simp_all

lemma be_int_bounds: "0 \<le> be_int bs \<and> be_int bs < 256 ^ length bs"
proof (induction bs rule: rev_induct)
  case Nil
  show ?case by simp
next
  case (snoc b bs)
  have "be_int bs * 256 + uint b < 256 ^ length bs * 256"
    using snoc uint_byte_bounds [of b] by linarith
  with snoc uint_byte_bounds [of b] show ?case by simp
qed

lemma be_int_nonneg [simp]: "0 \<le> be_int bs"
  using be_int_bounds by blast

lemma uint_word_of_int_byte: "uint (word_of_int v :: byte) = v mod 256"
  by (simp add: uint_word_of_int)

lemma be_int_be_bytes_mod: "be_int (be_bytes n v) = v mod 256 ^ n"
proof (induction n arbitrary: v)
  case 0
  show ?case by simp
next
  case (Suc n)
  have "(v div 256) mod 256 ^ n * 256 + v mod 256 = v mod (256 * 256 ^ n)"
    by (simp add: zmod_zmult2_eq)
  with Suc show ?case by (simp add: uint_word_of_int_byte)
qed

lemma be_int_be_bytes: "0 \<le> v \<Longrightarrow> v < 256 ^ n \<Longrightarrow> be_int (be_bytes n v) = v"
  by (simp add: be_int_be_bytes_mod)

lemma be_bytes_be_int: "be_bytes (length bs) (be_int bs) = bs"
proof (induction bs rule: rev_induct)
  case Nil
  show ?case by simp
next
  case (snoc b bs)
  have "(be_int bs * 256 + uint b) div 256 = be_int bs"
    using uint_byte_bounds [of b] by simp
  moreover have "(word_of_int (be_int bs * 256 + uint b) :: byte) = b"
    using uint_byte_bounds [of b] uint_word_of_int_byte [of "be_int bs * 256 + uint b"]
    by (simp only: word_uint_eq_iff) simp
  ultimately show ?case using snoc by simp
qed

lemma be_bytes_inject:
  "0 \<le> v \<Longrightarrow> v < 256 ^ n \<Longrightarrow> 0 \<le> w \<Longrightarrow> w < 256 ^ n \<Longrightarrow> be_bytes n v = be_bytes n w \<longleftrightarrow> v = w"
  by (metis be_int_be_bytes)

section \<open>UUID bytes\<close>

definition uuid_bytes :: "uuid \<Rightarrow> bytes" where
  "uuid_bytes u = be_bytes 16 (uint u)"

definition uuid_of_bytes :: "bytes \<Rightarrow> uuid" where
  "uuid_of_bytes bs = word_of_int (be_int bs)"

lemma length_uuid_bytes [simp, codec_len]: "length (uuid_bytes u) = 16"
  by (simp add: uuid_bytes_def)

lemma uint_uuid_bounds: "0 \<le> uint (u :: uuid)" "uint (u :: uuid) < 256 ^ 16"
  using uint_lt2p [of u] by simp_all

lemma uuid_of_bytes_uuid_bytes [simp]: "uuid_of_bytes (uuid_bytes u) = u"
  using uint_uuid_bounds [of u] by (simp add: uuid_of_bytes_def uuid_bytes_def be_int_be_bytes)

lemma uuid_bytes_uuid_of_bytes: "length bs = 16 \<Longrightarrow> uuid_bytes (uuid_of_bytes bs) = bs"
proof -
  assume len: "length bs = 16"
  then have "uint (word_of_int (be_int bs) :: uuid) = be_int bs"
    using be_int_bounds [of bs] by (simp add: uint_word_of_int)
  with len show ?thesis
    using be_bytes_be_int [of bs] by (simp add: uuid_of_bytes_def uuid_bytes_def)
qed

lemma uuid_bytes_inject [simp]: "uuid_bytes u = uuid_bytes v \<longleftrightarrow> u = v"
  by (metis uuid_of_bytes_uuid_bytes)

section \<open>Sorting by an injective key\<close>

text \<open>
  Sorting by an injective key does not depend on the order in which the elements were listed, so
  it is well defined on sets, whose iteration order the language leaves open.
\<close>

lemma sort_key_mset_cong:
  assumes "mset xs = mset ys" and "inj_on f (set xs)"
  shows "sort_key f xs = sort_key f ys"
proof -
  have "mset xs = mset (sort_key f ys)" using assms(1) by simp
  moreover have "sorted (map f (sort_key f ys))" by simp
  ultimately show ?thesis
    using assms(2) by (intro sort_key_inj_key_eq) auto
qed

lemma sort_key_eq_Nil_iff [simp]: "sort_key f xs = [] \<longleftrightarrow> xs = []"
  by (metis length_0_conv length_sort)

lemma distinct_map_sort_key [simp]: "distinct (map g (sort_key f xs)) \<longleftrightarrow> distinct (map g xs)"
  by (rule mset_eq_imp_distinct_iff) simp

section \<open>Machines whose operations may raise\<close>

text \<open>
  A component whose operations take a state and raise or return the next state. An invariant kept by
  every well-formed operation holds after every sequence of them.
\<close>

fun run_ops :: "('op \<Rightarrow> 's \<Rightarrow> 'e + 's) \<Rightarrow> 'op list \<Rightarrow> 's \<Rightarrow> 'e + 's" where
  "run_ops step [] s = Inr s"
| "run_ops step (a # as) s = rbind (step a s) (run_ops step as)"

locale fallible_machine =
  fixes step :: "'op \<Rightarrow> 's \<Rightarrow> 'e + 's"
    and invariant :: "'s \<Rightarrow> bool"
    and op_ok :: "'op \<Rightarrow> bool"
  assumes step_invariant: "invariant s \<Longrightarrow> op_ok a \<Longrightarrow> step a s = Inr s' \<Longrightarrow> invariant s'"
begin

lemma run_invariant:
  "invariant s \<Longrightarrow> list_all op_ok as \<Longrightarrow> run_ops step as s = Inr s' \<Longrightarrow> invariant s'"
  by (induction as arbitrary: s) (auto simp: rbind_eq_Inr dest: step_invariant)

lemma run_append_invariant:
  assumes "invariant s" "list_all op_ok (as @ bs)" "run_ops step (as @ bs) s = Inr s'"
  shows "\<exists>t. run_ops step as s = Inr t \<and> invariant t \<and> run_ops step bs t = Inr s'"
  using assms by (induction as arbitrary: s) (auto simp: rbind_eq_Inr dest: step_invariant)

end

end
