(* ===== verification/Utf8.thy ===== *)
theory Utf8
  imports Movie_Prelude
begin

text \<open>
  Python strings as lists of code points, and the strict UTF-8 codec that the wire format and the
  serializer registry call through \<^verbatim>\<open>str.encode\<close> and \<^verbatim>\<open>bytes.decode\<close>. The codec follows the table
  of well-formed byte sequences of the Unicode standard: overlong forms, surrogates and code points
  above U+10FFFF are refused in both directions.
\<close>

type_synonym pystr = "nat list"

definition str :: "string \<Rightarrow> pystr" where
  "str s = map of_char s"

definition isascii :: "pystr \<Rightarrow> bool" where
  "isascii s = list_all (\<lambda>c. c < 128) s"

section \<open>Encoding\<close>

definition byte_of :: "nat \<Rightarrow> byte" where
  "byte_of n = of_nat n"

definition utf8_char :: "nat \<Rightarrow> bytes option" where
  "utf8_char c =
     (if c < 128 then Some [byte_of c]
      else if c < 2048 then Some [byte_of (192 + c div 64), byte_of (128 + c mod 64)]
      else if 55296 \<le> c \<and> c < 57344 then None
      else if c < 65536 then
        Some [byte_of (224 + c div 4096), byte_of (128 + c div 64 mod 64), byte_of (128 + c mod 64)]
      else if c < 1114112 then
        Some [byte_of (240 + c div 262144), byte_of (128 + c div 4096 mod 64),
              byte_of (128 + c div 64 mod 64), byte_of (128 + c mod 64)]
      else None)"

fun utf8_encode :: "pystr \<Rightarrow> bytes option" where
  "utf8_encode [] = Some []"
| "utf8_encode (c # cs) =
     (case utf8_char c of None \<Rightarrow> None
      | Some b \<Rightarrow> (case utf8_encode cs of None \<Rightarrow> None | Some bs \<Rightarrow> Some (b @ bs)))"

section \<open>Decoding\<close>

definition continuation :: "byte \<Rightarrow> bool" where
  "continuation b \<longleftrightarrow> 128 \<le> unat b \<and> unat b < 192"

definition utf8_next :: "bytes \<Rightarrow> (nat \<times> bytes) option" where
  "utf8_next bs =
     (case bs of [] \<Rightarrow> None
      | b0 # r0 \<Rightarrow>
        let n = unat b0 in
        if n < 128 then Some (n, r0)
        else if n < 194 then None
        else if n < 224 then
          (case r0 of
             b1 # r1 \<Rightarrow> if continuation b1 then Some ((n - 192) * 64 + (unat b1 - 128), r1) else None
           | _ \<Rightarrow> None)
        else if n < 240 then
          (case r0 of
             b1 # b2 # r2 \<Rightarrow>
               if continuation b1 \<and> continuation b2 \<and> (n = 224 \<longrightarrow> 160 \<le> unat b1)
                  \<and> (n = 237 \<longrightarrow> unat b1 < 160)
               then Some ((n - 224) * 4096 + (unat b1 - 128) * 64 + (unat b2 - 128), r2) else None
           | _ \<Rightarrow> None)
        else if n < 245 then
          (case r0 of
             b1 # b2 # b3 # r3 \<Rightarrow>
               if continuation b1 \<and> continuation b2 \<and> continuation b3
                  \<and> (n = 240 \<longrightarrow> 144 \<le> unat b1) \<and> (n = 244 \<longrightarrow> unat b1 < 144)
               then Some ((n - 240) * 262144 + (unat b1 - 128) * 4096 + (unat b2 - 128) * 64
                          + (unat b3 - 128), r3)
               else None
           | _ \<Rightarrow> None)
        else None)"

lemma utf8_next_shorter: "utf8_next bs = Some (c, r) \<Longrightarrow> length r < length bs"
  by (auto simp: utf8_next_def Let_def split: list.splits if_splits)

function utf8_decode :: "bytes \<Rightarrow> pystr option" where
  "utf8_decode bs =
     (if bs = [] then Some []
      else case utf8_next bs of None \<Rightarrow> None
           | Some (c, r) \<Rightarrow> (case utf8_decode r of None \<Rightarrow> None | Some cs \<Rightarrow> Some (c # cs)))"
  by pat_completeness auto
termination
  by (relation "measure length") (auto dest: utf8_next_shorter)

declare utf8_decode.simps [simp del]

section \<open>Round trips\<close>

lemma unat_byte_of_nat: "n < 256 \<Longrightarrow> unat (byte_of n) = n"
  by (simp add: byte_of_def unat_of_nat)

lemma base64_join:
  assumes "(l :: nat) < 64" "(m :: nat) < 64"
  shows "((h * 64 + m) * 64 + l) mod 64 = l"
    and "((h * 64 + m) * 64 + l) div 64 = h * 64 + m"
    and "((h * 64 + m) * 64 + l) div 64 mod 64 = m"
    and "((h * 64 + m) * 64 + l) div 4096 = h"
proof -
  have "(q * 64 + l) mod 64 = l" "(q * 64 + l) div 64 = q" for q
    using assms(1) by simp_all
  then show "((h * 64 + m) * 64 + l) mod 64 = l" and 2: "((h * 64 + m) * 64 + l) div 64 = h * 64 + m"
    by blast+
  show "((h * 64 + m) * 64 + l) div 64 mod 64 = m"
    unfolding 2 using assms by simp
  have "((h * 64 + m) * 64 + l) div (64 * 64) = (h * 64 + m) div 64"
    unfolding div_mult2_eq 2 ..
  also have "\<dots> = h" using assms by simp
  finally show "((h * 64 + m) * 64 + l) div 4096 = h" by simp
qed

lemma base64_split: "(c :: nat) = (c div 4096 * 64 + c div 64 mod 64) * 64 + c mod 64"
proof -
  have "c div 4096 = c div 64 div 64" by (simp flip: div_mult2_eq)
  then have "c div 4096 * 64 + c div 64 mod 64 = c div 64" by simp
  then show ?thesis by simp
qed

lemma div_div_4096: "(c :: nat) div 4096 div 64 = c div 262144"
  by (simp flip: div_mult2_eq)

lemma utf8_char_nonempty: "utf8_char c = Some b \<Longrightarrow> b \<noteq> []"
  by (auto simp: utf8_char_def split: if_splits)

lemma utf8_next_utf8_char:
  assumes "utf8_char c = Some b"
  shows "utf8_next (b @ r) = Some (c, r)"
proof -
  consider (one) "c < 128" | (two) "128 \<le> c" "c < 2048"
    | (three) "2048 \<le> c" "c < 65536" "\<not> (55296 \<le> c \<and> c < 57344)"
    | (four) "65536 \<le> c" "c < 1114112"
    using assms by (fastforce simp: utf8_char_def split: if_splits)
  then show ?thesis
  proof cases
    case one
    then show ?thesis
      using assms by (auto simp: utf8_char_def utf8_next_def unat_byte_of_nat)
  next
    case two
    then have "c div 64 < 32" "2 \<le> c div 64" by auto
    moreover have "c div 64 * 64 + c mod 64 = c" by simp
    ultimately show ?thesis
      using assms two
      by (auto simp: utf8_char_def utf8_next_def unat_byte_of_nat continuation_def Let_def)
  next
    case three
    define h m l where "h = c div 4096" and "m = c div 64 mod 64" and "l = c mod 64"
    have c: "c = h * 4096 + m * 64 + l" and m: "m < 64" and l: "l < 64"
      using base64_split [of c] by (simp_all add: h_def m_def l_def)
    have h: "h < 16" and h0: "h = 0 \<longrightarrow> 32 \<le> m" and h13: "h = 13 \<longrightarrow> m < 32"
      using three c m l by auto
    have b: "b = [byte_of (224 + h), byte_of (128 + m), byte_of (128 + l)]"
      using assms three by (auto simp: utf8_char_def h_def m_def l_def)
    show ?thesis
      using h m l h0 h13
      by (simp add: b utf8_next_def unat_byte_of_nat continuation_def Let_def c)
  next
    case four
    define h m n l where "h = c div 262144" and "m = c div 4096 mod 64"
      and "n = c div 64 mod 64" and "l = c mod 64"
    have c: "c = h * 262144 + m * 4096 + n * 64 + l" and m: "m < 64" and n: "n < 64" and l: "l < 64"
      using base64_split [of c] div_mult_mod_eq [of "c div 4096" 64]
      by (simp_all add: h_def m_def n_def l_def div_div_4096)
    have h: "h < 5" and h0: "h = 0 \<longrightarrow> 16 \<le> m" and h4: "h = 4 \<longrightarrow> m < 16"
      using four c m n l by auto
    have b: "b = [byte_of (240 + h), byte_of (128 + m), byte_of (128 + n), byte_of (128 + l)]"
      using assms four by (auto simp: utf8_char_def h_def m_def n_def l_def)
    show ?thesis
      using h m n l h0 h4
      by (simp add: b utf8_next_def unat_byte_of_nat continuation_def Let_def c)
  qed
qed

lemma utf8_decode_encode:
  "utf8_encode s = Some b \<Longrightarrow> utf8_decode b = Some s"
proof (induction s arbitrary: b)
  case Nil
  then show ?case by (simp add: utf8_decode.simps)
next
  case (Cons c cs)
  then obtain b1 b2 where *: "utf8_char c = Some b1" "utf8_encode cs = Some b2" "b = b1 @ b2"
    by (auto split: option.splits)
  then show ?case
    using Cons.IH [OF *(2)]
    by (subst utf8_decode.simps) (simp add: utf8_next_utf8_char utf8_char_nonempty)
qed

lemma byte_eq_of_nat: "unat (b :: byte) = n \<Longrightarrow> b = byte_of n"
  by (auto simp: byte_of_def)

lemma utf8_char_utf8_next:
  assumes "utf8_next bs = Some (c, r)"
  shows "\<exists>b. utf8_char c = Some b \<and> bs = b @ r"
proof -
  obtain b0 r0 where bs: "bs = b0 # r0"
    using assms by (cases bs) (auto simp: utf8_next_def)
  define n where "n = unat b0"
  have b0: "b0 = byte_of n" by (simp add: n_def byte_eq_of_nat)
  consider (one) "n < 128" | (two) "194 \<le> n" "n < 224" | (three) "224 \<le> n" "n < 240"
    | (four) "240 \<le> n" "n < 245"
    using assms by (fastforce simp: bs utf8_next_def Let_def n_def split: if_splits)
  then show ?thesis
  proof cases
    case one
    then have "c = n" "r = r0"
      using assms by (simp_all add: bs utf8_next_def Let_def flip: n_def)
    with one b0 show ?thesis by (simp add: bs utf8_char_def)
  next
    case two
    then obtain b1 where r0: "r0 = b1 # r" and k: "continuation b1"
      and c: "c = (n - 192) * 64 + (unat b1 - 128)"
      using assms by (auto simp: bs utf8_next_def Let_def simp flip: n_def split: list.splits if_splits)
    define m where "m = unat b1 - 128"
    have m: "m < 64" "unat b1 = 128 + m" using k by (auto simp: m_def continuation_def)
    then have b1: "b1 = byte_of (128 + m)" by (intro byte_eq_of_nat)
    have "c div 64 = n - 192" "c mod 64 = m" "128 \<le> c" "c < 2048"
      using two m(1) by (simp_all add: c flip: m_def)
    then show ?thesis
      using two by (simp add: utf8_char_def bs r0 b0 b1)
  next
    case three
    then obtain b1 b2 where r0: "r0 = b1 # b2 # r" and k: "continuation b1" "continuation b2"
      and e: "n = 224 \<longrightarrow> 160 \<le> unat b1" "n = 237 \<longrightarrow> unat b1 < 160"
      and c: "c = (n - 224) * 4096 + (unat b1 - 128) * 64 + (unat b2 - 128)"
      using assms by (auto simp: bs utf8_next_def Let_def simp flip: n_def split: list.splits if_splits)
    define h m l where "h = n - 224" and "m = unat b1 - 128" and "l = unat b2 - 128"
    have m: "m < 64" "unat b1 = 128 + m" and l: "l < 64" "unat b2 = 128 + l"
      using k by (auto simp: m_def l_def continuation_def)
    have h: "h < 16" "n = 224 + h" using three by (auto simp: h_def)
    have b: "b1 = byte_of (128 + m)" "b2 = byte_of (128 + l)"
      using m l by (auto intro: byte_eq_of_nat)
    have c': "c = h * 4096 + m * 64 + l" by (simp add: c h_def m_def l_def)
    have e': "h = 0 \<longrightarrow> 32 \<le> m" "h = 13 \<longrightarrow> m < 32" using e h m by auto
    then have "2048 \<le> c" "c < 65536"
      using h(1) m(1) l(1) by (auto simp: c')
    moreover have "\<not> (55296 \<le> c \<and> c < 57344)"
    proof -
      consider "h \<le> 12" | "h = 13" | "14 \<le> h" by linarith
      then show ?thesis using e' m(1) l(1) by cases (auto simp: c')
    qed
    moreover have "c div 4096 = h" "c div 64 mod 64 = m" "c mod 64 = l"
      using base64_join [OF l(1) m(1), of h] by (simp_all add: c' algebra_simps)
    ultimately show ?thesis
      by (simp add: utf8_char_def bs r0 b0 b h(2))
  next
    case four
    then obtain b1 b2 b3 where r0: "r0 = b1 # b2 # b3 # r"
      and k: "continuation b1" "continuation b2" "continuation b3"
      and e: "n = 240 \<longrightarrow> 144 \<le> unat b1" "n = 244 \<longrightarrow> unat b1 < 144"
      and c: "c = (n - 240) * 262144 + (unat b1 - 128) * 4096 + (unat b2 - 128) * 64
                  + (unat b3 - 128)"
      using assms by (auto simp: bs utf8_next_def Let_def simp flip: n_def split: list.splits if_splits)
    define h m p l where "h = n - 240" and "m = unat b1 - 128" and "p = unat b2 - 128"
      and "l = unat b3 - 128"
    have m: "m < 64" "unat b1 = 128 + m" and p: "p < 64" "unat b2 = 128 + p"
      and l: "l < 64" "unat b3 = 128 + l"
      using k by (auto simp: m_def p_def l_def continuation_def)
    have h: "h < 5" "n = 240 + h" using four by (auto simp: h_def)
    have b: "b1 = byte_of (128 + m)" "b2 = byte_of (128 + p)" "b3 = byte_of (128 + l)"
      using m p l by (auto intro: byte_eq_of_nat)
    have c': "c = h * 262144 + m * 4096 + p * 64 + l" by (simp add: c h_def m_def p_def l_def)
    have "h = 0 \<longrightarrow> 16 \<le> m" "h = 4 \<longrightarrow> m < 16" using e h m by auto
    then have "65536 \<le> c" "c < 1114112"
      using h(1) m(1) p(1) l(1) by (auto simp: c')
    moreover have q: "c div 4096 = h * 64 + m" and "c div 64 mod 64 = p" "c mod 64 = l"
      using base64_join [OF l(1) p(1), of "h * 64 + m"] by (simp_all add: c' algebra_simps)
    moreover have "c div 4096 mod 64 = m" "c div 262144 = h"
      using m(1) div_div_4096 [of c] by (simp_all add: q)
    ultimately show ?thesis
      by (simp add: utf8_char_def bs r0 b0 b h(2))
  qed
qed

lemma utf8_encode_decode:
  "utf8_decode b = Some s \<Longrightarrow> utf8_encode s = Some b"
proof (induction b arbitrary: s rule: utf8_decode.induct)
  case (1 b)
  show ?case
  proof (cases "b = []")
    case True
    with "1.prems" show ?thesis by (simp add: utf8_decode.simps)
  next
    case False
    with "1.prems" obtain c r cs where n: "utf8_next b = Some (c, r)"
      and d: "utf8_decode r = Some cs" and s: "s = c # cs"
      by (subst (asm) utf8_decode.simps) (auto split: option.splits)
    from utf8_char_utf8_next [OF n] "1.IH" [OF False n refl d] show ?thesis
      by (auto simp: s)
  qed
qed

lemma utf8_encode_inj: "utf8_encode s = Some b \<Longrightarrow> utf8_encode t = Some b \<Longrightarrow> s = t"
  by (auto dest!: utf8_decode_encode)

lemma utf8_encode_empty: "utf8_encode s = Some [] \<longleftrightarrow> s = []"
  by (cases s) (auto split: option.splits dest: utf8_char_nonempty)

lemma utf8_encode_ascii: "isascii s \<Longrightarrow> utf8_encode s = Some (map byte_of s)"
  by (induction s) (auto simp: isascii_def utf8_char_def)

end
