(* ===== verification/Serialization.thy ===== *)
theory Serialization
  imports Utf8 "HOL-Library.FSet" "HOL-Library.List_Lexorder" "HOL-Library.Product_Lexorder"
begin

text \<open>
  Model of \<^verbatim>\<open>movie/remoting/serialization.py\<close>: serializer descriptors and routes with the checks of
  their constructors, the registry and its builder, and the negotiation by which two peers derive
  the same directional routes.

  Unicode normalisation (\<^verbatim>\<open>unicodedata.is_normalized\<close>) is a table of the Unicode database; it is the
  parameter \<open>nfc\<close> of every definition that checks text. Application serializers are parameters too:
  functions that return an outcome. Checks of the dynamic type of an argument have no counterpart,
  since the arguments are typed.
\<close>

abbreviation (input) MAX_U16 :: int where "MAX_U16 \<equiv> 65535"
abbreviation (input) MAX_U32 :: int where "MAX_U32 \<equiv> 4294967295"
abbreviation (input) MAX_MANIFEST_BYTES :: int where "MAX_MANIFEST_BYTES \<equiv> 1024"

type_synonym normalized = "pystr \<Rightarrow> bool"

definition encoded_text :: "normalized \<Rightarrow> pystr \<Rightarrow> int \<Rightarrow> bytes result" where
  "encoded_text nfc value maximum =
     rbind (guard (nfc value) SerializerRegistryError) (\<lambda>_.
       case utf8_encode value of
         None \<Rightarrow> Inl SerializerRegistryError
       | Some encoded \<Rightarrow>
           rbind (guard (encoded \<noteq> []) SerializerRegistryError) (\<lambda>_.
           rbind (guard (int (length encoded) \<le> maximum) SerializerRegistryError) (\<lambda>_.
             Inr encoded)))"

definition registry_uint :: "int \<Rightarrow> int \<Rightarrow> bool \<Rightarrow> unit result" where
  "registry_uint value maximum nonzero =
     guard ((if nonzero then 1 else 0) \<le> value \<and> value \<le> maximum) SerializerRegistryError"

text \<open>The sort key of manifests: their UTF-8 bytes.\<close>

definition utf8_key :: "pystr \<Rightarrow> bytes" where
  "utf8_key s = (case utf8_encode s of Some b \<Rightarrow> b | None \<Rightarrow> [])"

section \<open>Descriptors and routes\<close>

record serializer_descriptor =
  sd_serializer_id :: int
  sd_name :: pystr
  sd_protocol_major :: int
  sd_protocol_minor :: int
  sd_readable_manifests :: "pystr fset"
  sd_writable_manifests :: "pystr fset"

definition serializer_descriptor_init ::
  "normalized \<Rightarrow> int \<Rightarrow> pystr \<Rightarrow> int \<Rightarrow> int \<Rightarrow> pystr fset \<Rightarrow> pystr fset \<Rightarrow> serializer_descriptor result"
where
  "serializer_descriptor_init nfc sid name major minor readable writable =
     rbind (registry_uint sid MAX_U32 True) (\<lambda>_.
     rbind (encoded_text nfc name MAX_U16) (\<lambda>_.
     rbind (registry_uint major MAX_U16 False) (\<lambda>_.
     rbind (registry_uint minor MAX_U16 False) (\<lambda>_.
     rbind (guard (int (fcard readable) \<le> MAX_U16 \<and> int (fcard writable) \<le> MAX_U16)
              SerializerRegistryError) (\<lambda>_.
     rbind (guard (fBall (readable |\<union>| writable)
              (\<lambda>m. \<not> isl (encoded_text nfc m MAX_MANIFEST_BYTES))) SerializerRegistryError) (\<lambda>_.
       Inr \<lparr>sd_serializer_id = sid, sd_name = name, sd_protocol_major = major,
            sd_protocol_minor = minor, sd_readable_manifests = readable,
            sd_writable_manifests = writable\<rparr>))))))"

record serializer_route =
  sr_origin_incarnation_uid :: uuid
  sr_serializer_id :: int
  sr_manifests :: "pystr list"

definition serializer_route_init ::
  "normalized \<Rightarrow> uuid \<Rightarrow> int \<Rightarrow> pystr list \<Rightarrow> serializer_route result"
where
  "serializer_route_init nfc origin sid manifests =
     rbind (guard (origin \<noteq> 0) SerializerRegistryError) (\<lambda>_.
     rbind (registry_uint sid MAX_U32 True) (\<lambda>_.
     rbind (guard (int (length manifests) \<le> MAX_U16) SerializerRegistryError) (\<lambda>_.
     rbind (guard (list_all (\<lambda>m. \<not> isl (encoded_text nfc m MAX_MANIFEST_BYTES)) manifests)
              SerializerRegistryError) (\<lambda>_.
     rbind (guard (distinct manifests) SerializerRegistryError) (\<lambda>_.
       let canonical = sort_key utf8_key manifests in
       rbind (guard (canonical \<noteq> []) SerializerRegistryError) (\<lambda>_.
         Inr \<lparr>sr_origin_incarnation_uid = origin, sr_serializer_id = sid,
              sr_manifests = canonical\<rparr>))))))"

section \<open>Well-formedness: what the constructors guarantee\<close>

definition valid_text :: "normalized \<Rightarrow> pystr \<Rightarrow> int \<Rightarrow> bool" where
  "valid_text nfc s maximum \<longleftrightarrow>
     nfc s \<and> s \<noteq> [] \<and> (\<exists>b. utf8_encode s = Some b \<and> int (length b) \<le> maximum)"

definition valid_descriptor :: "normalized \<Rightarrow> serializer_descriptor \<Rightarrow> bool" where
  "valid_descriptor nfc d \<longleftrightarrow>
     1 \<le> sd_serializer_id d \<and> sd_serializer_id d \<le> MAX_U32 \<and> valid_text nfc (sd_name d) MAX_U16
     \<and> 0 \<le> sd_protocol_major d \<and> sd_protocol_major d \<le> MAX_U16
     \<and> 0 \<le> sd_protocol_minor d \<and> sd_protocol_minor d \<le> MAX_U16
     \<and> int (fcard (sd_readable_manifests d)) \<le> MAX_U16
     \<and> int (fcard (sd_writable_manifests d)) \<le> MAX_U16
     \<and> fBall (sd_readable_manifests d |\<union>| sd_writable_manifests d)
         (\<lambda>m. valid_text nfc m MAX_MANIFEST_BYTES)"

definition valid_route :: "normalized \<Rightarrow> serializer_route \<Rightarrow> bool" where
  "valid_route nfc r \<longleftrightarrow>
     sr_origin_incarnation_uid r \<noteq> 0 \<and> 1 \<le> sr_serializer_id r \<and> sr_serializer_id r \<le> MAX_U32
     \<and> sr_manifests r \<noteq> [] \<and> int (length (sr_manifests r)) \<le> MAX_U16
     \<and> distinct (sr_manifests r) \<and> sorted (map utf8_key (sr_manifests r))
     \<and> (\<forall>m \<in> set (sr_manifests r). valid_text nfc m MAX_MANIFEST_BYTES)"

lemma encoded_text_ok:
  "encoded_text nfc s maximum = Inr b \<longleftrightarrow>
     nfc s \<and> utf8_encode s = Some b \<and> b \<noteq> [] \<and> int (length b) \<le> maximum"
  by (auto simp: encoded_text_def result_simps split: option.splits)

lemma not_isl_encoded_text [simp]:
  "\<not> isl (encoded_text nfc s maximum) \<longleftrightarrow> valid_text nfc s maximum"
proof -
  have "\<not> isl (encoded_text nfc s maximum) \<longleftrightarrow> (\<exists>b. encoded_text nfc s maximum = Inr b)"
    by (cases "encoded_text nfc s maximum") auto
  then show ?thesis
    by (auto simp: encoded_text_ok valid_text_def utf8_encode_empty)
qed

lemma encoded_text_Inr_iff:
  "(\<exists>b. encoded_text nfc s maximum = Inr b) \<longleftrightarrow> valid_text nfc s maximum"
  using not_isl_encoded_text [of nfc s maximum] by (cases "encoded_text nfc s maximum") auto

lemma serializer_descriptor_init_Inr:
  "serializer_descriptor_init nfc sid name major minor readable writable = Inr d \<longleftrightarrow>
     d = \<lparr>sd_serializer_id = sid, sd_name = name, sd_protocol_major = major,
          sd_protocol_minor = minor, sd_readable_manifests = readable,
          sd_writable_manifests = writable\<rparr> \<and> valid_descriptor nfc d"
  by (auto simp: serializer_descriptor_init_def result_simps registry_uint_def valid_descriptor_def
      encoded_text_Inr_iff)

lemma serializer_route_init_Inr:
  "serializer_route_init nfc origin sid manifests = Inr r \<longleftrightarrow>
     distinct manifests \<and>
     r = \<lparr>sr_origin_incarnation_uid = origin, sr_serializer_id = sid,
          sr_manifests = sort_key utf8_key manifests\<rparr> \<and> valid_route nfc r"
  by (auto simp: serializer_route_init_def result_simps registry_uint_def valid_route_def
      list_all_iff Let_def)

lemma utf8_key_inj:
  assumes "valid_text nfc s m" "valid_text nfc t n" "utf8_key s = utf8_key t"
  shows "s = t"
  using assms by (auto simp: valid_text_def utf8_key_def dest: utf8_encode_inj)

lemma inj_on_utf8_key:
  "(\<And>m. m \<in> A \<Longrightarrow> valid_text nfc m n) \<Longrightarrow> inj_on utf8_key A"
  by (meson inj_onI utf8_key_inj)

section \<open>The registry\<close>

text \<open>
  An application serializer either raises, returns something that is not \<^verbatim>\<open>bytes\<close>, or returns
  bytes; a deserializer raises (\<open>None\<close>) or returns a value. Dictionaries are association lists in
  insertion order.
\<close>

datatype serialize_outcome = SerializeRaised | SerializeNotBytes | SerializeBytes bytes

record 'v registration =
  rn_descriptor :: serializer_descriptor
  rn_serialize :: "'v \<Rightarrow> pystr \<Rightarrow> int \<Rightarrow> serialize_outcome"
  rn_deserialize :: "bytes \<Rightarrow> pystr \<Rightarrow> int \<Rightarrow> 'v option"

record 't serializer_binding =
  sb_message_type :: 't
  sb_serializer_id :: int
  sb_manifest :: pystr

record serialized_payload =
  sp_serializer_id :: int
  sp_manifest :: pystr
  sp_payload :: bytes

record ('t, 'v) serializer_registry =
  rg_registrations :: "(int \<times> 'v registration) list"
  rg_bindings :: "('t \<times> 't serializer_binding) list"

definition registry_descriptors :: "('t, 'v) serializer_registry \<Rightarrow> serializer_descriptor list" where
  "registry_descriptors reg = map (\<lambda>(_, r). rn_descriptor r) (sort_key fst (rg_registrations reg))"

definition registry_descriptor ::
  "('t, 'v) serializer_registry \<Rightarrow> int \<Rightarrow> serializer_descriptor result"
where
  "registry_descriptor reg sid =
     (case map_of (rg_registrations reg) sid of
        None \<Rightarrow> Inl UnknownSerializerError | Some r \<Rightarrow> Inr (rn_descriptor r))"

definition binding_for :: "('t, 'v) serializer_registry \<Rightarrow> 't \<Rightarrow> 't serializer_binding result" where
  "binding_for reg t =
     (case map_of (rg_bindings reg) t of None \<Rightarrow> Inl UnknownSerializerError | Some b \<Rightarrow> Inr b)"

definition registry_serialize_bound ::
  "('t, 'v) serializer_registry \<Rightarrow> 't serializer_binding \<Rightarrow> 'v \<Rightarrow> int \<Rightarrow> serialized_payload result"
where
  "registry_serialize_bound reg binding value minor =
     (case map_of (rg_registrations reg) (sb_serializer_id binding) of
        None \<Rightarrow> Inl KeyError
      | Some r \<Rightarrow>
          rbind (registry_uint minor (sd_protocol_minor (rn_descriptor r)) False) (\<lambda>_.
          case rn_serialize r value (sb_manifest binding) minor of
            SerializeRaised \<Rightarrow> Inl SerializationError
          | SerializeNotBytes \<Rightarrow> Inl SerializationError
          | SerializeBytes payload \<Rightarrow>
              Inr \<lparr>sp_serializer_id = sb_serializer_id binding, sp_manifest = sb_manifest binding,
                   sp_payload = payload\<rparr>))"

definition registry_serialize ::
  "('v \<Rightarrow> 't) \<Rightarrow> ('t, 'v) serializer_registry \<Rightarrow> 'v \<Rightarrow> serialized_payload result"
where
  "registry_serialize type_of reg value =
     rbind (binding_for reg (type_of value)) (\<lambda>binding.
       case map_of (rg_registrations reg) (sb_serializer_id binding) of
         None \<Rightarrow> Inl KeyError
       | Some r \<Rightarrow>
           registry_serialize_bound reg binding value (sd_protocol_minor (rn_descriptor r)))"

definition serialize_for_route ::
  "('v \<Rightarrow> 't) \<Rightarrow> ('t, 'v) serializer_registry \<Rightarrow> 'v \<Rightarrow> serializer_route \<Rightarrow> int
     \<Rightarrow> serialized_payload result"
where
  "serialize_for_route type_of reg value route minor =
     rbind (binding_for reg (type_of value)) (\<lambda>binding.
     rbind (guard (sb_serializer_id binding = sr_serializer_id route
                   \<and> sb_manifest binding \<in> set (sr_manifests route)) UnsupportedManifestError) (\<lambda>_.
       registry_serialize_bound reg binding value minor))"

definition registry_deserialize ::
  "('t, 'v) serializer_registry \<Rightarrow> int \<Rightarrow> pystr \<Rightarrow> bytes \<Rightarrow> int option \<Rightarrow> 'v result"
where
  "registry_deserialize reg sid manifest payload minor =
     (case map_of (rg_registrations reg) sid of
        None \<Rightarrow> Inl UnknownSerializerError
      | Some r \<Rightarrow>
          rbind (guard (manifest |\<in>| sd_readable_manifests (rn_descriptor r))
                   UnsupportedManifestError) (\<lambda>_.
          let selected = (case minor of None \<Rightarrow> sd_protocol_minor (rn_descriptor r) | Some m \<Rightarrow> m) in
          rbind (registry_uint selected (sd_protocol_minor (rn_descriptor r)) False) (\<lambda>_.
          case rn_deserialize r payload manifest selected of
            None \<Rightarrow> Inl DeserializationError
          | Some v \<Rightarrow> Inr v)))"

section \<open>The registry builder\<close>

record ('t, 'v) registry_builder =
  bl_registrations :: "(int \<times> 'v registration) list"
  bl_names :: "(pystr \<times> int) list"
  bl_bindings :: "('t \<times> 't serializer_binding) list"

definition builder_new :: "('t, 'v) registry_builder" where
  "builder_new = \<lparr>bl_registrations = [], bl_names = [], bl_bindings = []\<rparr>"

definition builder_add ::
  "('t, 'v) registry_builder \<Rightarrow> int \<Rightarrow> 'v registration \<Rightarrow> ('t, 'v) registry_builder result"
where
  "builder_add b sid r =
     rbind (guard (sid \<notin> fst ` set (bl_registrations b)) SerializerRegistryError) (\<lambda>_.
     rbind (guard (sd_name (rn_descriptor r) \<notin> fst ` set (bl_names b)) SerializerRegistryError) (\<lambda>_.
       Inr (b\<lparr>bl_registrations := bl_registrations b @ [(sid, r)],
              bl_names := bl_names b @ [(sd_name (rn_descriptor r), sid)]\<rparr>)))"

definition builder_register ::
  "('t, 'v) registry_builder \<Rightarrow> serializer_descriptor \<Rightarrow> ('v \<Rightarrow> pystr \<Rightarrow> int \<Rightarrow> serialize_outcome)
     \<Rightarrow> (bytes \<Rightarrow> pystr \<Rightarrow> int \<Rightarrow> 'v option) \<Rightarrow> ('t, 'v) registry_builder result"
where
  "builder_register b descriptor ser deser =
     builder_add b (sd_serializer_id descriptor)
       \<lparr>rn_descriptor = descriptor, rn_serialize = ser, rn_deserialize = deser\<rparr>"

definition builder_bind ::
  "('t, 'v) registry_builder \<Rightarrow> 't \<Rightarrow> int \<Rightarrow> pystr \<Rightarrow> ('t, 'v) registry_builder result"
where
  "builder_bind b t sid manifest =
     rbind (guard (t \<notin> fst ` set (bl_bindings b)) SerializerRegistryError) (\<lambda>_.
     case map_of (bl_registrations b) sid of
       None \<Rightarrow> Inl SerializerRegistryError
     | Some r \<Rightarrow>
         rbind (guard (manifest |\<in>| sd_writable_manifests (rn_descriptor r))
                  SerializerRegistryError) (\<lambda>_.
           Inr (b\<lparr>bl_bindings := bl_bindings b @
                   [(t, \<lparr>sb_message_type = t, sb_serializer_id = sid, sb_manifest = manifest\<rparr>)]\<rparr>)))"

fun builder_add_all ::
  "('t, 'v) registry_builder \<Rightarrow> (int \<times> 'v registration) list \<Rightarrow> ('t, 'v) registry_builder result"
where
  "builder_add_all b [] = Inr b"
| "builder_add_all b ((sid, r) # rs) = rbind (builder_add b sid r) (\<lambda>b'. builder_add_all b' rs)"

fun builder_bind_all ::
  "('t, 'v) registry_builder \<Rightarrow> 't serializer_binding list \<Rightarrow> ('t, 'v) registry_builder result"
where
  "builder_bind_all b [] = Inr b"
| "builder_bind_all b (d # ds) =
     rbind (builder_bind b (sb_message_type d) (sb_serializer_id d) (sb_manifest d))
       (\<lambda>b'. builder_bind_all b' ds)"

definition builder_include ::
  "('t, 'v) registry_builder \<Rightarrow> ('t, 'v) serializer_registry \<Rightarrow> ('t, 'v) registry_builder result"
where
  "builder_include b reg =
     rbind (builder_add_all b (rg_registrations reg)) (\<lambda>b'.
       builder_bind_all b' (map snd (rg_bindings reg)))"

definition builder_build :: "('t, 'v) registry_builder \<Rightarrow> ('t, 'v) serializer_registry" where
  "builder_build b = \<lparr>rg_registrations = bl_registrations b, rg_bindings = bl_bindings b\<rparr>"

section \<open>Invariants of the builder and of the registries it builds\<close>

definition registrations_ok :: "normalized \<Rightarrow> (int \<times> 'v registration) list \<Rightarrow> bool" where
  "registrations_ok nfc rs \<longleftrightarrow>
     distinct (map fst rs) \<and> distinct (map (\<lambda>(_, r). sd_name (rn_descriptor r)) rs)
     \<and> (\<forall>(sid, r) \<in> set rs. sd_serializer_id (rn_descriptor r) = sid
          \<and> valid_descriptor nfc (rn_descriptor r))"

definition bindings_ok ::
  "(int \<times> 'v registration) list \<Rightarrow> ('t \<times> 't serializer_binding) list \<Rightarrow> bool"
where
  "bindings_ok rs bs \<longleftrightarrow>
     distinct (map fst bs)
     \<and> (\<forall>(t, b) \<in> set bs. sb_message_type b = t
          \<and> (\<exists>r. (sb_serializer_id b, r) \<in> set rs
                 \<and> sb_manifest b |\<in>| sd_writable_manifests (rn_descriptor r)))"

definition builder_inv :: "normalized \<Rightarrow> ('t, 'v) registry_builder \<Rightarrow> bool" where
  "builder_inv nfc b \<longleftrightarrow>
     registrations_ok nfc (bl_registrations b) \<and> bindings_ok (bl_registrations b) (bl_bindings b)
     \<and> bl_names b = map (\<lambda>(sid, r). (sd_name (rn_descriptor r), sid)) (bl_registrations b)"

definition registry_inv :: "normalized \<Rightarrow> ('t, 'v) serializer_registry \<Rightarrow> bool" where
  "registry_inv nfc reg \<longleftrightarrow>
     registrations_ok nfc (rg_registrations reg)
     \<and> bindings_ok (rg_registrations reg) (rg_bindings reg)"

text \<open>The calls an application makes on a builder, and the ones that are well formed.\<close>

datatype ('t, 'v) builder_op =
    Register serializer_descriptor "'v \<Rightarrow> pystr \<Rightarrow> int \<Rightarrow> serialize_outcome"
      "bytes \<Rightarrow> pystr \<Rightarrow> int \<Rightarrow> 'v option"
  | Bind 't int pystr
  | Include "('t, 'v) serializer_registry"

fun builder_step ::
  "('t, 'v) builder_op \<Rightarrow> ('t, 'v) registry_builder \<Rightarrow> ('t, 'v) registry_builder result"
where
  "builder_step (Register d ser deser) b = builder_register b d ser deser"
| "builder_step (Bind t sid manifest) b = builder_bind b t sid manifest"
| "builder_step (Include reg) b = builder_include b reg"

fun builder_op_ok :: "normalized \<Rightarrow> ('t, 'v) builder_op \<Rightarrow> bool" where
  "builder_op_ok nfc (Register d ser deser) = valid_descriptor nfc d"
| "builder_op_ok nfc (Bind t sid manifest) = True"
| "builder_op_ok nfc (Include reg) = registry_inv nfc reg"

lemma builder_new_inv: "builder_inv nfc builder_new"
  by (simp add: builder_inv_def builder_new_def registrations_ok_def bindings_ok_def)

lemma builder_add_inv:
  assumes "builder_inv nfc b" "builder_add b sid r = Inr b'"
    and "sd_serializer_id (rn_descriptor r) = sid" "valid_descriptor nfc (rn_descriptor r)"
  shows "builder_inv nfc b'"
proof -
  have b': "b' = b\<lparr>bl_registrations := bl_registrations b @ [(sid, r)],
              bl_names := bl_names b @ [(sd_name (rn_descriptor r), sid)]\<rparr>"
    and fresh: "sid \<notin> fst ` set (bl_registrations b)"
      "sd_name (rn_descriptor r) \<notin> fst ` set (bl_names b)"
    using assms(2) by (auto simp: builder_add_def result_simps)
  have "fst ` set (bl_names b) = (\<lambda>(_, r). sd_name (rn_descriptor r)) ` set (bl_registrations b)"
    using assms(1) by (auto simp: builder_inv_def image_image case_prod_unfold)
  with fresh have names: "sd_name (rn_descriptor r)
      \<notin> (\<lambda>(_, r). sd_name (rn_descriptor r)) ` set (bl_registrations b)"
    by simp
  have "registrations_ok nfc (bl_registrations b @ [(sid, r)])"
    using assms(1,3,4) fresh(1) names by (simp add: builder_inv_def registrations_ok_def)
  moreover have "bindings_ok (bl_registrations b @ [(sid, r)]) (bl_bindings b)"
    using assms(1) by (fastforce simp: builder_inv_def bindings_ok_def)
  ultimately show ?thesis
    using assms(1) by (simp add: b' builder_inv_def)
qed

lemma builder_add_all_inv:
  assumes "builder_inv nfc b" "builder_add_all b rs = Inr b'"
    and "\<forall>(sid, r) \<in> set rs. sd_serializer_id (rn_descriptor r) = sid
           \<and> valid_descriptor nfc (rn_descriptor r)"
  shows "builder_inv nfc b'"
  using assms
proof (induction b rs rule: builder_add_all.induct)
  case (1 b)
  then show ?case by simp
next
  case (2 b sid r rs)
  then obtain b1 where "builder_add b sid r = Inr b1" "builder_add_all b1 rs = Inr b'"
    by (auto simp: result_simps)
  with 2 show ?case by (auto dest: builder_add_inv)
qed

lemma builder_bind_inv:
  assumes "builder_inv nfc b" "builder_bind b t sid manifest = Inr b'"
  shows "builder_inv nfc b'"
proof -
  obtain r where r: "(sid, r) \<in> set (bl_registrations b)"
      "manifest |\<in>| sd_writable_manifests (rn_descriptor r)"
    and t: "t \<notin> fst ` set (bl_bindings b)"
    and b': "b' = b\<lparr>bl_bindings := bl_bindings b @
        [(t, \<lparr>sb_message_type = t, sb_serializer_id = sid, sb_manifest = manifest\<rparr>)]\<rparr>"
    using assms(2)
    by (auto simp: builder_bind_def result_simps split: option.splits dest: map_of_SomeD)
  then show ?thesis
    using assms(1) by (auto simp: b' builder_inv_def bindings_ok_def)
qed

lemma builder_bind_all_inv:
  "builder_inv nfc b \<Longrightarrow> builder_bind_all b ds = Inr b' \<Longrightarrow> builder_inv nfc b'"
  by (induction b ds rule: builder_bind_all.induct)
    (auto simp: result_simps dest: builder_bind_inv)

lemma builder_include_inv:
  assumes "builder_inv nfc b" "builder_include b reg = Inr b'" "registry_inv nfc reg"
  shows "builder_inv nfc b'"
proof -
  obtain b1 where b1: "builder_add_all b (rg_registrations reg) = Inr b1"
      "builder_bind_all b1 (map snd (rg_bindings reg)) = Inr b'"
    using assms(2) by (auto simp: builder_include_def result_simps)
  have "builder_inv nfc b1"
    using assms(1,3) by (intro builder_add_all_inv [OF _ b1(1)])
      (simp_all add: registry_inv_def registrations_ok_def)
  then show ?thesis using b1(2) by (rule builder_bind_all_inv)
qed

lemma builder_step_inv:
  assumes "builder_inv nfc b" "builder_op_ok nfc op" "builder_step op b = Inr b'"
  shows "builder_inv nfc b'"
proof (cases op)
  case (Register d ser deser)
  with assms show ?thesis by (auto simp: builder_register_def intro: builder_add_inv)
next
  case (Bind t sid manifest)
  with assms show ?thesis by (auto intro: builder_bind_inv)
next
  case (Include reg)
  with assms show ?thesis by (auto intro: builder_include_inv)
qed

interpretation builder: fallible_machine builder_step "builder_inv nfc" "builder_op_ok nfc" for nfc
  by unfold_locales (rule builder_step_inv)

lemma builder_build_inv: "builder_inv nfc b \<Longrightarrow> registry_inv nfc (builder_build b)"
  by (simp add: builder_inv_def registry_inv_def builder_build_def)

section \<open>Consequences for a registry\<close>

lemma registry_descriptors_valid:
  "registry_inv nfc reg \<Longrightarrow> d \<in> set (registry_descriptors reg) \<Longrightarrow> valid_descriptor nfc d"
  by (auto simp: registry_inv_def registrations_ok_def registry_descriptors_def)

lemma registry_descriptors_ids:
  assumes "registry_inv nfc reg"
  shows "map sd_serializer_id (registry_descriptors reg)
    = map fst (sort_key fst (rg_registrations reg))"
  using assms by (auto simp: registry_descriptors_def registry_inv_def registrations_ok_def)

lemma registry_descriptors_sorted:
  assumes "registry_inv nfc reg"
  shows "sorted_wrt (<) (map sd_serializer_id (registry_descriptors reg))"
proof -
  have "distinct (map fst (sort_key fst (rg_registrations reg)))"
    using assms by (simp add: registry_inv_def registrations_ok_def)
  then show ?thesis
    using assms by (simp add: registry_descriptors_ids strict_sorted_iff)
qed

lemma registry_descriptors_names:
  assumes "registry_inv nfc reg"
  shows "distinct (map sd_name (registry_descriptors reg))"
  using assms distinct_map_sort_key [of "\<lambda>(_, r). sd_name (rn_descriptor r)" fst "rg_registrations reg"]
  by (simp add: registry_descriptors_def registry_inv_def registrations_ok_def case_prod_unfold comp_def
      del: distinct_map_sort_key)

lemma registry_lookup:
  assumes "registry_inv nfc reg"
  shows "map_of (rg_registrations reg) sid = Some r \<longleftrightarrow> (sid, r) \<in> set (rg_registrations reg)"
  using assms by (auto simp: registry_inv_def registrations_ok_def)

lemma registry_binding_resolves:
  assumes "registry_inv nfc reg" "binding_for reg t = Inr b"
  obtains r where "map_of (rg_registrations reg) (sb_serializer_id b) = Some r"
    and "sb_manifest b |\<in>| sd_writable_manifests (rn_descriptor r)"
    and "sd_serializer_id (rn_descriptor r) = sb_serializer_id b"
    and "valid_descriptor nfc (rn_descriptor r)"
proof -
  have "(t, b) \<in> set (rg_bindings reg)"
    using assms(2) by (auto simp: binding_for_def split: option.splits dest: map_of_SomeD)
  then obtain r where r: "(sb_serializer_id b, r) \<in> set (rg_registrations reg)"
      "sb_manifest b |\<in>| sd_writable_manifests (rn_descriptor r)"
    using assms(1) by (auto simp: registry_inv_def bindings_ok_def)
  moreover have "sd_serializer_id (rn_descriptor r) = sb_serializer_id b"
      "valid_descriptor nfc (rn_descriptor r)"
    using r(1) assms(1) by (auto simp: registry_inv_def registrations_ok_def)
  ultimately show ?thesis
    using that registry_lookup [OF assms(1)] by blast
qed

section \<open>Properties\<close>

text \<open>
  C18. Whatever sequence of \<^verbatim>\<open>register\<close>, \<^verbatim>\<open>bind\<close> and \<^verbatim>\<open>include\<close> calls an application makes on a fresh
  \<^verbatim>\<open>SerializerRegistryBuilder\<close> with validated descriptors, if none of them raises then the registry
  that \<^verbatim>\<open>build\<close> returns is sound: identities and names are unique, every descriptor is registered
  under its own identity, every message type has one binding, and every binding names a registered
  serializer that declares its manifest writable.
\<close>

theorem registry_builder_sound:
  assumes "list_all (builder_op_ok nfc) ops" "run_ops builder_step ops builder_new = Inr b"
  shows "registry_inv nfc (builder_build b)"
  using builder.run_invariant [OF builder_new_inv assms] by (rule builder_build_inv)

definition sample_descriptor :: serializer_descriptor where
  "sample_descriptor = \<lparr>sd_serializer_id = 1, sd_name = str ''json'', sd_protocol_major = 1,
     sd_protocol_minor = 2, sd_readable_manifests = {|str ''order/1''|},
     sd_writable_manifests = {|str ''order/1''|}\<rparr>"

definition sample_ops :: "(bool, bool) builder_op list" where
  "sample_ops = [Register sample_descriptor (\<lambda>_ _ _. SerializeBytes [1]) (\<lambda>_ _ _. Some True),
     Bind True 1 (str ''order/1'')]"

lemma sample_descriptor_valid: "valid_descriptor isascii sample_descriptor"
proof -
  have "encoded_text isascii (str ''json'') MAX_U16 = Inr (map byte_of (str ''json''))"
    "encoded_text isascii (str ''order/1'') MAX_MANIFEST_BYTES = Inr (map byte_of (str ''order/1''))"
    by code_simp+
  then have "valid_text isascii (str ''json'') MAX_U16"
    "valid_text isascii (str ''order/1'') MAX_MANIFEST_BYTES"
    using encoded_text_Inr_iff by blast+
  then show ?thesis
    by (simp add: valid_descriptor_def sample_descriptor_def fcard.rep_eq)
qed

theorem registry_builder_sound_witness:
  "list_all (builder_op_ok isascii) sample_ops
    \<and> (\<exists>b. run_ops builder_step sample_ops builder_new = Inr b \<and> length (bl_bindings b) = 1
          \<and> registry_inv isascii (builder_build b))"
proof -
  have ok: "list_all (builder_op_ok isascii) sample_ops"
    by (simp add: sample_ops_def sample_descriptor_valid)
  obtain b where b: "run_ops builder_step sample_ops builder_new = Inr b" "length (bl_bindings b) = 1"
    by (simp add: sample_ops_def builder_register_def builder_add_def builder_new_def builder_bind_def
        sample_descriptor_def)
  show ?thesis using ok b registry_builder_sound [OF ok b(1)] by blast
qed

end
