(* ===== verification/Wire_Primitives.thy ===== *)
theory Wire_Primitives
  imports Serialization
begin

text \<open>
  The lower half of \<^verbatim>\<open>movie/remoting/wire.py\<close>: constants, enumerations, field validation, and the
  \<^verbatim>\<open>_Writer\<close> and \<^verbatim>\<open>_Reader\<close> classes. A writer call either raises or yields the bytes it appends;
  \<open>w_seq\<close> runs the calls in order. A reader call takes the bytes not yet consumed and either raises
  or returns a value and the remaining bytes. The locales \<open>codec\<close> and \<open>canonical_codec\<close> state what a
  writer and a reader of the same field promise each other.
\<close>

abbreviation (input) MAX_U8 :: int where "MAX_U8 \<equiv> 255"
abbreviation (input) MAX_U64 :: int where "MAX_U64 \<equiv> 18446744073709551615"
abbreviation (input) BOOTSTRAP_MAX_FRAME_BYTES :: int where "BOOTSTRAP_MAX_FRAME_BYTES \<equiv> 1048576"
abbreviation (input) COMMON_HEADER_SIZE :: int where "COMMON_HEADER_SIZE \<equiv> 16"
abbreviation (input) HEADER_AFTER_LENGTH_SIZE :: int where "HEADER_AFTER_LENGTH_SIZE \<equiv> 12"
abbreviation (input) MINIMUM_GOAWAY_FRAME_BYTES :: int where "MINIMUM_GOAWAY_FRAME_BYTES \<equiv> 20"
abbreviation (input) CONTROL_LANE_ID :: int where "CONTROL_LANE_ID \<equiv> 65535"
abbreviation (input) PROTOCOL_MAJOR :: int where "PROTOCOL_MAJOR \<equiv> 1"
abbreviation (input) PROTOCOL_MINOR :: int where "PROTOCOL_MINOR \<equiv> 0"
abbreviation (input) HEADER_VERSION :: int where "HEADER_VERSION \<equiv> 1"
abbreviation (input) PREAMBLE_SIZE :: int where "PREAMBLE_SIZE \<equiv> 23"

definition MAGIC :: bytes where
  "MAGIC = [77, 79, 86, 49]"

section \<open>Enumerations\<close>

datatype stream_kind = CONTROL | DELIVERY_LANE | MULTIPLEXED

datatype association_role = INITIATOR | RESPONDER

datatype frame_type =
    FT_HELLO | FT_HELLO_ACCEPT | FT_GOAWAY | FT_HELLO_REJECT | FT_RESOLVE_REQUEST
  | FT_RESOLVE_RESPONSE | FT_RESOLVE_REJECTED | FT_USER_MESSAGE | FT_RECIPIENT_UNAVAILABLE
  | FT_DESERIALIZATION_REJECTED

datatype reason_code =
    RC_NORMAL_SHUTDOWN | RC_INCOMPATIBLE_VERSION | RC_SYSTEM_NAME_MISMATCH
  | RC_DUPLICATE_ASSOCIATION | RC_UNSUPPORTED_FRAME | RC_PROTOCOL_VIOLATION
  | RC_FLOW_CONTROL_VIOLATION | RC_ACTOR_NOT_FOUND | RC_ACTOR_STOPPING | RC_MAILBOX_FULL
  | RC_INVALID_PATH | RC_UNKNOWN_SERIALIZER | RC_UNSUPPORTED_MANIFEST | RC_MALFORMED_PAYLOAD

text \<open>
  An integer enumeration: a value per member, and the constructor call \<^verbatim>\<open>Enum(value)\<close>, which raises
  (\<open>None\<close>) on a value of no member.
\<close>

locale int_enum =
  fixes value_of :: "'a \<Rightarrow> int" and of_value :: "int \<Rightarrow> 'a option"
  assumes of_value_value: "of_value (value_of t) = Some t"
    and of_value_Some: "of_value v = Some t \<Longrightarrow> value_of t = v"
begin

lemma of_value_iff: "of_value v = Some t \<longleftrightarrow> v = value_of t"
  using of_value_value of_value_Some by blast

lemma value_inject: "value_of s = value_of t \<longleftrightarrow> s = t"
  by (metis of_value_value option.inject)

end

primrec stream_kind_value :: "stream_kind \<Rightarrow> int" where
  "stream_kind_value CONTROL = 0"
| "stream_kind_value DELIVERY_LANE = 1"
| "stream_kind_value MULTIPLEXED = 2"

definition stream_kind_of :: "int \<Rightarrow> stream_kind option" where
  "stream_kind_of v = (if v = 0 then Some CONTROL else if v = 1 then Some DELIVERY_LANE
     else if v = 2 then Some MULTIPLEXED else None)"

primrec association_role_value :: "association_role \<Rightarrow> int" where
  "association_role_value INITIATOR = 0"
| "association_role_value RESPONDER = 1"

definition association_role_of :: "int \<Rightarrow> association_role option" where
  "association_role_of v = (if v = 0 then Some INITIATOR else if v = 1 then Some RESPONDER else None)"

primrec frame_type_value :: "frame_type \<Rightarrow> int" where
  "frame_type_value FT_HELLO = 1"
| "frame_type_value FT_HELLO_ACCEPT = 2"
| "frame_type_value FT_GOAWAY = 3"
| "frame_type_value FT_HELLO_REJECT = 4"
| "frame_type_value FT_RESOLVE_REQUEST = 16"
| "frame_type_value FT_RESOLVE_RESPONSE = 17"
| "frame_type_value FT_RESOLVE_REJECTED = 18"
| "frame_type_value FT_USER_MESSAGE = 32"
| "frame_type_value FT_RECIPIENT_UNAVAILABLE = 48"
| "frame_type_value FT_DESERIALIZATION_REJECTED = 49"

definition frame_types :: "frame_type list" where
  "frame_types = [FT_HELLO, FT_HELLO_ACCEPT, FT_GOAWAY, FT_HELLO_REJECT, FT_RESOLVE_REQUEST,
     FT_RESOLVE_RESPONSE, FT_RESOLVE_REJECTED, FT_USER_MESSAGE, FT_RECIPIENT_UNAVAILABLE,
     FT_DESERIALIZATION_REJECTED]"

definition frame_type_of :: "int \<Rightarrow> frame_type option" where
  "frame_type_of v = find (\<lambda>t. frame_type_value t = v) frame_types"

primrec reason_code_value :: "reason_code \<Rightarrow> int" where
  "reason_code_value RC_NORMAL_SHUTDOWN = 0"
| "reason_code_value RC_INCOMPATIBLE_VERSION = 1"
| "reason_code_value RC_SYSTEM_NAME_MISMATCH = 2"
| "reason_code_value RC_DUPLICATE_ASSOCIATION = 3"
| "reason_code_value RC_UNSUPPORTED_FRAME = 4"
| "reason_code_value RC_PROTOCOL_VIOLATION = 5"
| "reason_code_value RC_FLOW_CONTROL_VIOLATION = 6"
| "reason_code_value RC_ACTOR_NOT_FOUND = 16"
| "reason_code_value RC_ACTOR_STOPPING = 17"
| "reason_code_value RC_MAILBOX_FULL = 18"
| "reason_code_value RC_INVALID_PATH = 19"
| "reason_code_value RC_UNKNOWN_SERIALIZER = 32"
| "reason_code_value RC_UNSUPPORTED_MANIFEST = 33"
| "reason_code_value RC_MALFORMED_PAYLOAD = 34"

definition reason_codes :: "reason_code list" where
  "reason_codes = [RC_NORMAL_SHUTDOWN, RC_INCOMPATIBLE_VERSION, RC_SYSTEM_NAME_MISMATCH,
     RC_DUPLICATE_ASSOCIATION, RC_UNSUPPORTED_FRAME, RC_PROTOCOL_VIOLATION,
     RC_FLOW_CONTROL_VIOLATION, RC_ACTOR_NOT_FOUND, RC_ACTOR_STOPPING, RC_MAILBOX_FULL,
     RC_INVALID_PATH, RC_UNKNOWN_SERIALIZER, RC_UNSUPPORTED_MANIFEST, RC_MALFORMED_PAYLOAD]"

definition reason_code_of :: "int \<Rightarrow> reason_code option" where
  "reason_code_of v = find (\<lambda>t. reason_code_value t = v) reason_codes"

interpretation stream_kind: int_enum stream_kind_value stream_kind_of
proof
  show "stream_kind_of (stream_kind_value t) = Some t" for t
    by (cases t) (simp_all add: stream_kind_of_def)
  show "stream_kind_of v = Some t \<Longrightarrow> stream_kind_value t = v" for v t
    by (auto simp: stream_kind_of_def split: if_splits)
qed

interpretation association_role: int_enum association_role_value association_role_of
proof
  show "association_role_of (association_role_value t) = Some t" for t
    by (cases t) (simp_all add: association_role_of_def)
  show "association_role_of v = Some t \<Longrightarrow> association_role_value t = v" for v t
    by (auto simp: association_role_of_def split: if_splits)
qed

lemma find_SomeD: "find P xs = Some x \<Longrightarrow> P x"
  by (induction xs) (auto split: if_splits)

interpretation frame_type: int_enum frame_type_value frame_type_of
proof
  show "frame_type_of (frame_type_value t) = Some t" for t
    by (cases t) (simp_all add: frame_type_of_def frame_types_def)
  show "frame_type_of v = Some t \<Longrightarrow> frame_type_value t = v" for v t
    by (auto simp: frame_type_of_def dest: find_SomeD)
qed

interpretation reason_code: int_enum reason_code_value reason_code_of
proof
  show "reason_code_of (reason_code_value t) = Some t" for t
    by (cases t) (simp_all add: reason_code_of_def reason_codes_def)
  show "reason_code_of v = Some t \<Longrightarrow> reason_code_value t = v" for v t
    by (auto simp: reason_code_of_def dest: find_SomeD)
qed

lemma stream_kind_value_bounds [simp]: "0 \<le> stream_kind_value k" "stream_kind_value k \<le> MAX_U8"
  by (cases k; simp)+

lemma association_role_value_bounds [simp]:
  "0 \<le> association_role_value r" "association_role_value r \<le> MAX_U8"
  by (cases r; simp)+

lemma frame_type_value_bounds [simp]: "0 \<le> frame_type_value t" "frame_type_value t \<le> MAX_U8"
  by (cases t; simp)+

lemma reason_code_value_bounds [simp]: "0 \<le> reason_code_value c" "reason_code_value c \<le> MAX_U16"
  by (cases c; simp)+

text \<open>Frame types are integers in the program and compare as such.\<close>

instantiation frame_type :: linorder
begin

definition less_eq_frame_type :: "frame_type \<Rightarrow> frame_type \<Rightarrow> bool" where
  "less_eq_frame_type a b \<longleftrightarrow> frame_type_value a \<le> frame_type_value b"

definition less_frame_type :: "frame_type \<Rightarrow> frame_type \<Rightarrow> bool" where
  "less_frame_type a b \<longleftrightarrow> frame_type_value a < frame_type_value b"

instance
  by standard
    (auto simp: less_eq_frame_type_def less_frame_type_def frame_type.value_inject
      dest: antisym simp flip: frame_type.value_inject)

end

section \<open>Field validation\<close>

definition uint_field :: "int \<Rightarrow> int \<Rightarrow> exn \<Rightarrow> int \<Rightarrow> int result" where
  "uint_field value maximum err minimum =
     (if minimum \<le> value \<and> value \<le> maximum then Inr value else Inl err)"

definition uuid_nonzero :: "uuid \<Rightarrow> exn \<Rightarrow> uuid result" where
  "uuid_nonzero u err = (if u = 0 then Inl err else Inr u)"

definition text_bytes :: "normalized \<Rightarrow> pystr \<Rightarrow> int \<Rightarrow> exn \<Rightarrow> bool \<Rightarrow> bytes result" where
  "text_bytes nfc value maximum err nonempty =
     rbind (guard (nfc value) err) (\<lambda>_.
       case utf8_encode value of
         None \<Rightarrow> Inl err
       | Some encoded \<Rightarrow>
           rbind (guard (\<not> (nonempty \<and> encoded = [])) err) (\<lambda>_.
           rbind (guard (int (length encoded) \<le> maximum) err) (\<lambda>_. Inr encoded)))"

text \<open>The URI-unreserved characters: letters, digits, and the four marks.\<close>

definition unreserved :: "nat \<Rightarrow> bool" where
  "unreserved c \<longleftrightarrow> 97 \<le> c \<and> c \<le> 122 \<or> 65 \<le> c \<and> c \<le> 90 \<or> 48 \<le> c \<and> c \<le> 57
     \<or> c = 46 \<or> c = 95 \<or> c = 126 \<or> c = 45"

definition system_name :: "normalized \<Rightarrow> pystr \<Rightarrow> exn \<Rightarrow> bytes result" where
  "system_name nfc value err =
     rbind (text_bytes nfc value 255 err True) (\<lambda>encoded.
     rbind (guard (list_all unreserved value) err) (\<lambda>_. Inr encoded))"

text \<open>\<^verbatim>\<open>str.split\<close> with a one-character separator.\<close>

fun split_on :: "nat \<Rightarrow> pystr \<Rightarrow> pystr list" where
  "split_on sep [] = [[]]"
| "split_on sep (c # cs) =
     (if c = sep then [] # split_on sep cs
      else (case split_on sep cs of [] \<Rightarrow> [[c]] | s # ss \<Rightarrow> (c # s) # ss))"

abbreviation (input) slash :: nat where "slash \<equiv> 47"

definition path_segment_ok :: "pystr \<Rightarrow> bool" where
  "path_segment_ok segment \<longleftrightarrow>
     (let segment_length = (if isascii segment then int (length segment) else 0)
      in 1 \<le> segment_length \<and> segment_length \<le> 255) \<and> list_all unreserved segment"

definition actor_path :: "normalized \<Rightarrow> pystr \<Rightarrow> exn \<Rightarrow> bytes result" where
  "actor_path nfc value err =
     rbind (text_bytes nfc value MAX_U16 err True) (\<lambda>encoded.
     rbind (guard (take 1 value = [slash] \<and> take 2 value \<noteq> [slash, slash]) err) (\<lambda>_.
     let segments = split_on slash (drop 1 value) in
     rbind (guard (segments \<noteq> [] \<and> list_all (\<lambda>s. s \<noteq> []) segments) err) (\<lambda>_.
     rbind (guard (list_all path_segment_ok segments) err) (\<lambda>_. Inr encoded))))"

lemma uint_field_Inr [simp]: "uint_field v m e l = Inr x \<longleftrightarrow> x = v \<and> l \<le> v \<and> v \<le> m"
  by (auto simp: uint_field_def)

lemma uuid_nonzero_Inr [simp]: "uuid_nonzero u e = Inr v \<longleftrightarrow> v = u \<and> u \<noteq> 0"
  by (auto simp: uuid_nonzero_def)

lemma text_bytes_Inr:
  "text_bytes nfc s m e ne = Inr b \<longleftrightarrow>
     nfc s \<and> utf8_encode s = Some b \<and> (ne \<longrightarrow> b \<noteq> []) \<and> int (length b) \<le> m"
  by (auto simp: text_bytes_def result_simps split: option.splits)

lemma system_name_err: "system_name nfc s e = Inr b \<longleftrightarrow> system_name nfc s e' = Inr b"
  by (simp add: system_name_def result_simps text_bytes_Inr)

lemma actor_path_err: "actor_path nfc s e = Inr b \<longleftrightarrow> actor_path nfc s e' = Inr b"
  by (simp add: actor_path_def result_simps text_bytes_Inr Let_def)

lemma system_nameD: "system_name nfc s e = Inr b \<Longrightarrow> text_bytes nfc s 255 e' True = Inr b"
  by (simp add: system_name_def result_simps text_bytes_Inr)

lemma actor_pathD: "actor_path nfc s e = Inr b \<Longrightarrow> text_bytes nfc s MAX_U16 e' True = Inr b"
  by (auto simp: actor_path_def result_simps text_bytes_Inr Let_def)

section \<open>The writer\<close>

fun w_seq :: "bytes result list \<Rightarrow> bytes result" where
  "w_seq [] = Inr []"
| "w_seq (m # ms) = rbind m (\<lambda>b. rbind (w_seq ms) (\<lambda>bs. Inr (b @ bs)))"

definition w_check :: "bool \<Rightarrow> bytes result" where
  "w_check ok = (if ok then Inr [] else Inl ProtocolValidationError)"

definition w_u8 :: "int \<Rightarrow> bytes result" where
  "w_u8 v = rbind (uint_field v MAX_U8 ProtocolValidationError 0) (\<lambda>v. Inr (be_bytes 1 v))"

definition w_u16 :: "int \<Rightarrow> bytes result" where
  "w_u16 v = rbind (uint_field v MAX_U16 ProtocolValidationError 0) (\<lambda>v. Inr (be_bytes 2 v))"

definition w_u32 :: "int \<Rightarrow> bytes result" where
  "w_u32 v = rbind (uint_field v MAX_U32 ProtocolValidationError 0) (\<lambda>v. Inr (be_bytes 4 v))"

definition w_u64 :: "int \<Rightarrow> bytes result" where
  "w_u64 v = rbind (uint_field v MAX_U64 ProtocolValidationError 0) (\<lambda>v. Inr (be_bytes 8 v))"

definition w_uuid :: "uuid \<Rightarrow> bytes result" where
  "w_uuid u = rbind (uuid_nonzero u ProtocolValidationError) (\<lambda>u. Inr (uuid_bytes u))"

definition w_raw :: "bytes \<Rightarrow> bytes result" where
  "w_raw b = Inr b"

definition w_counted :: "bytes result \<Rightarrow> bytes result" where
  "w_counted m = rbind m (\<lambda>encoded. w_seq [w_u16 (int (length encoded)), w_raw encoded])"

definition w_string16 :: "normalized \<Rightarrow> int \<Rightarrow> bool \<Rightarrow> pystr \<Rightarrow> bytes result" where
  "w_string16 nfc maximum nonempty value =
     w_counted (text_bytes nfc value (min maximum MAX_U16) ProtocolValidationError nonempty)"

section \<open>The reader\<close>

type_synonym 'a reader = "bytes \<Rightarrow> ('a \<times> bytes) result"

definition r_bind :: "'a reader \<Rightarrow> ('a \<Rightarrow> 'b reader) \<Rightarrow> 'b reader" where
  "r_bind m f bs = rbind (m bs) (\<lambda>(x, rest). f x rest)"

definition r_return :: "'a \<Rightarrow> 'a reader" where
  "r_return x bs = Inr (x, bs)"

definition r_check :: "bool \<Rightarrow> unit reader" where
  "r_check ok bs = (if ok then Inr ((), bs) else Inl MalformedFrameError)"

definition r_lift :: "'a result \<Rightarrow> 'a reader" where
  "r_lift m bs = rbind m (\<lambda>x. Inr (x, bs))"

definition r_remaining :: "int reader" where
  "r_remaining bs = Inr (int (length bs), bs)"

definition r_take :: "int \<Rightarrow> bytes reader" where
  "r_take n bs = (if int (length bs) < n then Inl MalformedFrameError
     else Inr (take (nat n) bs, drop (nat n) bs))"

definition r_u8 :: "int reader" where
  "r_u8 = r_bind (r_take 1) (\<lambda>b. r_return (be_int b))"

definition r_u16 :: "int reader" where
  "r_u16 = r_bind (r_take 2) (\<lambda>b. r_return (be_int b))"

definition r_u32 :: "int reader" where
  "r_u32 = r_bind (r_take 4) (\<lambda>b. r_return (be_int b))"

definition r_u64 :: "int reader" where
  "r_u64 = r_bind (r_take 8) (\<lambda>b. r_return (be_int b))"

definition r_uuid :: "uuid reader" where
  "r_uuid = r_bind (r_take 16) (\<lambda>b. r_lift (uuid_nonzero (uuid_of_bytes b) MalformedFrameError))"

definition r_raw :: "int \<Rightarrow> bytes reader" where
  "r_raw n = r_take n"

definition r_text :: "normalized \<Rightarrow> int \<Rightarrow> bool \<Rightarrow> bytes \<Rightarrow> pystr reader" where
  "r_text nfc maximum nonempty encoded =
     (case utf8_decode encoded of
        None \<Rightarrow> r_lift (Inl MalformedFrameError)
      | Some value \<Rightarrow>
          r_bind (r_lift (text_bytes nfc value maximum MalformedFrameError nonempty))
            (\<lambda>_. r_return value))"

definition r_string16 :: "normalized \<Rightarrow> int \<Rightarrow> bool \<Rightarrow> pystr reader" where
  "r_string16 nfc maximum nonempty =
     r_bind r_u16 (\<lambda>len.
     r_bind (r_check (len \<le> maximum)) (\<lambda>_.
     r_bind (r_raw len) (r_text nfc maximum nonempty)))"

fun r_many :: "nat \<Rightarrow> 'a reader \<Rightarrow> 'a list reader" where
  "r_many 0 m = r_return []"
| "r_many (Suc n) m = r_bind m (\<lambda>x. r_bind (r_many n m) (\<lambda>xs. r_return (x # xs)))"

definition r_finish :: "unit reader" where
  "r_finish bs = (if bs = [] then Inr ((), bs) else Inl MalformedFrameError)"

section \<open>Rules for writers and readers\<close>

lemma w_seq_Nil_Inr [result_simps]: "w_seq [] = Inr b \<longleftrightarrow> b = []"
  by auto

lemma w_seq_Cons_Inr [result_simps]:
  "w_seq (m # ms) = Inr b \<longleftrightarrow> (\<exists>b1 b2. m = Inr b1 \<and> w_seq ms = Inr b2 \<and> b = b1 @ b2)"
  by (auto simp: rbind_eq_Inr)

declare w_seq.simps [simp del]

lemma w_seq_append_Inr [result_simps]:
  "w_seq (ms @ ns) = Inr b \<longleftrightarrow> (\<exists>b1 b2. w_seq ms = Inr b1 \<and> w_seq ns = Inr b2 \<and> b = b1 @ b2)"
  by (induction ms arbitrary: b) (auto simp: result_simps)

lemma w_check_Inr [simp]: "w_check ok = Inr b \<longleftrightarrow> ok \<and> b = []"
  by (auto simp: w_check_def)

lemma w_raw_Inr [simp]: "w_raw x = Inr b \<longleftrightarrow> b = x"
  by (auto simp: w_raw_def)

lemma r_return_Inr [simp]: "r_return x bs = Inr (y, rest) \<longleftrightarrow> y = x \<and> rest = bs"
  by (auto simp: r_return_def)

lemma r_bind_Inr [codec_can]:
  "r_bind m f bs = Inr (y, rest) \<longleftrightarrow> (\<exists>x mid. m bs = Inr (x, mid) \<and> f x mid = Inr (y, rest))"
  by (auto simp: r_bind_def rbind_eq_Inr)

lemma r_bind_run [codec_rt]: "r_bind m f bs = rbind (m bs) (\<lambda>(x, mid). f x mid)"
  by (simp add: r_bind_def)

lemma r_run [codec_rt]:
  "r_return x bs = Inr (x, bs)" "r_lift (Inr x) bs = Inr (x, bs)" "r_check True bs = Inr ((), bs)"
  "r_remaining bs = Inr (int (length bs), bs)" "r_finish [] = Inr ((), [])"
  by (simp_all add: r_return_def r_lift_def r_check_def r_remaining_def r_finish_def)

lemma r_check_Inr [simp]: "r_check ok bs = Inr (u, rest) \<longleftrightarrow> ok \<and> rest = bs"
  by (auto simp: r_check_def)

lemma r_lift_Inr [simp]: "r_lift m bs = Inr (x, rest) \<longleftrightarrow> m = Inr x \<and> rest = bs"
  by (auto simp: r_lift_def rbind_eq_Inr)

lemma r_remaining_Inr [simp]:
  "r_remaining bs = Inr (n, rest) \<longleftrightarrow> n = int (length bs) \<and> rest = bs"
  by (auto simp: r_remaining_def)

lemma r_finish_Inr [simp]: "r_finish bs = Inr (u, rest) \<longleftrightarrow> bs = [] \<and> rest = []"
  by (auto simp: r_finish_def)

lemma r_take_Inr:
  assumes "0 \<le> n"
  shows "r_take n bs = Inr (b, rest) \<longleftrightarrow> bs = b @ rest \<and> int (length b) = n"
proof
  assume "r_take n bs = Inr (b, rest)"
  with assms show "bs = b @ rest \<and> int (length b) = n"
    by (auto simp: r_take_def split: if_splits)
next
  assume "bs = b @ rest \<and> int (length b) = n"
  then show "r_take n bs = Inr (b, rest)"
    by (auto simp: r_take_def)
qed

section \<open>Fields as codecs\<close>

text \<open>
  What a writer and a reader of the same field promise: reading what was written gives the value
  back and leaves the rest of the input alone. A canonical codec accepts nothing else: whatever the
  reader accepts is what the writer produces. The predicate \<open>wf\<close> is what the class of the value
  guarantees by construction.
\<close>

locale codec =
  fixes wf :: "'a \<Rightarrow> bool" and enc :: "'a \<Rightarrow> bytes result" and dec :: "'a reader"
  assumes dec_enc: "wf x \<Longrightarrow> enc x = Inr b \<Longrightarrow> dec (b @ rest) = Inr (x, rest)"
begin

lemma enc_inject: "wf x \<Longrightarrow> wf y \<Longrightarrow> enc x = Inr b \<Longrightarrow> enc y = Inr b \<Longrightarrow> x = y"
  using dec_enc [of x b "[]"] dec_enc [of y b "[]"] by simp

lemma enc_prefix_free:
  "wf x \<Longrightarrow> wf y \<Longrightarrow> enc x = Inr b \<Longrightarrow> enc y = Inr b' \<Longrightarrow> b @ r = b' @ r' \<Longrightarrow> x = y \<and> r = r'"
  using dec_enc [of x b r] dec_enc [of y b' r'] by simp

lemma many_dec_enc:
  "list_all wf xs \<Longrightarrow> w_seq (map enc xs) = Inr b
     \<Longrightarrow> r_many (length xs) dec (b @ rest) = Inr (xs, rest)"
  by (induction xs arbitrary: b) (auto simp: result_simps codec_rt dec_enc)

end

locale canonical_codec = codec +
  assumes enc_dec: "dec bs = Inr (x, rest) \<Longrightarrow> wf x \<and> (\<exists>b. enc x = Inr b \<and> bs = b @ rest)"
begin

lemma dec_iff: "dec bs = Inr (x, rest) \<longleftrightarrow> wf x \<and> (\<exists>b. enc x = Inr b \<and> bs = b @ rest)"
  using dec_enc enc_dec by blast

lemma many_dec_iff:
  "r_many n dec bs = Inr (xs, rest) \<longleftrightarrow>
     length xs = n \<and> list_all wf xs \<and> (\<exists>b. w_seq (map enc xs) = Inr b \<and> bs = b @ rest)"
proof (induction n arbitrary: bs xs)
  case 0
  show ?case by (auto simp: result_simps)
next
  case (Suc n)
  show ?case by (cases xs) (auto simp: result_simps codec_can dec_iff Suc.IH)
qed

end

abbreviation (input) always :: "'a \<Rightarrow> bool" where "always \<equiv> \<lambda>_. True"

text \<open>The unsigned integers of \<open>n\<close> bytes, all at once.\<close>

lemma unsigned_canonical:
  assumes "(256 :: int) ^ n = maximum + 1"
  shows "canonical_codec always
    (\<lambda>v. rbind (uint_field v maximum ProtocolValidationError 0) (\<lambda>v. Inr (be_bytes n v)))
    (r_bind (r_take (int n)) (\<lambda>b. r_return (be_int b)))"
proof
  fix v b rest
  assume "rbind (uint_field v maximum ProtocolValidationError 0) (\<lambda>v. Inr (be_bytes n v)) = Inr b"
  then have "0 \<le> v" "v < 256 ^ n" "b = be_bytes n v"
    using assms by (auto simp: result_simps)
  then show "r_bind (r_take (int n)) (\<lambda>b. r_return (be_int b)) (b @ rest) = Inr (v, rest)"
    by (simp add: result_simps codec_can r_take_Inr be_int_be_bytes)
next
  fix bs v rest
  assume "r_bind (r_take (int n)) (\<lambda>b. r_return (be_int b)) bs = Inr (v, rest)"
  then obtain b where "bs = b @ rest" "length b = n" "v = be_int b"
    by (auto simp: result_simps codec_can r_take_Inr)
  with be_int_bounds [of b] be_bytes_be_int [of b] assms
  show "True \<and> (\<exists>b. rbind (uint_field v maximum ProtocolValidationError 0) (\<lambda>v. Inr (be_bytes n v)) = Inr b
    \<and> bs = b @ rest)"
    by (auto simp: result_simps)
qed

interpretation u8: canonical_codec always w_u8 r_u8
  using unsigned_canonical [of 1 MAX_U8] by (simp add: w_u8_def [abs_def] r_u8_def)

interpretation u16: canonical_codec always w_u16 r_u16
  using unsigned_canonical [of 2 MAX_U16] by (simp add: w_u16_def [abs_def] r_u16_def)

interpretation u32: canonical_codec always w_u32 r_u32
  using unsigned_canonical [of 4 MAX_U32] by (simp add: w_u32_def [abs_def] r_u32_def)

interpretation u64: canonical_codec always w_u64 r_u64
  using unsigned_canonical [of 8 MAX_U64] by (simp add: w_u64_def [abs_def] r_u64_def)

interpretation uuid: canonical_codec always w_uuid r_uuid
proof
  show "r_uuid (b @ rest) = Inr (u, rest)" if "w_uuid u = Inr b" for u b rest
    using that by (auto simp: w_uuid_def r_uuid_def result_simps codec_can r_take_Inr)
  show "True \<and> (\<exists>b. w_uuid u = Inr b \<and> bs = b @ rest)" if "r_uuid bs = Inr (u, rest)" for bs u rest
    using that
    by (auto simp: w_uuid_def r_uuid_def result_simps codec_can r_take_Inr uuid_bytes_uuid_of_bytes)
qed

lemma w_u8_Inr: "w_u8 v = Inr b \<longleftrightarrow> 0 \<le> v \<and> v \<le> MAX_U8 \<and> b = be_bytes 1 v"
  by (auto simp: w_u8_def result_simps)

lemma w_u16_Inr: "w_u16 v = Inr b \<longleftrightarrow> 0 \<le> v \<and> v \<le> MAX_U16 \<and> b = be_bytes 2 v"
  by (auto simp: w_u16_def result_simps)

lemma w_u32_Inr: "w_u32 v = Inr b \<longleftrightarrow> 0 \<le> v \<and> v \<le> MAX_U32 \<and> b = be_bytes 4 v"
  by (auto simp: w_u32_def result_simps)

lemma w_u64_Inr: "w_u64 v = Inr b \<longleftrightarrow> 0 \<le> v \<and> v \<le> MAX_U64 \<and> b = be_bytes 8 v"
  by (auto simp: w_u64_def result_simps)

lemma w_uuid_Inr: "w_uuid u = Inr b \<longleftrightarrow> u \<noteq> 0 \<and> b = uuid_bytes u"
  by (auto simp: w_uuid_def result_simps)

lemma w_counted_Inr:
  "w_counted m = Inr b \<longleftrightarrow> (\<exists>e. m = Inr e \<and> int (length e) \<le> MAX_U16
     \<and> b = be_bytes 2 (int (length e)) @ e)"
  by (auto simp: w_counted_def result_simps w_u16_Inr)

lemma r_text_Inr:
  "r_text nfc maximum nonempty encoded bs = Inr (s, rest) \<longleftrightarrow>
     rest = bs \<and> text_bytes nfc s maximum MalformedFrameError nonempty = Inr encoded"
proof (cases "utf8_decode encoded")
  case None
  then have "utf8_encode s \<noteq> Some encoded" using utf8_decode_encode by force
  with None show ?thesis by (simp add: r_text_def text_bytes_Inr)
next
  case (Some t)
  then have "utf8_encode s = Some encoded \<longleftrightarrow> s = t"
    using utf8_encode_decode utf8_encode_inj by blast
  with Some show ?thesis
    by (auto simp: r_text_def codec_can text_bytes_Inr utf8_encode_decode)
qed

lemma text_bytes_err: "text_bytes nfc s m e ne = Inr b \<longleftrightarrow> text_bytes nfc s m e' ne = Inr b"
  by (simp add: text_bytes_Inr)

interpretation string16: canonical_codec always "w_string16 nfc maximum nonempty"
    "r_string16 nfc maximum nonempty" for nfc maximum nonempty
proof
  fix s b rest
  assume "w_string16 nfc maximum nonempty s = Inr b"
  then obtain e where e: "text_bytes nfc s (min maximum MAX_U16) ProtocolValidationError nonempty = Inr e"
      "b = be_bytes 2 (int (length e)) @ e" "int (length e) \<le> MAX_U16"
    by (auto simp: w_string16_def w_counted_Inr)
  then have "r_u16 (b @ rest) = Inr (int (length e), e @ rest)"
    using u16.dec_enc [of "int (length e)"] by (simp add: w_u16_Inr)
  moreover have "int (length e) \<le> maximum"
      "text_bytes nfc s maximum MalformedFrameError nonempty = Inr e"
    using e(1) by (auto simp: text_bytes_Inr)
  ultimately show "r_string16 nfc maximum nonempty (b @ rest) = Inr (s, rest)"
    by (simp add: r_string16_def codec_can r_raw_def r_take_Inr r_text_Inr)
next
  fix bs s rest
  assume "r_string16 nfc maximum nonempty bs = Inr (s, rest)"
  then obtain n e mid where n: "r_u16 bs = Inr (n, mid)" "n \<le> maximum"
      "r_raw n mid = Inr (e, rest)" "text_bytes nfc s maximum MalformedFrameError nonempty = Inr e"
    by (auto simp: r_string16_def codec_can r_text_Inr)
  from n(1) have len: "0 \<le> n" "n \<le> MAX_U16" "bs = be_bytes 2 n @ mid"
    by (auto simp: u16.dec_iff w_u16_Inr)
  with n(3) have "mid = e @ rest" "n = int (length e)"
    by (auto simp: r_raw_def r_take_Inr)
  with n(2,4) len show "True \<and> (\<exists>b. w_string16 nfc maximum nonempty s = Inr b \<and> bs = b @ rest)"
    by (auto simp: w_string16_def w_counted_Inr text_bytes_Inr)
qed

text \<open>Explicit forms, for rewriting both sides of a frame body to the same formula.\<close>

lemma r_u8_Inr: "r_u8 bs = Inr (v, rest) \<longleftrightarrow> 0 \<le> v \<and> v \<le> MAX_U8 \<and> bs = be_bytes 1 v @ rest"
  by (auto simp: u8.dec_iff w_u8_Inr)

lemma r_u16_Inr: "r_u16 bs = Inr (v, rest) \<longleftrightarrow> 0 \<le> v \<and> v \<le> MAX_U16 \<and> bs = be_bytes 2 v @ rest"
  by (auto simp: u16.dec_iff w_u16_Inr)

lemma r_u32_Inr: "r_u32 bs = Inr (v, rest) \<longleftrightarrow> 0 \<le> v \<and> v \<le> MAX_U32 \<and> bs = be_bytes 4 v @ rest"
  by (auto simp: u32.dec_iff w_u32_Inr)

lemma r_u64_Inr: "r_u64 bs = Inr (v, rest) \<longleftrightarrow> 0 \<le> v \<and> v \<le> MAX_U64 \<and> bs = be_bytes 8 v @ rest"
  by (auto simp: u64.dec_iff w_u64_Inr)

lemma r_uuid_Inr: "r_uuid bs = Inr (u, rest) \<longleftrightarrow> u \<noteq> 0 \<and> bs = uuid_bytes u @ rest"
  by (auto simp: uuid.dec_iff w_uuid_Inr)

lemma r_string16_Inr:
  "r_string16 nfc maximum nonempty bs = Inr (s, rest) \<longleftrightarrow>
     (\<exists>b. w_string16 nfc maximum nonempty s = Inr b \<and> bs = b @ rest)"
  by (auto simp: string16.dec_iff)

lemmas w_explicit = w_u8_Inr w_u16_Inr w_u32_Inr w_u64_Inr w_uuid_Inr
lemmas r_explicit [codec_can] = r_u8_Inr r_u16_Inr r_u32_Inr r_u64_Inr r_uuid_Inr r_string16_Inr

text \<open>Reading forward over bytes that a writer produced.\<close>

lemma r_unsigned_run [codec_rt]:
  "0 \<le> v \<Longrightarrow> v \<le> MAX_U8 \<Longrightarrow> r_u8 (be_bytes 1 v @ rest) = Inr (v, rest)"
  "0 \<le> v \<Longrightarrow> v \<le> MAX_U16 \<Longrightarrow> r_u16 (be_bytes 2 v @ rest) = Inr (v, rest)"
  "0 \<le> v \<Longrightarrow> v \<le> MAX_U32 \<Longrightarrow> r_u32 (be_bytes 4 v @ rest) = Inr (v, rest)"
  "0 \<le> v \<Longrightarrow> v \<le> MAX_U64 \<Longrightarrow> r_u64 (be_bytes 8 v @ rest) = Inr (v, rest)"
  by (simp_all add: r_explicit)

lemma r_uuid_run [codec_rt]: "u \<noteq> 0 \<Longrightarrow> r_uuid (uuid_bytes u @ rest) = Inr (u, rest)"
  by (simp add: r_uuid_Inr)

lemma r_string16_run [codec_rt]:
  "w_string16 nfc maximum nonempty s = Inr b \<Longrightarrow>
     r_string16 nfc maximum nonempty (b @ rest) = Inr (s, rest)"
  by (rule string16.dec_enc) simp_all

lemma r_raw_run [codec_rt]: "r_raw (int (length b)) (b @ rest) = Inr (b, rest)"
  by (simp add: r_raw_def r_take_def)

end
