(* ===== verification/Negotiation.thy ===== *)
theory Negotiation
  imports Serialization
begin

text \<open>
  Model of the negotiation functions of \<^verbatim>\<open>movie/remoting/serialization.py\<close> and the proof that the two
  peers of an association derive the same routes and serializer versions, whichever of them runs the
  code.
\<close>

section \<open>Negotiation\<close>

record negotiated_serializer =
  ns_serializer_id :: int
  ns_protocol_minor :: int

record serializer_negotiation =
  sn_routes :: "serializer_route list"
  sn_serializers :: "negotiated_serializer list"

fun protocol_minor_in :: "negotiated_serializer list \<Rightarrow> int \<Rightarrow> int result" where
  "protocol_minor_in [] sid = Inl UnknownSerializerError"
| "protocol_minor_in (n # ns) sid =
     (if ns_serializer_id n = sid then Inr (ns_protocol_minor n) else protocol_minor_in ns sid)"

definition protocol_minor_for :: "serializer_negotiation \<Rightarrow> int \<Rightarrow> int result" where
  "protocol_minor_for n sid = protocol_minor_in (sn_serializers n) sid"

fun descriptor_maps_from ::
  "(int \<times> serializer_descriptor) list \<Rightarrow> (pystr \<times> int) list \<Rightarrow> serializer_descriptor list
     \<Rightarrow> ((int \<times> serializer_descriptor) list \<times> (pystr \<times> int) list) result"
where
  "descriptor_maps_from by_id by_name [] = Inr (by_id, by_name)"
| "descriptor_maps_from by_id by_name (d # ds) =
     rbind (guard (sd_serializer_id d \<notin> fst ` set by_id) SerializerNegotiationError) (\<lambda>_.
     rbind (guard (sd_name d \<notin> fst ` set by_name) SerializerNegotiationError) (\<lambda>_.
       descriptor_maps_from (by_id @ [(sd_serializer_id d, d)])
         (by_name @ [(sd_name d, sd_serializer_id d)]) ds))"

definition descriptor_maps ::
  "serializer_descriptor list
     \<Rightarrow> ((int \<times> serializer_descriptor) list \<times> (pystr \<times> int) list) result"
where
  "descriptor_maps ds = descriptor_maps_from [] [] ds"

text \<open>
  The routes of one serializer identity in one direction: none when nothing can be sent. The set of
  sendable manifests is listed in some order; the constructor of the route sorts it.
\<close>

definition direction_routes ::
  "normalized \<Rightarrow> uuid \<Rightarrow> int \<Rightarrow> serializer_descriptor \<Rightarrow> serializer_descriptor
     \<Rightarrow> serializer_route list result"
where
  "direction_routes nfc origin sid sender receiver =
     (let sendable = sd_writable_manifests sender |\<inter>| sd_readable_manifests receiver in
      if sendable = {||} then Inr []
      else rbind (serializer_route_init nfc origin sid (sorted_list_of_fset sendable)) (\<lambda>r. Inr [r]))"

definition negotiate_id ::
  "normalized \<Rightarrow> uuid \<Rightarrow> (int \<times> serializer_descriptor) list \<Rightarrow> uuid
     \<Rightarrow> (int \<times> serializer_descriptor) list \<Rightarrow> int
     \<Rightarrow> (serializer_route list \<times> negotiated_serializer) result"
where
  "negotiate_id nfc first_uid first_by_id second_uid second_by_id sid =
     (case (map_of first_by_id sid, map_of second_by_id sid) of
        (Some first, Some second) \<Rightarrow>
          rbind (guard (sd_name first = sd_name second) SerializerNegotiationError) (\<lambda>_.
          rbind (guard (sd_protocol_major first = sd_protocol_major second)
                   SerializerNegotiationError) (\<lambda>_.
          rbind (direction_routes nfc first_uid sid first second) (\<lambda>rs1.
          rbind (direction_routes nfc second_uid sid second first) (\<lambda>rs2.
            Inr (rs1 @ rs2, \<lparr>ns_serializer_id = sid,
              ns_protocol_minor = min (sd_protocol_minor first) (sd_protocol_minor second)\<rparr>)))))
      | _ \<Rightarrow> Inl KeyError)"

definition route_key :: "serializer_route \<Rightarrow> bytes \<times> int \<times> bytes list" where
  "route_key r =
     (uuid_bytes (sr_origin_incarnation_uid r), sr_serializer_id r, map utf8_key (sr_manifests r))"

definition negotiate_serializers ::
  "normalized \<Rightarrow> uuid \<Rightarrow> serializer_descriptor list \<Rightarrow> uuid \<Rightarrow> serializer_descriptor list
     \<Rightarrow> serializer_negotiation result"
where
  "negotiate_serializers nfc first_uid first_descriptors second_uid second_descriptors =
     rbind (guard (first_uid \<noteq> 0) SerializerNegotiationError) (\<lambda>_.
     rbind (guard (second_uid \<noteq> 0) SerializerNegotiationError) (\<lambda>_.
     rbind (guard (first_uid \<noteq> second_uid) SerializerNegotiationError) (\<lambda>_.
     rbind (descriptor_maps first_descriptors) (\<lambda>(first_by_id, first_by_name).
     rbind (descriptor_maps second_descriptors) (\<lambda>(second_by_id, second_by_name).
     rbind (guard (list_all (\<lambda>(name, sid).
              case map_of second_by_name name of None \<Rightarrow> True | Some sid' \<Rightarrow> sid = sid') first_by_name)
              SerializerNegotiationError) (\<lambda>_.
     let ids = sort [sid \<leftarrow> map fst first_by_id. sid \<in> fst ` set second_by_id] in
     rbind (map_result (negotiate_id nfc first_uid first_by_id second_uid second_by_id) ids) (\<lambda>parts.
       Inr \<lparr>sn_routes = sort_key route_key (concat (map fst parts)),
            sn_serializers = map snd parts\<rparr>)))))))"

definition negotiate_serializer_routes ::
  "normalized \<Rightarrow> uuid \<Rightarrow> serializer_descriptor list \<Rightarrow> uuid \<Rightarrow> serializer_descriptor list
     \<Rightarrow> serializer_route list result"
where
  "negotiate_serializer_routes nfc first_uid first_descriptors second_uid second_descriptors =
     rbind (negotiate_serializers nfc first_uid first_descriptors second_uid second_descriptors)
       (\<lambda>n. Inr (sn_routes n))"

section \<open>The descriptor tables\<close>

lemma descriptor_maps_from_Inr:
  "descriptor_maps_from by_id by_name ds = Inr (i, n) \<longleftrightarrow>
     distinct (map sd_serializer_id ds) \<and> distinct (map sd_name ds)
     \<and> fst ` set by_id \<inter> sd_serializer_id ` set ds = {}
     \<and> fst ` set by_name \<inter> sd_name ` set ds = {}
     \<and> i = by_id @ map (\<lambda>d. (sd_serializer_id d, d)) ds
     \<and> n = by_name @ map (\<lambda>d. (sd_name d, sd_serializer_id d)) ds"
  by (induction ds arbitrary: by_id by_name) (auto simp: result_simps)

lemma descriptor_maps_Inr:
  "descriptor_maps ds = Inr (i, n) \<longleftrightarrow>
     distinct (map sd_serializer_id ds) \<and> distinct (map sd_name ds)
     \<and> i = map (\<lambda>d. (sd_serializer_id d, d)) ds
     \<and> n = map (\<lambda>d. (sd_name d, sd_serializer_id d)) ds"
  by (simp add: descriptor_maps_def descriptor_maps_from_Inr)

lemma descriptor_maps_from_Inl:
  "descriptor_maps_from by_id by_name ds = Inl e \<Longrightarrow> e = SerializerNegotiationError"
  by (induction ds arbitrary: by_id by_name) (auto simp: result_simps)

lemma descriptor_maps_Inl: "descriptor_maps ds = Inl e \<Longrightarrow> e = SerializerNegotiationError"
  unfolding descriptor_maps_def by (rule descriptor_maps_from_Inl)

lemma map_of_by_id:
  "distinct (map sd_serializer_id ds) \<Longrightarrow>
     map_of (map (\<lambda>d. (sd_serializer_id d, d)) ds) sid = Some d
       \<longleftrightarrow> d \<in> set ds \<and> sd_serializer_id d = sid"
  by (subst map_of_eq_Some_iff) (auto simp: comp_def)

lemma map_of_by_name:
  "distinct (map sd_name ds) \<Longrightarrow>
     map_of (map (\<lambda>d. (sd_name d, sd_serializer_id d)) ds) name = Some sid
       \<longleftrightarrow> (\<exists>d \<in> set ds. sd_name d = name \<and> sd_serializer_id d = sid)"
  by (subst map_of_eq_Some_iff) (auto simp: comp_def)

section \<open>Routes\<close>

lemma route_key_inj:
  assumes "valid_route nfc r" "valid_route nfc r'" "route_key r = route_key r'"
  shows "r = r'"
proof -
  have "inj_on utf8_key (set (sr_manifests r) \<union> set (sr_manifests r'))"
    using assms(1,2)
    by (intro inj_on_utf8_key [where nfc = nfc and n = MAX_MANIFEST_BYTES])
      (auto simp: valid_route_def)
  then have "sr_manifests r = sr_manifests r'"
    using assms(3) by (auto simp: route_key_def inj_on_map_eq_map)
  then show ?thesis using assms(3) by (simp add: route_key_def)
qed

lemma sendable_valid:
  assumes "valid_descriptor nfc a" "valid_descriptor nfc b"
    and "s = sd_writable_manifests a |\<inter>| sd_readable_manifests b"
  shows "int (fcard s) \<le> MAX_U16" "\<And>m. m |\<in>| s \<Longrightarrow> valid_text nfc m MAX_MANIFEST_BYTES"
proof -
  have "fcard s \<le> fcard (sd_writable_manifests a)"
    by (rule fcard_mono) (auto simp: assms(3))
  then show "int (fcard s) \<le> MAX_U16"
    using assms(1) unfolding valid_descriptor_def by linarith
  show "m |\<in>| s \<Longrightarrow> valid_text nfc m MAX_MANIFEST_BYTES" for m
    using assms(1,3) by (auto simp: valid_descriptor_def)
qed

text \<open>
  With well-formed descriptors the route constructor cannot fail: the routes of one direction are the
  one canonical route over the sendable manifests.
\<close>

lemma direction_routes_valid:
  assumes "valid_descriptor nfc sender" "valid_descriptor nfc receiver" "origin \<noteq> 0"
    and "sd_serializer_id sender = sid"
  shows "\<exists>rs. direction_routes nfc origin sid sender receiver = Inr rs \<and> length rs \<le> 1
    \<and> (\<forall>r \<in> set rs. valid_route nfc r \<and> sr_origin_incarnation_uid r = origin
         \<and> sr_serializer_id r = sid
         \<and> set (sr_manifests r)
             = fset (sd_writable_manifests sender |\<inter>| sd_readable_manifests receiver))
    \<and> (sd_writable_manifests sender |\<inter>| sd_readable_manifests receiver \<noteq> {||} \<longrightarrow> rs \<noteq> [])"
proof (cases "sd_writable_manifests sender |\<inter>| sd_readable_manifests receiver = {||}")
  case True
  then show ?thesis by (simp add: direction_routes_def)
next
  case False
  define s where "s = sd_writable_manifests sender |\<inter>| sd_readable_manifests receiver"
  note valid = sendable_valid [OF assms(1,2) s_def]
  let ?r = "\<lparr>sr_origin_incarnation_uid = origin, sr_serializer_id = sid,
              sr_manifests = sort_key utf8_key (sorted_list_of_fset s)\<rparr>"
  have len: "length (sorted_list_of_fset s) = fcard s"
    by (simp add: sorted_list_of_fset.rep_eq fcard.rep_eq)
  have dist: "distinct (sorted_list_of_fset s)"
    by (simp add: sorted_list_of_fset.rep_eq)
  have ne: "sorted_list_of_fset s \<noteq> []"
  proof
    assume "sorted_list_of_fset s = []"
    then have "s = {||}" by (metis fset_of_list_simps(1) sorted_list_of_fset_simps(2))
    with False show False by (simp add: s_def)
  qed
  have "valid_route nfc ?r"
    using assms(1,3,4) len dist ne valid
    by (auto simp: valid_route_def valid_descriptor_def sort_key_eq_Nil_iff)
  then have "direction_routes nfc origin sid sender receiver = Inr [?r]"
    using False dist
    by (simp add: direction_routes_def serializer_route_init_Inr result_simps Let_def flip: s_def)
  with \<open>valid_route nfc ?r\<close> show ?thesis by (simp add: s_def)
qed

text \<open>
  The contribution of one serializer identity that peer \<open>u\<close> describes by \<open>a\<close> and peer \<open>v\<close> by
  \<open>b\<close>: at most one route per direction, over exactly the manifests one side writes and the other
  reads, and the smaller of the two minor versions.
\<close>

definition pair_ok ::
  "normalized \<Rightarrow> uuid \<Rightarrow> serializer_descriptor \<Rightarrow> uuid \<Rightarrow> serializer_descriptor \<Rightarrow> int
     \<Rightarrow> serializer_route list \<times> negotiated_serializer \<Rightarrow> bool"
where
  "pair_ok nfc u a v b sid p \<longleftrightarrow>
     sd_serializer_id a = sid \<and> sd_serializer_id b = sid
     \<and> snd p = \<lparr>ns_serializer_id = sid,
                 ns_protocol_minor = min (sd_protocol_minor a) (sd_protocol_minor b)\<rparr>
     \<and> distinct (map sr_origin_incarnation_uid (fst p))
     \<and> (\<forall>r \<in> set (fst p). valid_route nfc r \<and> sr_serializer_id r = sid
           \<and> (sr_origin_incarnation_uid r = u
               \<and> set (sr_manifests r) = fset (sd_writable_manifests a |\<inter>| sd_readable_manifests b)
             \<or> sr_origin_incarnation_uid r = v
               \<and> set (sr_manifests r) = fset (sd_writable_manifests b |\<inter>| sd_readable_manifests a)))
     \<and> (sd_writable_manifests a |\<inter>| sd_readable_manifests b \<noteq> {||}
          \<longrightarrow> u \<in> sr_origin_incarnation_uid ` set (fst p))"

lemma negotiate_id_valid:
  assumes "valid_descriptor nfc a" "valid_descriptor nfc b" "u \<noteq> 0" "v \<noteq> 0" "u \<noteq> v"
    and "map_of by1 sid = Some a" "sd_serializer_id a = sid"
    and "map_of by2 sid = Some b" "sd_serializer_id b = sid"
    and "negotiate_id nfc u by1 v by2 sid = Inr p"
  shows "pair_ok nfc u a v b sid p"
proof -
  obtain rs1 where rs1: "direction_routes nfc u sid a b = Inr rs1" "length rs1 \<le> 1"
      "\<forall>r \<in> set rs1. valid_route nfc r \<and> sr_origin_incarnation_uid r = u \<and> sr_serializer_id r = sid
         \<and> set (sr_manifests r) = fset (sd_writable_manifests a |\<inter>| sd_readable_manifests b)"
      "sd_writable_manifests a |\<inter>| sd_readable_manifests b \<noteq> {||} \<longrightarrow> rs1 \<noteq> []"
    using direction_routes_valid [OF assms(1,2,3,7)] by blast
  obtain rs2 where rs2: "direction_routes nfc v sid b a = Inr rs2" "length rs2 \<le> 1"
      "\<forall>r \<in> set rs2. valid_route nfc r \<and> sr_origin_incarnation_uid r = v \<and> sr_serializer_id r = sid
         \<and> set (sr_manifests r) = fset (sd_writable_manifests b |\<inter>| sd_readable_manifests a)"
    using direction_routes_valid [OF assms(2,1,4,9)] by blast
  have short: "rs1 = [] \<or> (\<exists>r. rs1 = [r])" "rs2 = [] \<or> (\<exists>r. rs2 = [r])"
    using rs1(2) rs2(2) by (cases rs1; simp; fail | cases rs2; simp)+
  have p: "p = (rs1 @ rs2, \<lparr>ns_serializer_id = sid,
              ns_protocol_minor = min (sd_protocol_minor a) (sd_protocol_minor b)\<rparr>)"
    using assms(6,8,10) rs1(1) rs2(1) by (auto simp: negotiate_id_def result_simps)
  have "distinct (map sr_origin_incarnation_uid (rs1 @ rs2))"
    using short rs1(3) rs2(3) assms(5) by auto
  then show ?thesis
    using rs1(3,4) rs2(3) short assms(7,9) by (auto simp: pair_ok_def p)
qed

lemma negotiate_id_swap:
  assumes "negotiate_id nfc u by1 v by2 sid = Inr p"
  shows "\<exists>p'. negotiate_id nfc v by2 u by1 sid = Inr p' \<and> snd p = snd p'
    \<and> mset (fst p) = mset (fst p')"
  using assms
  by (auto simp: negotiate_id_def result_simps min.commute split: option.splits)

lemma negotiate_id_valid_routes:
  assumes "negotiate_id nfc u by1 v by2 sid = Inr (rs, n)" "r \<in> set rs"
  shows "valid_route nfc r"
  using assms
  by (auto simp: negotiate_id_def direction_routes_def result_simps serializer_route_init_Inr Let_def
      split: option.splits if_splits)

section \<open>Both peers derive the same negotiation\<close>

lemma common_ids_swap:
  assumes "distinct xs" "distinct ys"
  shows "sort [x \<leftarrow> xs. x \<in> set ys] = sort [y \<leftarrow> ys. y \<in> set xs]"
proof (rule sort_key_mset_cong)
  show "mset [x \<leftarrow> xs. x \<in> set ys] = mset [y \<leftarrow> ys. y \<in> set xs]"
    using assms by (subst set_eq_iff_mset_eq_distinct [symmetric]) auto
qed simp

lemma names_agree_swap:
  assumes "distinct (map sd_name A)" "distinct (map sd_name B)"
  shows "list_all (\<lambda>(name, sid). case map_of (map (\<lambda>d. (sd_name d, sd_serializer_id d)) B) name of
             None \<Rightarrow> True | Some sid' \<Rightarrow> sid = sid') (map (\<lambda>d. (sd_name d, sd_serializer_id d)) A)
    \<longleftrightarrow> (\<forall>a \<in> set A. \<forall>b \<in> set B. sd_name a = sd_name b \<longrightarrow> sd_serializer_id a = sd_serializer_id b)"
proof -
  have eq: "(case map_of M x of None \<Rightarrow> True | Some y' \<Rightarrow> y = y') \<longleftrightarrow> (\<forall>y'. map_of M x = Some y' \<longrightarrow> y = y')"
    for M :: "(pystr \<times> int) list" and x y
    by (simp split: option.split)
  show ?thesis
    by (simp add: eq list_all_iff map_of_by_name [OF assms(2)]) metis
qed

lemma negotiate_serializers_Inr:
  "negotiate_serializers nfc u A v B = Inr n \<longleftrightarrow>
     u \<noteq> 0 \<and> v \<noteq> 0 \<and> u \<noteq> v
     \<and> distinct (map sd_serializer_id A) \<and> distinct (map sd_name A)
     \<and> distinct (map sd_serializer_id B) \<and> distinct (map sd_name B)
     \<and> (\<forall>a \<in> set A. \<forall>b \<in> set B. sd_name a = sd_name b \<longrightarrow> sd_serializer_id a = sd_serializer_id b)
     \<and> (\<exists>parts.
          list_all2 (\<lambda>sid p. negotiate_id nfc u (map (\<lambda>d. (sd_serializer_id d, d)) A) v
                       (map (\<lambda>d. (sd_serializer_id d, d)) B) sid = Inr p)
            (sort [sid \<leftarrow> map sd_serializer_id A. sid \<in> set (map sd_serializer_id B)]) parts
          \<and> n = \<lparr>sn_routes = sort_key route_key (concat (map fst parts)),
                 sn_serializers = map snd parts\<rparr>)"
proof -
  have "negotiate_serializers nfc u A v B = Inr n \<longleftrightarrow>
     u \<noteq> 0 \<and> v \<noteq> 0 \<and> u \<noteq> v
     \<and> distinct (map sd_serializer_id A) \<and> distinct (map sd_name A)
     \<and> distinct (map sd_serializer_id B) \<and> distinct (map sd_name B)
     \<and> list_all (\<lambda>(name, sid). case map_of (map (\<lambda>d. (sd_name d, sd_serializer_id d)) B) name of
             None \<Rightarrow> True | Some sid' \<Rightarrow> sid = sid') (map (\<lambda>d. (sd_name d, sd_serializer_id d)) A)
     \<and> (\<exists>parts.
          list_all2 (\<lambda>sid p. negotiate_id nfc u (map (\<lambda>d. (sd_serializer_id d, d)) A) v
                       (map (\<lambda>d. (sd_serializer_id d, d)) B) sid = Inr p)
            (sort [sid \<leftarrow> map sd_serializer_id A. sid \<in> set (map sd_serializer_id B)]) parts
          \<and> n = \<lparr>sn_routes = sort_key route_key (concat (map fst parts)),
                 sn_serializers = map snd parts\<rparr>)"
    by (auto simp: negotiate_serializers_def result_simps descriptor_maps_Inr map_result_Inr Let_def
        comp_def image_image)
  then show ?thesis using names_agree_swap by blast
qed

lemma negotiate_serializers_swap:
  assumes "negotiate_serializers nfc u A v B = Inr n"
  shows "negotiate_serializers nfc v B u A = Inr n"
proof -
  let ?ids = "sort [sid \<leftarrow> map sd_serializer_id A. sid \<in> set (map sd_serializer_id B)]"
  let ?A = "map (\<lambda>d. (sd_serializer_id d, d)) A" and ?B = "map (\<lambda>d. (sd_serializer_id d, d)) B"
  note success = assms [unfolded negotiate_serializers_Inr]
  from success obtain parts where
    parts: "list_all2 (\<lambda>sid p. negotiate_id nfc u ?A v ?B sid = Inr p) ?ids parts"
    and n: "n = \<lparr>sn_routes = sort_key route_key (concat (map fst parts)),
                 sn_serializers = map snd parts\<rparr>"
    by blast
  have "\<exists>parts'. list_all2 (\<lambda>sid p. negotiate_id nfc v ?B u ?A sid = Inr p) ?ids parts'
      \<and> list_all2 (\<lambda>p p'. snd p = snd p' \<and> mset (fst p) = mset (fst p')) parts parts'"
    using parts by (rule list_all2_choose) (rule negotiate_id_swap)
  then obtain parts' where
    parts': "list_all2 (\<lambda>sid p. negotiate_id nfc v ?B u ?A sid = Inr p) ?ids parts'"
    and same: "list_all2 (\<lambda>p p'. snd p = snd p' \<and> mset (fst p) = mset (fst p')) parts parts'"
    by blast
  have snds: "map snd parts = map snd parts'"
    and msets: "mset (concat (map fst parts)) = mset (concat (map fst parts'))"
    using same by (induction rule: list_all2_induct) auto
  have "inj_on route_key (set (concat (map fst parts)))"
  proof (rule inj_onI)
    fix r r' assume rr: "r \<in> set (concat (map fst parts))" "r' \<in> set (concat (map fst parts))"
      and key: "route_key r = route_key r'"
    have "valid_route nfc r" if "r \<in> set (concat (map fst parts))" for r
      using that parts by (fastforce simp: list_all2_conv_all_nth in_set_conv_nth
          dest: negotiate_id_valid_routes)
    with rr key show "r = r'" by (blast intro: route_key_inj)
  qed
  then have "sort_key route_key (concat (map fst parts)) = sort_key route_key (concat (map fst parts'))"
    using msets by (intro sort_key_mset_cong)
  moreover have "?ids = sort [sid \<leftarrow> map sd_serializer_id B. sid \<in> set (map sd_serializer_id A)]"
    using success by (intro common_ids_swap) auto
  ultimately show ?thesis
    unfolding negotiate_serializers_Inr using success parts' snds by (auto simp: n)
qed

text \<open>With well-formed descriptors, the only exception is the documented one.\<close>

lemma negotiate_id_Inl:
  assumes "\<forall>d \<in> set A. valid_descriptor nfc d" "\<forall>d \<in> set B. valid_descriptor nfc d"
    and "distinct (map sd_serializer_id A)" "distinct (map sd_serializer_id B)" "u \<noteq> 0" "v \<noteq> 0"
    and "sid \<in> sd_serializer_id ` set A" "sid \<in> sd_serializer_id ` set B"
    and "negotiate_id nfc u (map (\<lambda>d. (sd_serializer_id d, d)) A) v
           (map (\<lambda>d. (sd_serializer_id d, d)) B) sid = Inl e"
  shows "e = SerializerNegotiationError"
proof -
  obtain a b where a: "a \<in> set A" "sd_serializer_id a = sid"
    and b: "b \<in> set B" "sd_serializer_id b = sid"
    using assms(7,8) by (metis imageE)
  then have "map_of (map (\<lambda>d. (sd_serializer_id d, d)) A) sid = Some a"
    "map_of (map (\<lambda>d. (sd_serializer_id d, d)) B) sid = Some b"
    using map_of_by_id [OF assms(3)] map_of_by_id [OF assms(4)] by auto
  moreover obtain rs1 rs2 where "direction_routes nfc u sid a b = Inr rs1"
      "direction_routes nfc v sid b a = Inr rs2"
    using direction_routes_valid [of nfc a b u sid] direction_routes_valid [of nfc b a v sid]
      assms(1,2,5,6) a b by auto
  ultimately show ?thesis
    using assms(9) by (auto simp: negotiate_id_def result_simps)
qed

lemma negotiate_serializers_Inl:
  assumes "\<forall>d \<in> set A. valid_descriptor nfc d" "\<forall>d \<in> set B. valid_descriptor nfc d"
    and "negotiate_serializers nfc u A v B = Inl e"
  shows "e = SerializerNegotiationError"
proof -
  have "e = SerializerNegotiationError"
    if "u \<noteq> 0" "v \<noteq> 0" "distinct (map sd_serializer_id A)" "distinct (map sd_serializer_id B)"
      and "map_result (negotiate_id nfc u (map (\<lambda>d. (sd_serializer_id d, d)) A) v
             (map (\<lambda>d. (sd_serializer_id d, d)) B))
             (sort [sid \<leftarrow> map sd_serializer_id A. sid \<in> sd_serializer_id ` set B]) = Inl e"
    using map_result_Inl [OF that(5)] negotiate_id_Inl [OF assms(1,2) that(3,4,1,2)] by auto
  then show ?thesis
    using assms(3)
    by (auto simp: negotiate_serializers_def result_simps descriptor_maps_Inr Let_def image_image
        comp_def dest!: descriptor_maps_Inl)
qed

section \<open>What the negotiated routes allow\<close>

definition part_ok ::
  "normalized \<Rightarrow> uuid \<Rightarrow> serializer_descriptor list \<Rightarrow> uuid \<Rightarrow> serializer_descriptor list \<Rightarrow> int
     \<Rightarrow> serializer_route list \<times> negotiated_serializer \<Rightarrow> bool"
where
  "part_ok nfc u A v B sid p \<longleftrightarrow> (\<exists>a \<in> set A. \<exists>b \<in> set B. pair_ok nfc u a v b sid p)"

lemma negotiate_id_part_ok:
  assumes "\<forall>d \<in> set A. valid_descriptor nfc d" "\<forall>d \<in> set B. valid_descriptor nfc d"
    and "distinct (map sd_serializer_id A)" "distinct (map sd_serializer_id B)"
    and "u \<noteq> 0" "v \<noteq> 0" "u \<noteq> v"
    and "negotiate_id nfc u (map (\<lambda>d. (sd_serializer_id d, d)) A) v
           (map (\<lambda>d. (sd_serializer_id d, d)) B) sid = Inr p"
  shows "part_ok nfc u A v B sid p"
proof -
  let ?A = "map (\<lambda>d. (sd_serializer_id d, d)) A" and ?B = "map (\<lambda>d. (sd_serializer_id d, d)) B"
  obtain a b where ab: "map_of ?A sid = Some a" "map_of ?B sid = Some b"
    using assms(8) by (auto simp: negotiate_id_def split: option.splits)
  then have mem: "a \<in> set A" "sd_serializer_id a = sid" "b \<in> set B" "sd_serializer_id b = sid"
    using map_of_by_id [OF assms(3)] map_of_by_id [OF assms(4)] by auto
  then have "valid_descriptor nfc a" "valid_descriptor nfc b" using assms(1,2) by auto
  from negotiate_id_valid [OF this assms(5,6,7) ab(1) mem(2) ab(2) mem(4) assms(8)] show ?thesis
    using mem unfolding part_ok_def by blast
qed

text \<open>All that the proofs below need of a successful negotiation.\<close>

lemma negotiation_parts:
  assumes "\<forall>d \<in> set A. valid_descriptor nfc d" "\<forall>d \<in> set B. valid_descriptor nfc d"
    and "negotiate_serializers nfc u A v B = Inr n"
  obtains ids parts where "list_all2 (part_ok nfc u A v B) ids parts" "sorted_wrt (<) ids"
    and "set ids = sd_serializer_id ` set A \<inter> sd_serializer_id ` set B"
    and "n = \<lparr>sn_routes = sort_key route_key (concat (map fst parts)), sn_serializers = map snd parts\<rparr>"
    and "u \<noteq> 0" "v \<noteq> 0" "u \<noteq> v"
    and "distinct (map sd_serializer_id A)" "distinct (map sd_serializer_id B)"
proof -
  let ?ids = "sort [sid \<leftarrow> map sd_serializer_id A. sid \<in> set (map sd_serializer_id B)]"
  note success = assms(3) [unfolded negotiate_serializers_Inr]
  from success obtain parts where
    parts: "list_all2 (\<lambda>sid p. negotiate_id nfc u (map (\<lambda>d. (sd_serializer_id d, d)) A) v
                       (map (\<lambda>d. (sd_serializer_id d, d)) B) sid = Inr p) ?ids parts"
    and n: "n = \<lparr>sn_routes = sort_key route_key (concat (map fst parts)),
                 sn_serializers = map snd parts\<rparr>"
    by blast
  have "list_all2 (part_ok nfc u A v B) ?ids parts"
    using parts by (rule list_all2_mono) (use negotiate_id_part_ok [OF assms(1,2)] success in blast)
  moreover have "sorted_wrt (<) ?ids"
    using success by (simp add: strict_sorted_iff)
  moreover have "set ?ids = sd_serializer_id ` set A \<inter> sd_serializer_id ` set B"
    by auto
  ultimately show ?thesis using that n success by blast
qed

lemma list_all2_in1:
  assumes "list_all2 P xs ys" "x \<in> set xs"
  obtains y where "y \<in> set ys" "P x y"
  using assms by (metis in_set_conv_nth list_all2_conv_all_nth)

lemma list_all2_in2:
  assumes "list_all2 P xs ys" "y \<in> set ys"
  obtains x where "x \<in> set xs" "P x y"
  using assms by (metis in_set_conv_nth list_all2_conv_all_nth)

lemma negotiated_routes_iff:
  assumes "\<forall>d \<in> set A. valid_descriptor nfc d" "\<forall>d \<in> set B. valid_descriptor nfc d"
    and "negotiate_serializers nfc u A v B = Inr n"
  shows "(\<exists>r \<in> set (sn_routes n). sr_origin_incarnation_uid r = u \<and> sr_serializer_id r = sid
            \<and> m \<in> set (sr_manifests r))
    \<longleftrightarrow> (\<exists>a \<in> set A. \<exists>b \<in> set B. sd_serializer_id a = sid \<and> sd_serializer_id b = sid
           \<and> m |\<in>| sd_writable_manifests a \<and> m |\<in>| sd_readable_manifests b)"
    (is "?routes \<longleftrightarrow> ?agree")
proof -
  obtain ids parts where *: "list_all2 (part_ok nfc u A v B) ids parts"
      "set ids = sd_serializer_id ` set A \<inter> sd_serializer_id ` set B"
      "n = \<lparr>sn_routes = sort_key route_key (concat (map fst parts)), sn_serializers = map snd parts\<rparr>"
      "u \<noteq> v" "distinct (map sd_serializer_id A)" "distinct (map sd_serializer_id B)"
    by (rule negotiation_parts [OF assms])
  show ?thesis
  proof
    assume ?routes
    then obtain r p where r: "p \<in> set parts" "r \<in> set (fst p)" "sr_origin_incarnation_uid r = u"
        "sr_serializer_id r = sid" "m \<in> set (sr_manifests r)"
      by (auto simp: *(3))
    obtain i where "part_ok nfc u A v B i p" using list_all2_in2 [OF *(1) r(1)] by blast
    then obtain a b where ab: "a \<in> set A" "b \<in> set B" "pair_ok nfc u a v b i p"
      unfolding part_ok_def by blast
    then show ?agree using r *(4) by (intro bexI [OF _ ab(1)] bexI [OF _ ab(2)])
      (auto simp: pair_ok_def)
  next
    assume ?agree
    then obtain a b where ab: "a \<in> set A" "b \<in> set B" "sd_serializer_id a = sid"
        "sd_serializer_id b = sid" "m |\<in>| sd_writable_manifests a" "m |\<in>| sd_readable_manifests b"
      by blast
    then have "sid \<in> set ids" unfolding *(2) by (metis IntI imageI)
    then obtain p where p: "p \<in> set parts" "part_ok nfc u A v B sid p"
      using list_all2_in1 [OF *(1)] by blast
    then obtain a' b' where ab': "a' \<in> set A" "b' \<in> set B" "pair_ok nfc u a' v b' sid p"
      unfolding part_ok_def by blast
    then have "a' = a" "b' = b"
      using ab *(5,6) by (auto simp: distinct_map inj_on_def pair_ok_def)
    with ab'(3) have pair: "pair_ok nfc u a v b sid p" by simp
    have "sd_writable_manifests a |\<inter>| sd_readable_manifests b \<noteq> {||}"
      using ab(5,6) by auto
    then obtain r where r: "r \<in> set (fst p)" "sr_origin_incarnation_uid r = u"
      using pair by (auto simp: pair_ok_def)
    then have "sr_serializer_id r = sid" "m \<in> set (sr_manifests r)"
      using pair ab(5,6) *(4) by (auto simp: pair_ok_def)
    then show ?routes
      using p(1) r by (intro bexI [of _ r]) (auto simp: *(3))
  qed
qed

lemma negotiated_minor_iff:
  assumes "\<forall>d \<in> set A. valid_descriptor nfc d" "\<forall>d \<in> set B. valid_descriptor nfc d"
    and "negotiate_serializers nfc u A v B = Inr n"
  shows "protocol_minor_for n sid = Inr k \<longleftrightarrow>
    (\<exists>a \<in> set A. \<exists>b \<in> set B. sd_serializer_id a = sid \<and> sd_serializer_id b = sid
       \<and> k = min (sd_protocol_minor a) (sd_protocol_minor b))"
proof -
  obtain ids parts where *: "list_all2 (part_ok nfc u A v B) ids parts" "sorted_wrt (<) ids"
      "set ids = sd_serializer_id ` set A \<inter> sd_serializer_id ` set B"
      "n = \<lparr>sn_routes = sort_key route_key (concat (map fst parts)), sn_serializers = map snd parts\<rparr>"
      "distinct (map sd_serializer_id A)" "distinct (map sd_serializer_id B)"
    by (rule negotiation_parts [OF assms])
  have "protocol_minor_in (map snd parts) sid = Inr k \<longleftrightarrow> sid \<in> set ids \<and>
    (\<exists>a \<in> set A. \<exists>b \<in> set B. sd_serializer_id a = sid \<and> sd_serializer_id b = sid
       \<and> k = min (sd_protocol_minor a) (sd_protocol_minor b))"
    using *(1,2)
  proof (induction ids parts rule: list_all2_induct)
    case Nil
    show ?case by simp
  next
    case (Cons i ids p parts)
    obtain a b where ab: "a \<in> set A" "b \<in> set B" "sd_serializer_id a = i" "sd_serializer_id b = i"
        "snd p = \<lparr>ns_serializer_id = i,
                  ns_protocol_minor = min (sd_protocol_minor a) (sd_protocol_minor b)\<rparr>"
      using Cons.hyps(1) unfolding part_ok_def pair_ok_def by blast
    have a: "a' = a" if "a' \<in> set A" "sd_serializer_id a' = i" for a'
      using that ab(1,3) *(5) by (auto simp: distinct_map inj_on_def)
    have b: "b' = b" if "b' \<in> set B" "sd_serializer_id b' = i" for b'
      using that ab(2,4) *(6) by (auto simp: distinct_map inj_on_def)
    show ?case
    proof (cases "i = sid")
      case True
      have "(\<exists>a \<in> set A. \<exists>b \<in> set B. sd_serializer_id a = sid \<and> sd_serializer_id b = sid
          \<and> k = min (sd_protocol_minor a) (sd_protocol_minor b))
        \<longleftrightarrow> k = min (sd_protocol_minor a) (sd_protocol_minor b)"
        using a b ab(1-4) True by metis
      with True ab(5) show ?thesis by auto
    next
      case False
      with Cons.IH Cons.prems ab(5) show ?thesis by simp
    qed
  qed
  then show ?thesis
    by (simp add: protocol_minor_for_def *(4)) (metis IntI *(3) imageI)
qed

text \<open>The routes are in canonical order, well formed, and have one entry per origin and serializer.\<close>

lemma distinct_concat_routes:
  assumes "list_all2 (part_ok nfc u A v B) ids parts" "sorted_wrt (<) ids"
  shows "distinct (map (\<lambda>r. (sr_origin_incarnation_uid r, sr_serializer_id r)) (concat (map fst parts)))
    \<and> sr_serializer_id ` set (concat (map fst parts)) \<subseteq> set ids"
  using assms
proof (induction ids parts rule: list_all2_induct)
  case Nil
  show ?case by simp
next
  case (Cons i ids p parts)
  have p: "distinct (map sr_origin_incarnation_uid (fst p))" "\<forall>r \<in> set (fst p). sr_serializer_id r = i"
    using Cons.hyps(1) unfolding part_ok_def pair_ok_def by blast+
  then have "distinct (map (\<lambda>r. (sr_origin_incarnation_uid r, sr_serializer_id r)) (fst p))"
    by (auto simp: distinct_map inj_on_def)
  moreover have "i \<notin> set ids" using Cons.prems by auto
  moreover have "sr_serializer_id ` set (concat (map fst parts)) \<subseteq> set ids"
      "distinct (map (\<lambda>r. (sr_origin_incarnation_uid r, sr_serializer_id r)) (concat (map fst parts)))"
    using Cons by auto
  ultimately show ?case
    using p(2) by (auto simp: image_subset_iff)
qed

lemma length_routes:
  assumes "list_all2 (part_ok nfc u A v B) ids parts"
  shows "length (concat (map fst parts)) \<le> 2 * length ids"
  using assms
proof (induction ids parts rule: list_all2_induct)
  case Nil
  show ?case by simp
next
  case (Cons i ids p parts)
  then obtain a b where p: "pair_ok nfc u a v b i p" by (auto simp: part_ok_def)
  then have "set (map sr_origin_incarnation_uid (fst p)) \<subseteq> {u, v}"
    by (auto simp: pair_ok_def)
  then have "card (set (map sr_origin_incarnation_uid (fst p))) \<le> card {u, v}"
    by (intro card_mono) auto
  also have "\<dots> \<le> 2" by (simp add: card_insert_if)
  finally have "length (fst p) \<le> 2"
    using p by (metis distinct_card length_map pair_ok_def)
  with Cons.IH show ?case by simp
qed

lemma negotiated_routes_canonical:
  assumes "\<forall>d \<in> set A. valid_descriptor nfc d" "\<forall>d \<in> set B. valid_descriptor nfc d"
    and "negotiate_serializers nfc u A v B = Inr n"
  shows "sorted (map route_key (sn_routes n))"
    and "\<And>r. r \<in> set (sn_routes n) \<Longrightarrow> valid_route nfc r"
    and "distinct (map (\<lambda>r. (sr_origin_incarnation_uid r, sr_serializer_id r)) (sn_routes n))"
    and "length (sn_routes n) \<le> 2 * length A"
proof -
  obtain ids parts where *: "list_all2 (part_ok nfc u A v B) ids parts" "sorted_wrt (<) ids"
      "set ids = sd_serializer_id ` set A \<inter> sd_serializer_id ` set B"
      "n = \<lparr>sn_routes = sort_key route_key (concat (map fst parts)), sn_serializers = map snd parts\<rparr>"
    by (rule negotiation_parts [OF assms])
  show "sorted (map route_key (sn_routes n))" by (simp add: *(4))
  show "valid_route nfc r" if r: "r \<in> set (sn_routes n)" for r
  proof -
    obtain p where p: "p \<in> set parts" "r \<in> set (fst p)" using r by (auto simp: *(4))
    obtain i where "part_ok nfc u A v B i p" using list_all2_in2 [OF *(1) p(1)] by blast
    then show ?thesis using p(2) by (auto simp: part_ok_def pair_ok_def)
  qed
  let ?f = "\<lambda>r. (sr_origin_incarnation_uid r, sr_serializer_id r)"
  show "distinct (map ?f (sn_routes n))"
    using distinct_concat_routes [OF *(1,2)] by (simp add: *(4))
  have "length ids = card (set ids)"
    using *(2) by (simp add: distinct_card strict_sorted_iff)
  also have "\<dots> \<le> card (sd_serializer_id ` set A)" by (auto simp: *(3) intro!: card_mono)
  also have "\<dots> \<le> length A" by (rule le_trans [OF card_image_le card_length]) simp
  finally show "length (sn_routes n) \<le> 2 * length A"
    using length_routes [OF *(1)] by (simp add: *(4))
qed

lemma negotiate_serializers_commute:
  assumes "\<forall>d \<in> set A. valid_descriptor nfc d" "\<forall>d \<in> set B. valid_descriptor nfc d"
  shows "negotiate_serializers nfc u A v B = negotiate_serializers nfc v B u A"
proof (cases "negotiate_serializers nfc u A v B")
  case (Inr n)
  then show ?thesis using negotiate_serializers_swap [OF Inr] by simp
next
  case first: (Inl e)
  show ?thesis
  proof (cases "negotiate_serializers nfc v B u A")
    case (Inr n)
    then show ?thesis using negotiate_serializers_swap [OF Inr] by simp
  next
    case (Inl e')
    then show ?thesis
      using first negotiate_serializers_Inl [OF assms first] negotiate_serializers_Inl [OF assms(2,1) Inl]
      by simp
  qed
qed

section \<open>Properties\<close>

text \<open>
  C3. The two peers of an association run \<^verbatim>\<open>negotiate_serializers\<close> with the roles of local and remote
  exchanged; with validated descriptors they always obtain the same outcome: the same routes in the
  same order and the same serializer versions, or both raise \<^verbatim>\<open>SerializerNegotiationError\<close>.
\<close>

theorem negotiation_symmetric:
  assumes "\<forall>d \<in> set A. valid_descriptor nfc d" "\<forall>d \<in> set B. valid_descriptor nfc d"
  shows "negotiate_serializers nfc u A v B = negotiate_serializers nfc v B u A"
  using assms by (rule negotiate_serializers_commute)

definition sample_peer_descriptor :: serializer_descriptor where
  "sample_peer_descriptor = sample_descriptor\<lparr>sd_protocol_minor := 5,
     sd_readable_manifests := {|str ''order/1'', str ''order/2''|}, sd_writable_manifests := {||}\<rparr>"

lemma sample_peer_descriptor_valid: "valid_descriptor isascii sample_peer_descriptor"
proof -
  have "encoded_text isascii (str ''order/2'') MAX_MANIFEST_BYTES = Inr (map byte_of (str ''order/2''))"
    by code_simp
  then have "valid_text isascii (str ''order/2'') MAX_MANIFEST_BYTES"
    using encoded_text_Inr_iff by blast
  moreover have "str ''order/1'' \<noteq> str ''order/2''" by code_simp
  ultimately show ?thesis
    using sample_descriptor_valid
    by (simp add: valid_descriptor_def sample_descriptor_def sample_peer_descriptor_def fcard.rep_eq)
qed

definition sample_negotiation :: serializer_negotiation where
  "sample_negotiation = \<lparr>sn_routes = [\<lparr>sr_origin_incarnation_uid = 7, sr_serializer_id = 1,
     sr_manifests = [str ''order/1'']\<rparr>],
     sn_serializers = [\<lparr>ns_serializer_id = 1, ns_protocol_minor = 2\<rparr>]\<rparr>"

lemma sample_negotiated:
  "negotiate_serializers isascii 7 [sample_descriptor] 9 [sample_peer_descriptor] = Inr sample_negotiation"
  by code_simp

theorem negotiation_symmetric_witness:
  "valid_descriptor isascii sample_descriptor \<and> valid_descriptor isascii sample_peer_descriptor
    \<and> negotiate_serializers isascii 9 [sample_peer_descriptor] 7 [sample_descriptor] = Inr sample_negotiation"
  using negotiation_symmetric [of "[sample_descriptor]" isascii "[sample_peer_descriptor]" 7 9]
    sample_negotiated sample_descriptor_valid sample_peer_descriptor_valid
  by simp

text \<open>
  C11. A negotiated route from one peer to the other exists for exactly the serializer identities
  that both describe, and admits exactly the manifests the sender writes and the receiver reads; the
  negotiated version of a serializer is the smaller of the two minor versions.
\<close>

theorem negotiated_routes_exact:
  assumes "\<forall>d \<in> set A. valid_descriptor nfc d" "\<forall>d \<in> set B. valid_descriptor nfc d"
    and "negotiate_serializers nfc u A v B = Inr n"
  shows "((\<exists>r \<in> set (sn_routes n). sr_origin_incarnation_uid r = u \<and> sr_serializer_id r = sid
             \<and> m \<in> set (sr_manifests r))
         \<longleftrightarrow> (\<exists>a \<in> set A. \<exists>b \<in> set B. sd_serializer_id a = sid \<and> sd_serializer_id b = sid
              \<and> m |\<in>| sd_writable_manifests a \<and> m |\<in>| sd_readable_manifests b))
    \<and> (protocol_minor_for n sid = Inr k
         \<longleftrightarrow> (\<exists>a \<in> set A. \<exists>b \<in> set B. sd_serializer_id a = sid \<and> sd_serializer_id b = sid
              \<and> k = min (sd_protocol_minor a) (sd_protocol_minor b)))"
  using negotiated_routes_iff [OF assms] negotiated_minor_iff [OF assms] by blast

theorem negotiated_routes_exact_witness:
  "negotiate_serializers isascii 7 [sample_descriptor] 9 [sample_peer_descriptor] = Inr sample_negotiation
    \<and> (\<exists>r \<in> set (sn_routes sample_negotiation). sr_origin_incarnation_uid r = 7
         \<and> sr_serializer_id r = 1 \<and> str ''order/1'' \<in> set (sr_manifests r))
    \<and> protocol_minor_for sample_negotiation 1 = Inr 2"
  using negotiated_routes_exact [of "[sample_descriptor]" isascii "[sample_peer_descriptor]" 7 9
      sample_negotiation 1 "str ''order/1''" 2]
    sample_negotiated sample_descriptor_valid sample_peer_descriptor_valid
  by (simp add: sample_descriptor_def sample_peer_descriptor_def)

text \<open>
  C17. The negotiated routes are what a \<^verbatim>\<open>HELLO_ACCEPT\<close> frame may carry: each is a valid
  \<^verbatim>\<open>SerializerRoute\<close>, they are in canonical order, no origin and serializer occurs twice, and there
  are at most two for each local serializer.
\<close>

theorem negotiated_routes_wellformed:
  assumes "\<forall>d \<in> set A. valid_descriptor nfc d" "\<forall>d \<in> set B. valid_descriptor nfc d"
    and "negotiate_serializers nfc u A v B = Inr n"
  shows "list_all (valid_route nfc) (sn_routes n)
    \<and> sort_key route_key (sn_routes n) = sn_routes n
    \<and> distinct (map (\<lambda>r. (sr_origin_incarnation_uid r, sr_serializer_id r)) (sn_routes n))
    \<and> length (sn_routes n) \<le> 2 * length A"
  using negotiated_routes_canonical [OF assms] by (auto simp: list_all_iff sort_key_id_if_sorted)

theorem negotiated_routes_wellformed_witness:
  "negotiate_serializers isascii 7 [sample_descriptor] 9 [sample_peer_descriptor] = Inr sample_negotiation
    \<and> list_all (valid_route isascii) (sn_routes sample_negotiation)
    \<and> length (sn_routes sample_negotiation) = 1"
  using negotiated_routes_wellformed [of "[sample_descriptor]" isascii "[sample_peer_descriptor]" 7 9
      sample_negotiation]
    sample_negotiated sample_descriptor_valid sample_peer_descriptor_valid
  by (simp add: sample_negotiation_def)

end
