(* ===== verification/Wire_Frames.thy ===== *)
theory Wire_Frames
  imports Wire_Primitives Negotiation
begin

text \<open>
  The upper half of \<^verbatim>\<open>movie/remoting/wire.py\<close>: stream preambles, the common frame header, the body of
  every frame, and \<^verbatim>\<open>encode_frame\<close> / \<^verbatim>\<open>decode_frame\<close>, including the specialised encoder and decoder of
  user messages.
\<close>

section \<open>Frames\<close>

record stream_preamble =
  pr_stream_kind :: stream_kind
  pr_association_uid :: uuid
  pr_lane_id :: int

record frame_header =
  fh_frame_length :: int
  fh_frame_type :: frame_type
  fh_flags :: int
  fh_header_version :: int
  fh_correlation_id :: int

definition total_length :: "frame_header \<Rightarrow> int" where
  "total_length h = fh_frame_length h + 4"

definition body_length :: "frame_header \<Rightarrow> int" where
  "body_length h = fh_frame_length h - HEADER_AFTER_LENGTH_SIZE"

record hello =
  h_protocol_major :: int
  h_protocol_minor :: int
  h_role :: association_role
  h_system_name :: pystr
  h_system_incarnation_uid :: uuid
  h_association_uid :: uuid
  h_endpoint_host :: pystr
  h_endpoint_port :: int
  h_maximum_frame_bytes :: int
  h_lane_count :: int
  h_outbound_message_limit :: int
  h_outbound_byte_limit :: int
  h_inbound_message_limit :: int
  h_inbound_byte_limit :: int
  h_serializers :: "serializer_descriptor list"
  h_capabilities :: "pystr list"
  h_correlation_id :: int

record hello_accept =
  a_association_uid :: uuid
  a_protocol_minor :: int
  a_maximum_frame_bytes :: int
  a_lane_count :: int
  a_outbound_message_limit :: int
  a_outbound_byte_limit :: int
  a_inbound_message_limit :: int
  a_inbound_byte_limit :: int
  a_serializer_routes :: "serializer_route list"
  a_capabilities :: "pystr list"
  a_correlation_id :: int

record user_message =
  um_association_uid :: uuid
  um_lane_id :: int
  um_lane_sequence :: int
  um_sender_incarnation_uid :: uuid
  um_recipient_incarnation_uid :: uuid
  um_recipient_actor_uid :: uuid
  um_serializer_id :: int
  um_manifest :: pystr
  um_payload :: bytes
  um_correlation_id :: int

record advisory =
  av_association_uid :: uuid
  av_lane_id :: int
  av_lane_sequence :: int
  av_recipient_actor_uid :: uuid
  av_reason :: reason_code
  av_detail :: pystr
  av_correlation_id :: int

datatype frame =
    Hello hello
  | HelloAccept hello_accept
  | GoAway reason_code pystr int
  | HelloReject reason_code pystr int
  | ResolveRequest int pystr pystr
  | ResolveResponse int uuid uuid pystr
  | ResolveRejected int reason_code pystr
  | UserMessage user_message
  | RecipientUnavailable advisory
  | DeserializationRejected advisory

primrec frame_type_for :: "frame \<Rightarrow> frame_type" where
  "frame_type_for (Hello _) = FT_HELLO"
| "frame_type_for (HelloAccept _) = FT_HELLO_ACCEPT"
| "frame_type_for (GoAway _ _ _) = FT_GOAWAY"
| "frame_type_for (HelloReject _ _ _) = FT_HELLO_REJECT"
| "frame_type_for (ResolveRequest _ _ _) = FT_RESOLVE_REQUEST"
| "frame_type_for (ResolveResponse _ _ _ _) = FT_RESOLVE_RESPONSE"
| "frame_type_for (ResolveRejected _ _ _) = FT_RESOLVE_REJECTED"
| "frame_type_for (UserMessage _) = FT_USER_MESSAGE"
| "frame_type_for (RecipientUnavailable _) = FT_RECIPIENT_UNAVAILABLE"
| "frame_type_for (DeserializationRejected _) = FT_DESERIALIZATION_REJECTED"

primrec correlation_id :: "frame \<Rightarrow> int" where
  "correlation_id (Hello h) = h_correlation_id h"
| "correlation_id (HelloAccept a) = a_correlation_id a"
| "correlation_id (GoAway _ _ c) = c"
| "correlation_id (HelloReject _ _ c) = c"
| "correlation_id (ResolveRequest c _ _) = c"
| "correlation_id (ResolveResponse c _ _ _) = c"
| "correlation_id (ResolveRejected c _ _) = c"
| "correlation_id (UserMessage m) = um_correlation_id m"
| "correlation_id (RecipientUnavailable a) = av_correlation_id a"
| "correlation_id (DeserializationRejected a) = av_correlation_id a"

definition control_frame_type :: "frame_type \<Rightarrow> bool" where
  "control_frame_type t \<longleftrightarrow> t \<noteq> FT_USER_MESSAGE"

definition zero_correlation_type :: "frame_type \<Rightarrow> bool" where
  "zero_correlation_type t \<longleftrightarrow>
     t \<in> {FT_HELLO, FT_HELLO_ACCEPT, FT_GOAWAY, FT_HELLO_REJECT, FT_USER_MESSAGE,
          FT_RECIPIENT_UNAVAILABLE, FT_DESERIALIZATION_REJECTED}"

definition bootstrap_frame_type :: "frame_type \<Rightarrow> bool" where
  "bootstrap_frame_type t \<longleftrightarrow> t \<in> {FT_HELLO, FT_HELLO_ACCEPT, FT_HELLO_REJECT}"

fun frame_reason_codes :: "frame_type \<Rightarrow> reason_code set option" where
  "frame_reason_codes FT_RESOLVE_REJECTED =
     Some {RC_SYSTEM_NAME_MISMATCH, RC_ACTOR_NOT_FOUND, RC_ACTOR_STOPPING, RC_INVALID_PATH}"
| "frame_reason_codes FT_RECIPIENT_UNAVAILABLE =
     Some {RC_ACTOR_NOT_FOUND, RC_ACTOR_STOPPING, RC_MAILBOX_FULL}"
| "frame_reason_codes FT_DESERIALIZATION_REJECTED =
     Some {RC_UNKNOWN_SERIALIZER, RC_UNSUPPORTED_MANIFEST, RC_MALFORMED_PAYLOAD}"
| "frame_reason_codes _ = None"

section \<open>Preambles\<close>

definition validate_preamble ::
  "stream_preamble \<Rightarrow> exn \<Rightarrow> int option \<Rightarrow> uuid option \<Rightarrow> stream_kind option \<Rightarrow> unit result"
where
  "validate_preamble p err lane_count expected_association_uid expected_kind =
     rbind (uuid_nonzero (pr_association_uid p) err) (\<lambda>association_uid.
     rbind (uint_field (pr_lane_id p) MAX_U16 err 0) (\<lambda>lane_id.
     rbind (guard (\<not> (pr_stream_kind p = CONTROL \<and> lane_id \<noteq> CONTROL_LANE_ID)) err) (\<lambda>_.
     rbind (guard (\<not> (pr_stream_kind p = MULTIPLEXED \<and> lane_id \<noteq> CONTROL_LANE_ID)) err) (\<lambda>_.
     rbind (guard (\<not> (pr_stream_kind p = DELIVERY_LANE \<and> lane_id = CONTROL_LANE_ID)) err) (\<lambda>_.
     rbind (case lane_count of
              None \<Rightarrow> Inr ()
            | Some n \<Rightarrow> rbind (uint_field n MAX_U16 err 0) (\<lambda>n.
                guard (\<not> (pr_stream_kind p = DELIVERY_LANE \<and> lane_id \<ge> n)) err)) (\<lambda>_.
     rbind (case expected_association_uid of
              None \<Rightarrow> Inr () | Some u \<Rightarrow> guard (association_uid = u) err) (\<lambda>_.
     case expected_kind of
       None \<Rightarrow> Inr () | Some k \<Rightarrow> guard (pr_stream_kind p = k) err)))))))"

definition encode_preamble :: "stream_preamble \<Rightarrow> int option \<Rightarrow> bytes result" where
  "encode_preamble p lane_count =
     rbind (validate_preamble p ProtocolValidationError lane_count None None) (\<lambda>_.
       Inr (MAGIC @ be_bytes 1 (stream_kind_value (pr_stream_kind p))
            @ uuid_bytes (pr_association_uid p) @ be_bytes 2 (pr_lane_id p)))"

definition decode_preamble ::
  "bytes \<Rightarrow> int option \<Rightarrow> uuid option \<Rightarrow> stream_kind option \<Rightarrow> stream_preamble result"
where
  "decode_preamble data lane_count expected_association_uid expected_kind =
     rbind (guard (int (length data) = PREAMBLE_SIZE) InvalidPreambleError) (\<lambda>_.
     rbind (guard (take 4 data = MAGIC) InvalidPreambleError) (\<lambda>_.
     case stream_kind_of (be_int (take 1 (drop 4 data))) of
       None \<Rightarrow> Inl InvalidPreambleError
     | Some kind \<Rightarrow>
         let preamble = \<lparr>pr_stream_kind = kind,
                         pr_association_uid = uuid_of_bytes (take 16 (drop 5 data)),
                         pr_lane_id = be_int (drop 21 data)\<rparr> in
         rbind (validate_preamble preamble InvalidPreambleError lane_count
                  expected_association_uid expected_kind) (\<lambda>_. Inr preamble)))"

section \<open>The common header\<close>

definition effective_limit :: "frame_type \<Rightarrow> int \<Rightarrow> int result" where
  "effective_limit t maximum_frame_bytes =
     rbind (uint_field maximum_frame_bytes MAX_U32 ProtocolValidationError COMMON_HEADER_SIZE) (\<lambda>m.
       Inr (if bootstrap_frame_type t then min m BOOTSTRAP_MAX_FRAME_BYTES else m))"

definition validate_correlation :: "frame_type \<Rightarrow> int \<Rightarrow> exn \<Rightarrow> unit result" where
  "validate_correlation t c err =
     rbind (uint_field c MAX_U64 err 0) (\<lambda>_.
     rbind (guard (\<not> (zero_correlation_type t \<and> c \<noteq> 0)) err) (\<lambda>_.
       guard (\<not> (\<not> zero_correlation_type t \<and> c = 0)) err))"

definition encode_common_header :: "frame_type \<Rightarrow> int \<Rightarrow> int \<Rightarrow> int \<Rightarrow> bytes result" where
  "encode_common_header t body_len c maximum_frame_bytes =
     rbind (uint_field body_len (MAX_U32 - HEADER_AFTER_LENGTH_SIZE) ProtocolValidationError 0) (\<lambda>_.
     rbind (validate_correlation t c ProtocolValidationError) (\<lambda>_.
     let frame_length = HEADER_AFTER_LENGTH_SIZE + body_len; total = frame_length + 4 in
     rbind (effective_limit t maximum_frame_bytes) (\<lambda>limit.
     rbind (guard (total \<le> limit) FrameTooLargeError) (\<lambda>_.
       Inr (be_bytes 4 frame_length @ be_bytes 1 (frame_type_value t) @ be_bytes 1 0
            @ be_bytes 2 HEADER_VERSION @ be_bytes 8 c)))))"

definition decode_common_header :: "bytes \<Rightarrow> int \<Rightarrow> frame_header result" where
  "decode_common_header data maximum_frame_bytes =
     rbind (guard (int (length data) \<ge> COMMON_HEADER_SIZE) MalformedFrameError) (\<lambda>_.
     let frame_length = be_int (take 4 data);
         type_value = be_int (take 1 (drop 4 data));
         flags = be_int (take 1 (drop 5 data));
         version = be_int (take 2 (drop 6 data));
         c = be_int (take 8 (drop 8 data));
         total = frame_length + 4 in
     rbind (guard (frame_length \<ge> HEADER_AFTER_LENGTH_SIZE) MalformedFrameError) (\<lambda>_.
     rbind (uint_field maximum_frame_bytes MAX_U32 ProtocolValidationError COMMON_HEADER_SIZE) (\<lambda>_.
     rbind (guard (total \<le> maximum_frame_bytes) FrameTooLargeError) (\<lambda>_.
     case frame_type_of type_value of
       None \<Rightarrow> Inl UnsupportedFrameError
     | Some t \<Rightarrow>
         rbind (effective_limit t maximum_frame_bytes) (\<lambda>limit.
         rbind (guard (total \<le> limit) FrameTooLargeError) (\<lambda>_.
         rbind (guard (flags = 0) UnsupportedFeatureError) (\<lambda>_.
         rbind (guard (version = HEADER_VERSION) UnsupportedHeaderVersionError) (\<lambda>_.
         rbind (validate_correlation t c MalformedFrameError) (\<lambda>_.
           Inr \<lparr>fh_frame_length = frame_length, fh_frame_type = t, fh_flags = flags,
                fh_header_version = version, fh_correlation_id = c\<rparr>)))))))))"

definition validate_stream :: "frame_type \<Rightarrow> stream_kind option \<Rightarrow> unit result" where
  "validate_stream t kind =
     (case kind of
        None \<Rightarrow> Inr ()
      | Some k \<Rightarrow>
          if k = MULTIPLEXED then Inr ()
          else guard (k = (if control_frame_type t then CONTROL else DELIVERY_LANE)) WrongStreamError)"

section \<open>Groups of fields\<close>

definition sorted_manifests :: "pystr fset \<Rightarrow> pystr list" where
  "sorted_manifests s = sort_key utf8_key (sorted_list_of_fset s)"

definition write_manifests :: "normalized \<Rightarrow> pystr list \<Rightarrow> bytes result" where
  "write_manifests nfc ms =
     w_seq (w_u16 (int (length ms)) # map (w_string16 nfc MAX_MANIFEST_BYTES True) ms)"

definition read_manifests :: "normalized \<Rightarrow> pystr list reader" where
  "read_manifests nfc =
     r_bind r_u16 (\<lambda>n. r_many (nat n) (r_string16 nfc MAX_MANIFEST_BYTES True))"

definition write_descriptor :: "normalized \<Rightarrow> serializer_descriptor \<Rightarrow> bytes result" where
  "write_descriptor nfc d =
     w_seq [w_u32 (sd_serializer_id d), w_string16 nfc MAX_U16 True (sd_name d),
            w_u16 (sd_protocol_major d), w_u16 (sd_protocol_minor d),
            write_manifests nfc (sorted_manifests (sd_readable_manifests d)),
            write_manifests nfc (sorted_manifests (sd_writable_manifests d))]"

text \<open>\<^verbatim>\<open>except SerializerRegistryError as error: raise MalformedFrameError(...)\<close>\<close>

definition malformed_if_registry_error :: "'a result \<Rightarrow> 'a result" where
  "malformed_if_registry_error m =
     (case m of Inl SerializerRegistryError \<Rightarrow> Inl MalformedFrameError | _ \<Rightarrow> m)"

definition read_descriptor :: "normalized \<Rightarrow> serializer_descriptor reader" where
  "read_descriptor nfc =
     r_bind r_u32 (\<lambda>sid.
     r_bind (r_string16 nfc MAX_U16 True) (\<lambda>name.
     r_bind r_u16 (\<lambda>major.
     r_bind r_u16 (\<lambda>minor.
     r_bind (read_manifests nfc) (\<lambda>readable.
     r_bind (read_manifests nfc) (\<lambda>writable.
     r_bind (r_check (distinct readable \<and> distinct writable)) (\<lambda>_.
       r_lift (malformed_if_registry_error
         (serializer_descriptor_init nfc sid name major minor
            (fset_of_list readable) (fset_of_list writable))))))))))"

definition write_limits :: "int \<Rightarrow> int \<Rightarrow> int \<Rightarrow> int \<Rightarrow> int \<Rightarrow> int \<Rightarrow> bytes result" where
  "write_limits maximum_frame_bytes lane_count outbound_messages outbound_bytes
       inbound_messages inbound_bytes =
     w_seq [w_u32 maximum_frame_bytes, w_check (maximum_frame_bytes \<ge> COMMON_HEADER_SIZE),
            w_u16 lane_count, w_u32 outbound_messages, w_u64 outbound_bytes,
            w_u32 inbound_messages, w_u64 inbound_bytes]"

definition read_limits :: "(int \<times> int \<times> int \<times> int \<times> int \<times> int) reader" where
  "read_limits =
     r_bind r_u32 (\<lambda>maximum_frame_bytes.
     r_bind (r_check (maximum_frame_bytes \<ge> COMMON_HEADER_SIZE)) (\<lambda>_.
     r_bind r_u16 (\<lambda>lane_count.
     r_bind r_u32 (\<lambda>outbound_messages.
     r_bind r_u64 (\<lambda>outbound_bytes.
     r_bind r_u32 (\<lambda>inbound_messages.
     r_bind r_u64 (\<lambda>inbound_bytes.
       r_return (maximum_frame_bytes, lane_count, outbound_messages, outbound_bytes,
                 inbound_messages, inbound_bytes))))))))"

definition check_capability :: "normalized \<Rightarrow> pystr \<Rightarrow> bytes result" where
  "check_capability nfc c =
     rbind (text_bytes nfc c MAX_U16 ProtocolValidationError True) (\<lambda>_. Inr [])"

definition write_capabilities :: "normalized \<Rightarrow> pystr list \<Rightarrow> bytes result" where
  "write_capabilities nfc cs =
     w_seq ([w_check (int (length cs) \<le> MAX_U16)] @ map (check_capability nfc) cs
            @ [w_check (distinct cs), w_u16 (int (length cs))]
            @ map (w_string16 nfc MAX_U16 True) cs)"

definition read_capabilities :: "normalized \<Rightarrow> pystr list reader" where
  "read_capabilities nfc =
     r_bind r_u16 (\<lambda>n.
     r_bind (r_many (nat n) (r_string16 nfc MAX_U16 True)) (\<lambda>cs.
     r_bind (r_check (distinct cs)) (\<lambda>_. r_return cs)))"

definition route_id :: "serializer_route \<Rightarrow> uuid \<times> int" where
  "route_id r = (sr_origin_incarnation_uid r, sr_serializer_id r)"

definition write_route :: "normalized \<Rightarrow> serializer_route \<Rightarrow> bytes result" where
  "write_route nfc r =
     w_seq [w_uuid (sr_origin_incarnation_uid r), w_u32 (sr_serializer_id r),
            write_manifests nfc (sr_manifests r)]"

definition write_routes :: "normalized \<Rightarrow> serializer_route list \<Rightarrow> bytes result" where
  "write_routes nfc routes =
     w_seq ([w_check (int (length routes) \<le> MAX_U16),
             w_check (sort_key route_key routes = routes),
             w_check (distinct (map route_id routes)),
             w_u16 (int (length routes))]
            @ map (write_route nfc) routes)"

definition read_route :: "normalized \<Rightarrow> serializer_route reader" where
  "read_route nfc =
     r_bind r_uuid (\<lambda>origin.
     r_bind r_u32 (\<lambda>sid.
     r_bind (read_manifests nfc) (\<lambda>manifests.
     r_bind (r_check (manifests \<noteq> [] \<and> manifests = sort_key utf8_key (remdups manifests))) (\<lambda>_.
       r_lift (malformed_if_registry_error (serializer_route_init nfc origin sid manifests))))))"

definition read_routes :: "normalized \<Rightarrow> serializer_route list reader" where
  "read_routes nfc =
     r_bind r_u16 (\<lambda>n.
     r_bind (r_many (nat n) (read_route nfc)) (\<lambda>routes.
     r_bind (r_check (routes = sort_key route_key routes)) (\<lambda>_.
     r_bind (r_check (distinct (map route_id routes))) (\<lambda>_.
       r_return routes))))"

definition write_reason :: "normalized \<Rightarrow> reason_code \<Rightarrow> pystr \<Rightarrow> bytes result" where
  "write_reason nfc reason detail =
     w_seq [w_u16 (reason_code_value reason), w_string16 nfc MAX_U16 False detail]"

definition read_reason :: "normalized \<Rightarrow> (reason_code \<times> pystr) reader" where
  "read_reason nfc =
     r_bind r_u16 (\<lambda>v.
     case reason_code_of v of
       None \<Rightarrow> r_lift (Inl MalformedFrameError)
     | Some reason \<Rightarrow>
         r_bind (r_string16 nfc MAX_U16 False) (\<lambda>detail. r_return (reason, detail)))"

definition validate_frame_reason :: "frame_type \<Rightarrow> reason_code \<Rightarrow> exn \<Rightarrow> unit result" where
  "validate_frame_reason t reason err =
     (case frame_reason_codes t of None \<Rightarrow> Inr () | Some allowed \<Rightarrow> guard (reason \<in> allowed) err)"

definition write_advisory :: "normalized \<Rightarrow> advisory \<Rightarrow> bytes result" where
  "write_advisory nfc a =
     w_seq [w_uuid (av_association_uid a), w_u16 (av_lane_id a),
            w_check (av_lane_id a \<noteq> CONTROL_LANE_ID), w_u64 (av_lane_sequence a),
            w_uuid (av_recipient_actor_uid a), write_reason nfc (av_reason a) (av_detail a)]"

definition read_advisory :: "normalized \<Rightarrow> int \<Rightarrow> advisory reader" where
  "read_advisory nfc c =
     r_bind r_uuid (\<lambda>association_uid.
     r_bind r_u16 (\<lambda>lane_id.
     r_bind (r_check (lane_id \<noteq> CONTROL_LANE_ID)) (\<lambda>_.
     r_bind r_u64 (\<lambda>lane_sequence.
     r_bind r_uuid (\<lambda>recipient.
     r_bind (read_reason nfc) (\<lambda>(reason, detail).
       r_return \<lparr>av_association_uid = association_uid, av_lane_id = lane_id,
                 av_lane_sequence = lane_sequence, av_recipient_actor_uid = recipient,
                 av_reason = reason, av_detail = detail, av_correlation_id = c\<rparr>))))))"

section \<open>Frame bodies\<close>

definition encode_hello :: "normalized \<Rightarrow> hello \<Rightarrow> bytes result" where
  "encode_hello nfc h =
     w_seq ([w_u16 (h_protocol_major h), w_u16 (h_protocol_minor h),
             w_u8 (association_role_value (h_role h)),
             w_counted (system_name nfc (h_system_name h) ProtocolValidationError),
             w_uuid (h_system_incarnation_uid h), w_uuid (h_association_uid h),
             w_string16 nfc MAX_U16 True (h_endpoint_host h), w_u16 (h_endpoint_port h),
             write_limits (h_maximum_frame_bytes h) (h_lane_count h) (h_outbound_message_limit h)
               (h_outbound_byte_limit h) (h_inbound_message_limit h) (h_inbound_byte_limit h),
             w_check (int (length (h_serializers h)) \<le> MAX_U16),
             w_check (distinct (map sd_serializer_id (h_serializers h))
                      \<and> distinct (map sd_name (h_serializers h))),
             w_u16 (int (length (h_serializers h)))]
            @ map (write_descriptor nfc) (h_serializers h)
            @ [write_capabilities nfc (h_capabilities h)])"

definition encode_hello_accept :: "normalized \<Rightarrow> hello_accept \<Rightarrow> bytes result" where
  "encode_hello_accept nfc a =
     w_seq [w_uuid (a_association_uid a), w_u16 (a_protocol_minor a),
            write_limits (a_maximum_frame_bytes a) (a_lane_count a) (a_outbound_message_limit a)
              (a_outbound_byte_limit a) (a_inbound_message_limit a) (a_inbound_byte_limit a),
            write_routes nfc (a_serializer_routes a),
            write_capabilities nfc (a_capabilities a)]"

text \<open>
  The manifest is validated before the two lengths are written and written after them, so its bytes
  are bound first.
\<close>

definition encode_user_message_body :: "normalized \<Rightarrow> user_message \<Rightarrow> bytes result" where
  "encode_user_message_body nfc m =
     rbind (w_seq [w_uuid (um_association_uid m), w_u16 (um_lane_id m),
                   w_check (um_lane_id m \<noteq> CONTROL_LANE_ID), w_u64 (um_lane_sequence m),
                   w_uuid (um_sender_incarnation_uid m), w_uuid (um_recipient_incarnation_uid m),
                   w_uuid (um_recipient_actor_uid m), w_u32 (um_serializer_id m),
                   w_check (um_serializer_id m \<noteq> 0)]) (\<lambda>prefix.
     rbind (text_bytes nfc (um_manifest m) MAX_MANIFEST_BYTES ProtocolValidationError True) (\<lambda>manifest.
       w_seq [w_raw prefix, w_u16 (int (length manifest)), w_u32 (int (length (um_payload m))),
              w_raw manifest, w_raw (um_payload m)]))"

fun encode_body :: "normalized \<Rightarrow> frame \<Rightarrow> bytes result" where
  "encode_body nfc (Hello h) = encode_hello nfc h"
| "encode_body nfc (HelloAccept a) = encode_hello_accept nfc a"
| "encode_body nfc (GoAway reason detail _) = write_reason nfc reason detail"
| "encode_body nfc (HelloReject reason detail _) = write_reason nfc reason detail"
| "encode_body nfc (ResolveRequest _ name path) =
     w_seq [w_counted (system_name nfc name ProtocolValidationError),
            w_counted (actor_path nfc path ProtocolValidationError)]"
| "encode_body nfc (ResolveResponse _ system actor path) =
     w_seq [w_uuid system, w_uuid actor, w_counted (actor_path nfc path ProtocolValidationError)]"
| "encode_body nfc (ResolveRejected _ reason detail) =
     rbind (validate_frame_reason FT_RESOLVE_REJECTED reason ProtocolValidationError) (\<lambda>_.
       write_reason nfc reason detail)"
| "encode_body nfc (UserMessage m) = encode_user_message_body nfc m"
| "encode_body nfc (RecipientUnavailable a) =
     rbind (validate_frame_reason FT_RECIPIENT_UNAVAILABLE (av_reason a) ProtocolValidationError) (\<lambda>_.
       write_advisory nfc a)"
| "encode_body nfc (DeserializationRejected a) =
     rbind (validate_frame_reason FT_DESERIALIZATION_REJECTED (av_reason a) ProtocolValidationError)
       (\<lambda>_. write_advisory nfc a)"

abbreviation (input) USER_MESSAGE_FIXED_BODY_SIZE :: int where "USER_MESSAGE_FIXED_BODY_SIZE \<equiv> 84"
abbreviation (input) USER_MESSAGE_PREFIX_SIZE :: int where "USER_MESSAGE_PREFIX_SIZE \<equiv> 100"

definition encode_user_message_frame :: "normalized \<Rightarrow> user_message \<Rightarrow> int \<Rightarrow> bytes result" where
  "encode_user_message_frame nfc m maximum_frame_bytes =
     rbind (validate_correlation FT_USER_MESSAGE (um_correlation_id m) ProtocolValidationError) (\<lambda>_.
     rbind (uuid_nonzero (um_association_uid m) ProtocolValidationError) (\<lambda>association_uid.
     rbind (uint_field (um_lane_id m) MAX_U16 ProtocolValidationError 0) (\<lambda>lane_id.
     rbind (guard (lane_id \<noteq> CONTROL_LANE_ID) ProtocolValidationError) (\<lambda>_.
     rbind (uint_field (um_lane_sequence m) MAX_U64 ProtocolValidationError 0) (\<lambda>lane_sequence.
     rbind (uuid_nonzero (um_sender_incarnation_uid m) ProtocolValidationError) (\<lambda>sender_uid.
     rbind (uuid_nonzero (um_recipient_incarnation_uid m) ProtocolValidationError) (\<lambda>recipient_uid.
     rbind (uuid_nonzero (um_recipient_actor_uid m) ProtocolValidationError) (\<lambda>actor_uid.
     rbind (uint_field (um_serializer_id m) MAX_U32 ProtocolValidationError 0) (\<lambda>serializer_id.
     rbind (guard (serializer_id \<noteq> 0) ProtocolValidationError) (\<lambda>_.
     rbind (text_bytes nfc (um_manifest m) MAX_MANIFEST_BYTES ProtocolValidationError True) (\<lambda>manifest.
     rbind (uint_field (int (length (um_payload m))) MAX_U32 ProtocolValidationError 0) (\<lambda>payload_length.
     let total = USER_MESSAGE_PREFIX_SIZE + int (length manifest) + payload_length in
     rbind (effective_limit FT_USER_MESSAGE maximum_frame_bytes) (\<lambda>limit.
     rbind (guard (total \<le> limit) FrameTooLargeError) (\<lambda>_.
       Inr (be_bytes 4 (total - 4) @ be_bytes 1 (frame_type_value FT_USER_MESSAGE) @ be_bytes 1 0
            @ be_bytes 2 HEADER_VERSION @ be_bytes 8 0
            @ uuid_bytes association_uid @ be_bytes 2 lane_id @ be_bytes 8 lane_sequence
            @ uuid_bytes sender_uid @ uuid_bytes recipient_uid @ uuid_bytes actor_uid
            @ be_bytes 4 serializer_id @ be_bytes 2 (int (length manifest))
            @ be_bytes 4 payload_length @ manifest @ um_payload m)))))))))))))))"

definition read_system_name :: "normalized \<Rightarrow> pystr reader" where
  "read_system_name nfc =
     r_bind (r_string16 nfc 255 True) (\<lambda>value.
     r_bind (r_lift (system_name nfc value MalformedFrameError)) (\<lambda>_. r_return value))"

definition read_actor_path :: "normalized \<Rightarrow> pystr reader" where
  "read_actor_path nfc =
     r_bind (r_string16 nfc MAX_U16 True) (\<lambda>value.
     r_bind (r_lift (actor_path nfc value MalformedFrameError)) (\<lambda>_. r_return value))"

definition read_role :: "association_role reader" where
  "read_role = r_bind r_u8 (\<lambda>v.
     case association_role_of v of None \<Rightarrow> r_lift (Inl MalformedFrameError) | Some r \<Rightarrow> r_return r)"

definition read_descriptors :: "normalized \<Rightarrow> serializer_descriptor list reader" where
  "read_descriptors nfc = r_bind r_u16 (\<lambda>n. r_many (nat n) (read_descriptor nfc))"

definition decode_hello :: "normalized \<Rightarrow> int \<Rightarrow> hello reader" where
  "decode_hello nfc c =
     r_bind r_u16 (\<lambda>major.
     r_bind r_u16 (\<lambda>minor.
     r_bind read_role (\<lambda>role.
     r_bind (read_system_name nfc) (\<lambda>name.
     r_bind r_uuid (\<lambda>system_uid.
     r_bind r_uuid (\<lambda>association_uid.
     r_bind (r_string16 nfc MAX_U16 True) (\<lambda>host.
     r_bind r_u16 (\<lambda>port.
     r_bind read_limits (\<lambda>(max_frame, lanes, out_msgs, out_bytes, in_msgs, in_bytes).
     r_bind (read_descriptors nfc) (\<lambda>serializers.
     r_bind (r_check (distinct (map sd_serializer_id serializers)
                      \<and> distinct (map sd_name serializers))) (\<lambda>_.
     r_bind (read_capabilities nfc) (\<lambda>capabilities.
       r_return \<lparr>h_protocol_major = major, h_protocol_minor = minor, h_role = role,
         h_system_name = name, h_system_incarnation_uid = system_uid,
         h_association_uid = association_uid, h_endpoint_host = host, h_endpoint_port = port,
         h_maximum_frame_bytes = max_frame, h_lane_count = lanes,
         h_outbound_message_limit = out_msgs, h_outbound_byte_limit = out_bytes,
         h_inbound_message_limit = in_msgs, h_inbound_byte_limit = in_bytes,
         h_serializers = serializers, h_capabilities = capabilities,
         h_correlation_id = c\<rparr>))))))))))))"

definition decode_hello_accept :: "normalized \<Rightarrow> int \<Rightarrow> hello_accept reader" where
  "decode_hello_accept nfc c =
     r_bind r_uuid (\<lambda>association_uid.
     r_bind r_u16 (\<lambda>minor.
     r_bind read_limits (\<lambda>(max_frame, lanes, out_msgs, out_bytes, in_msgs, in_bytes).
     r_bind (read_routes nfc) (\<lambda>routes.
     r_bind (read_capabilities nfc) (\<lambda>capabilities.
       r_return \<lparr>a_association_uid = association_uid, a_protocol_minor = minor,
         a_maximum_frame_bytes = max_frame, a_lane_count = lanes,
         a_outbound_message_limit = out_msgs, a_outbound_byte_limit = out_bytes,
         a_inbound_message_limit = in_msgs, a_inbound_byte_limit = in_bytes,
         a_serializer_routes = routes, a_capabilities = capabilities,
         a_correlation_id = c\<rparr>)))))"

definition decode_user_message_body :: "normalized \<Rightarrow> int \<Rightarrow> user_message reader" where
  "decode_user_message_body nfc c =
     r_bind r_uuid (\<lambda>association_uid.
     r_bind r_u16 (\<lambda>lane_id.
     r_bind (r_check (lane_id \<noteq> CONTROL_LANE_ID)) (\<lambda>_.
     r_bind r_u64 (\<lambda>lane_sequence.
     r_bind r_uuid (\<lambda>sender_uid.
     r_bind r_uuid (\<lambda>recipient_uid.
     r_bind r_uuid (\<lambda>actor_uid.
     r_bind r_u32 (\<lambda>serializer_id.
     r_bind (r_check (serializer_id \<noteq> 0)) (\<lambda>_.
     r_bind r_u16 (\<lambda>manifest_length.
     r_bind (r_check (manifest_length \<le> MAX_MANIFEST_BYTES)) (\<lambda>_.
     r_bind r_u32 (\<lambda>payload_length.
     r_bind r_remaining (\<lambda>remaining.
     r_bind (r_check (manifest_length + payload_length = remaining)) (\<lambda>_.
     r_bind (r_raw manifest_length) (\<lambda>manifest_bytes.
     r_bind (r_text nfc MAX_MANIFEST_BYTES True manifest_bytes) (\<lambda>manifest.
     r_bind (r_raw payload_length) (\<lambda>payload.
       r_return \<lparr>um_association_uid = association_uid, um_lane_id = lane_id,
         um_lane_sequence = lane_sequence, um_sender_incarnation_uid = sender_uid,
         um_recipient_incarnation_uid = recipient_uid, um_recipient_actor_uid = actor_uid,
         um_serializer_id = serializer_id, um_manifest = manifest, um_payload = payload,
         um_correlation_id = c\<rparr>)))))))))))))))))"

fun decode_frame_fields :: "normalized \<Rightarrow> frame_type \<Rightarrow> int \<Rightarrow> frame reader" where
  "decode_frame_fields nfc FT_HELLO c = r_bind (decode_hello nfc c) (\<lambda>h. r_return (Hello h))"
| "decode_frame_fields nfc FT_HELLO_ACCEPT c =
     r_bind (decode_hello_accept nfc c) (\<lambda>a. r_return (HelloAccept a))"
| "decode_frame_fields nfc FT_GOAWAY c =
     r_bind (read_reason nfc) (\<lambda>(reason, detail). r_return (GoAway reason detail c))"
| "decode_frame_fields nfc FT_HELLO_REJECT c =
     r_bind (read_reason nfc) (\<lambda>(reason, detail). r_return (HelloReject reason detail c))"
| "decode_frame_fields nfc FT_RESOLVE_REQUEST c =
     r_bind (read_system_name nfc) (\<lambda>name.
     r_bind (read_actor_path nfc) (\<lambda>path. r_return (ResolveRequest c name path)))"
| "decode_frame_fields nfc FT_RESOLVE_RESPONSE c =
     r_bind r_uuid (\<lambda>system.
     r_bind r_uuid (\<lambda>actor.
     r_bind (read_actor_path nfc) (\<lambda>path. r_return (ResolveResponse c system actor path))))"
| "decode_frame_fields nfc FT_RESOLVE_REJECTED c =
     r_bind (read_reason nfc) (\<lambda>(reason, detail).
     r_bind (r_lift (validate_frame_reason FT_RESOLVE_REJECTED reason MalformedFrameError)) (\<lambda>_.
       r_return (ResolveRejected c reason detail)))"
| "decode_frame_fields nfc FT_USER_MESSAGE c =
     r_bind (decode_user_message_body nfc c) (\<lambda>m. r_return (UserMessage m))"
| "decode_frame_fields nfc FT_RECIPIENT_UNAVAILABLE c =
     r_bind (read_advisory nfc c) (\<lambda>a.
     r_bind (r_lift (validate_frame_reason FT_RECIPIENT_UNAVAILABLE (av_reason a)
                       MalformedFrameError)) (\<lambda>_.
       r_return (RecipientUnavailable a)))"
| "decode_frame_fields nfc FT_DESERIALIZATION_REJECTED c =
     r_bind (read_advisory nfc c) (\<lambda>a.
     r_bind (r_lift (validate_frame_reason FT_DESERIALIZATION_REJECTED (av_reason a)
                       MalformedFrameError)) (\<lambda>_.
       r_return (DeserializationRejected a)))"

definition decode_body :: "normalized \<Rightarrow> frame_header \<Rightarrow> bytes \<Rightarrow> frame result" where
  "decode_body nfc header body =
     rbind (r_bind (decode_frame_fields nfc (fh_frame_type header) (fh_correlation_id header))
              (\<lambda>frame. r_bind r_finish (\<lambda>_. r_return frame)) body)
       (\<lambda>(frame, _). Inr frame)"

definition decode_user_message_frame ::
  "normalized \<Rightarrow> bytes \<Rightarrow> frame_header \<Rightarrow> user_message result"
where
  "decode_user_message_frame nfc data header =
     (let body = drop 16 data in
      rbind (guard (int (length body) \<ge> USER_MESSAGE_FIXED_BODY_SIZE) MalformedFrameError) (\<lambda>_.
      let lane_id = be_int (take 2 (drop 16 body));
          lane_sequence = be_int (take 8 (drop 18 body));
          serializer_id = be_int (take 4 (drop 74 body));
          manifest_length = be_int (take 2 (drop 78 body));
          payload_length = be_int (take 4 (drop 80 body)) in
      rbind (uuid_nonzero (uuid_of_bytes (take 16 body)) MalformedFrameError) (\<lambda>association_uid.
      rbind (guard (lane_id \<noteq> CONTROL_LANE_ID) MalformedFrameError) (\<lambda>_.
      rbind (uuid_nonzero (uuid_of_bytes (take 16 (drop 26 body))) MalformedFrameError) (\<lambda>sender_uid.
      rbind (uuid_nonzero (uuid_of_bytes (take 16 (drop 42 body))) MalformedFrameError) (\<lambda>recipient_uid.
      rbind (uuid_nonzero (uuid_of_bytes (take 16 (drop 58 body))) MalformedFrameError) (\<lambda>actor_uid.
      rbind (guard (serializer_id \<noteq> 0) MalformedFrameError) (\<lambda>_.
      rbind (guard (manifest_length \<le> MAX_MANIFEST_BYTES) MalformedFrameError) (\<lambda>_.
      rbind (guard (USER_MESSAGE_FIXED_BODY_SIZE + manifest_length + payload_length
                    = body_length header) MalformedFrameError) (\<lambda>_.
      let manifest_start = 100;
          manifest_end = manifest_start + nat manifest_length;
          manifest_bytes = take (nat manifest_length) (drop manifest_start data) in
      case utf8_decode manifest_bytes of
        None \<Rightarrow> Inl MalformedFrameError
      | Some manifest \<Rightarrow>
          rbind (text_bytes nfc manifest MAX_MANIFEST_BYTES MalformedFrameError True) (\<lambda>_.
            Inr \<lparr>um_association_uid = association_uid, um_lane_id = lane_id,
              um_lane_sequence = lane_sequence, um_sender_incarnation_uid = sender_uid,
              um_recipient_incarnation_uid = recipient_uid, um_recipient_actor_uid = actor_uid,
              um_serializer_id = serializer_id, um_manifest = manifest,
              um_payload = drop manifest_end data,
              um_correlation_id = fh_correlation_id header\<rparr>)))))))))))"

section \<open>Whole frames\<close>

definition encode_frame :: "normalized \<Rightarrow> frame \<Rightarrow> int \<Rightarrow> stream_kind option \<Rightarrow> bytes result" where
  "encode_frame nfc frame maximum_frame_bytes kind =
     rbind (validate_stream (frame_type_for frame) kind) (\<lambda>_.
     case frame of
       UserMessage m \<Rightarrow> encode_user_message_frame nfc m maximum_frame_bytes
     | _ \<Rightarrow>
         rbind (encode_body nfc frame) (\<lambda>body.
         rbind (encode_common_header (frame_type_for frame) (int (length body))
                  (correlation_id frame) maximum_frame_bytes) (\<lambda>header.
           Inr (header @ body))))"

definition decode_frame :: "normalized \<Rightarrow> bytes \<Rightarrow> int \<Rightarrow> stream_kind option \<Rightarrow> frame result" where
  "decode_frame nfc data maximum_frame_bytes kind =
     rbind (decode_common_header data maximum_frame_bytes) (\<lambda>header.
     rbind (validate_stream (fh_frame_type header) kind) (\<lambda>_.
     rbind (guard (int (length data) \<ge> total_length header) MalformedFrameError) (\<lambda>_.
     rbind (guard (int (length data) \<le> total_length header) MalformedFrameError) (\<lambda>_.
     if fh_frame_type header = FT_USER_MESSAGE
     then rbind (decode_user_message_frame nfc data header) (\<lambda>m. Inr (UserMessage m))
     else decode_body nfc header (drop 16 data)))))"

section \<open>Capabilities\<close>

definition negotiate_capabilities :: "normalized \<Rightarrow> pystr list \<Rightarrow> pystr list \<Rightarrow> pystr list result" where
  "negotiate_capabilities nfc first second =
     rbind (w_seq (map (check_capability nfc) (first @ second))) (\<lambda>_.
       Inr (sort_key utf8_key [c \<leftarrow> remdups first. c \<in> set second]))"

end
