(* ===== verification/Wire_Roundtrip.thy ===== *)
theory Wire_Roundtrip
  imports Wire_Frames
begin

text \<open>
  Correctness of the frame codec: every group of fields is a codec in the sense of the locale, the
  specialised user-message routines agree with the generic ones, decoding inverts encoding, and for
  every frame but \<^verbatim>\<open>HELLO\<close> the decoder accepts only what the encoder produces.
\<close>

section \<open>Groups of fields are codecs\<close>

interpretation manifests: canonical_codec always "write_manifests nfc" "read_manifests nfc" for nfc
proof
  show "read_manifests nfc (b @ rest) = Inr (ms, rest)" if "write_manifests nfc ms = Inr b" for ms b rest
    using that string16.many_dec_enc [of ms]
    by (auto simp: write_manifests_def read_manifests_def result_simps codec_rt w_explicit list_all_iff)
  show "True \<and> (\<exists>b. write_manifests nfc ms = Inr b \<and> bs = b @ rest)"
    if "read_manifests nfc bs = Inr (ms, rest)" for bs ms rest
    using that
    by (auto simp: write_manifests_def read_manifests_def result_simps codec_can w_explicit
        string16.many_dec_iff)
qed

lemma read_manifests_Inr [codec_can]:
  "read_manifests nfc bs = Inr (ms, rest) \<longleftrightarrow>
     (\<exists>b. write_manifests nfc ms = Inr b \<and> bs = b @ rest)"
  by (simp add: manifests.dec_iff)

lemma read_manifests_run [codec_rt]:
  "write_manifests nfc ms = Inr b \<Longrightarrow> read_manifests nfc (b @ rest) = Inr (ms, rest)"
  by (rule manifests.dec_enc) simp_all

lemma sorted_manifests_simps [simp]:
  "distinct (sorted_manifests s)" "fset_of_list (sorted_manifests s) = s"
  "set (sorted_manifests s) = fset s"
proof -
  show set: "set (sorted_manifests s) = fset s" by (simp add: sorted_manifests_def)
  show "distinct (sorted_manifests s)"
    by (simp add: sorted_manifests_def sorted_list_of_fset.rep_eq)
  show "fset_of_list (sorted_manifests s) = s"
    by (rule fset_inject [THEN iffD1]) (simp add: fset_of_list.rep_eq set)
qed

lemma malformed_if_registry_error_simps [simp]:
  "malformed_if_registry_error (Inr x) = Inr x"
  "malformed_if_registry_error m = Inr x \<longleftrightarrow> m = Inr x"
  by (auto simp: malformed_if_registry_error_def split: sum.splits exn.splits)

lemma serializer_descriptor_init_fields:
  "valid_descriptor nfc d \<Longrightarrow>
     serializer_descriptor_init nfc (sd_serializer_id d) (sd_name d) (sd_protocol_major d)
       (sd_protocol_minor d) (sd_readable_manifests d) (sd_writable_manifests d) = Inr d"
  by (simp add: serializer_descriptor_init_Inr)

interpretation descriptor: codec "valid_descriptor nfc" "write_descriptor nfc" "read_descriptor nfc"
  for nfc
  by unfold_locales
    (auto simp: write_descriptor_def read_descriptor_def result_simps codec_rt w_explicit
      serializer_descriptor_init_fields)

lemma read_descriptor_valid:
  "read_descriptor nfc bs = Inr (d, rest) \<Longrightarrow> valid_descriptor nfc d"
  by (auto simp: read_descriptor_def codec_can serializer_descriptor_init_Inr)

lemma read_limits_Inr [codec_can]:
  "read_limits bs = Inr ((m, l, om, ob, im, ib), rest) \<longleftrightarrow>
     (\<exists>b. write_limits m l om ob im ib = Inr b \<and> bs = b @ rest)"
proof
  assume "read_limits bs = Inr ((m, l, om, ob, im, ib), rest)"
  then show "\<exists>b. write_limits m l om ob im ib = Inr b \<and> bs = b @ rest"
    by (auto simp: read_limits_def write_limits_def result_simps codec_can w_explicit)
next
  assume "\<exists>b. write_limits m l om ob im ib = Inr b \<and> bs = b @ rest"
  then show "read_limits bs = Inr ((m, l, om, ob, im, ib), rest)"
    by (auto simp: read_limits_def write_limits_def result_simps codec_rt w_explicit)
qed

lemma read_limits_run [codec_rt]:
  "write_limits m l om ob im ib = Inr b
     \<Longrightarrow> read_limits (b @ rest) = Inr ((m, l, om, ob, im, ib), rest)"
  by (simp add: read_limits_Inr)

lemma map_check_capability:
  "w_seq (map (check_capability nfc) cs) = Inr b \<longleftrightarrow>
     b = [] \<and> (\<forall>c \<in> set cs. \<exists>e. text_bytes nfc c MAX_U16 ProtocolValidationError True = Inr e)"
  by (induction cs arbitrary: b) (auto simp: result_simps check_capability_def)

lemma map_string16_texts:
  "w_seq (map (w_string16 nfc MAX_U16 True) cs) = Inr b \<Longrightarrow> c \<in> set cs
     \<Longrightarrow> \<exists>e. text_bytes nfc c MAX_U16 ProtocolValidationError True = Inr e"
  by (induction cs arbitrary: b) (auto simp: result_simps w_string16_def w_counted_Inr)

lemma write_capabilities_Inr:
  "write_capabilities nfc cs = Inr b \<longleftrightarrow>
     distinct cs \<and> w_seq (w_u16 (int (length cs)) # map (w_string16 nfc MAX_U16 True) cs) = Inr b"
  by (auto simp: write_capabilities_def result_simps map_check_capability w_explicit
      dest: map_string16_texts)

interpretation capabilities: canonical_codec always "write_capabilities nfc" "read_capabilities nfc"
  for nfc
proof
  show "read_capabilities nfc (b @ rest) = Inr (cs, rest)" if "write_capabilities nfc cs = Inr b" for cs b rest
    using that string16.many_dec_enc [of cs]
    by (auto simp: write_capabilities_Inr read_capabilities_def result_simps codec_rt w_explicit
        list_all_iff)
  show "True \<and> (\<exists>b. write_capabilities nfc cs = Inr b \<and> bs = b @ rest)"
    if "read_capabilities nfc bs = Inr (cs, rest)" for bs cs rest
    using that
    by (auto simp: write_capabilities_Inr read_capabilities_def result_simps codec_can w_explicit
        string16.many_dec_iff)
qed

lemma serializer_route_init_valid:
  "valid_route nfc r \<Longrightarrow>
     serializer_route_init nfc (sr_origin_incarnation_uid r) (sr_serializer_id r) (sr_manifests r) = Inr r"
  by (auto simp: serializer_route_init_Inr valid_route_def sort_key_id_if_sorted)

interpretation route: canonical_codec "valid_route nfc" "write_route nfc" "read_route nfc" for nfc
proof
  fix r b rest
  assume r: "valid_route nfc r" "write_route nfc r = Inr b"
  then have "sort_key utf8_key (remdups (sr_manifests r)) = sr_manifests r" "sr_manifests r \<noteq> []"
    by (auto simp: valid_route_def distinct_remdups_id sort_key_id_if_sorted)
  with r show "read_route nfc (b @ rest) = Inr (r, rest)"
    by (auto simp: read_route_def write_route_def result_simps codec_rt w_explicit
        serializer_route_init_valid)
next
  fix bs r rest
  assume "read_route nfc bs = Inr (r, rest)"
  then obtain origin sid ms b where
    ms: "origin \<noteq> 0" "0 \<le> sid" "sid \<le> MAX_U32" "write_manifests nfc ms = Inr b"
    "bs = uuid_bytes origin @ be_bytes 4 sid @ b @ rest"
    "ms = sort_key utf8_key (remdups ms)" "serializer_route_init nfc origin sid ms = Inr r"
    by (auto simp: read_route_def codec_can)
  then have r: "distinct ms" "valid_route nfc r" "r = \<lparr>sr_origin_incarnation_uid = origin,
      sr_serializer_id = sid, sr_manifests = sort_key utf8_key ms\<rparr>"
    by (auto simp: serializer_route_init_Inr)
  then have "sort_key utf8_key ms = ms" using ms(6) by (simp add: distinct_remdups_id)
  with r ms show "valid_route nfc r \<and> (\<exists>b. write_route nfc r = Inr b \<and> bs = b @ rest)"
    by (simp add: write_route_def result_simps w_explicit)
qed

interpretation routes: canonical_codec "list_all (valid_route nfc)" "write_routes nfc" "read_routes nfc"
  for nfc
proof
  show "read_routes nfc (b @ rest) = Inr (rs, rest)"
    if "list_all (valid_route nfc) rs" "write_routes nfc rs = Inr b" for rs b rest
    using that route.many_dec_enc [of nfc rs]
    by (auto simp: write_routes_def read_routes_def result_simps codec_rt w_explicit)
  show "list_all (valid_route nfc) rs \<and> (\<exists>b. write_routes nfc rs = Inr b \<and> bs = b @ rest)"
    if "read_routes nfc bs = Inr (rs, rest)" for bs rs rest
    using that
    by (auto simp: write_routes_def read_routes_def result_simps codec_can w_explicit
        route.many_dec_iff)
qed

lemma read_reason_Inr [codec_can]:
  "read_reason nfc bs = Inr ((reason, detail), rest) \<longleftrightarrow>
     (\<exists>b. write_reason nfc reason detail = Inr b \<and> bs = b @ rest)"
proof
  assume "read_reason nfc bs = Inr ((reason, detail), rest)"
  then show "\<exists>b. write_reason nfc reason detail = Inr b \<and> bs = b @ rest"
    by (auto simp: read_reason_def write_reason_def result_simps codec_can w_explicit
        reason_code.of_value_iff split: option.splits)
next
  assume "\<exists>b. write_reason nfc reason detail = Inr b \<and> bs = b @ rest"
  then show "read_reason nfc bs = Inr ((reason, detail), rest)"
    by (auto simp: read_reason_def write_reason_def result_simps codec_rt w_explicit
        reason_code.of_value_value)
qed

lemma read_reason_run [codec_rt]:
  "write_reason nfc reason detail = Inr b \<Longrightarrow> read_reason nfc (b @ rest) = Inr ((reason, detail), rest)"
  by (simp add: read_reason_Inr)

lemma read_advisory_Inr [codec_can]:
  "read_advisory nfc c bs = Inr (a, rest) \<longleftrightarrow>
     av_correlation_id a = c \<and> (\<exists>b. write_advisory nfc a = Inr b \<and> bs = b @ rest)"
proof
  assume "read_advisory nfc c bs = Inr (a, rest)"
  then show "av_correlation_id a = c \<and> (\<exists>b. write_advisory nfc a = Inr b \<and> bs = b @ rest)"
    by (auto simp: read_advisory_def write_advisory_def result_simps codec_can w_explicit)
next
  assume "av_correlation_id a = c \<and> (\<exists>b. write_advisory nfc a = Inr b \<and> bs = b @ rest)"
  then show "read_advisory nfc c bs = Inr (a, rest)"
    by (auto simp: read_advisory_def write_advisory_def result_simps codec_rt w_explicit)
qed

text \<open>
  Names and paths are written as counted validated text and read as a string that is validated
  afterwards; both come down to the same bytes.
\<close>

lemma counted_text_read:
  assumes "\<And>s b. check s = Inr b \<Longrightarrow> text_bytes nfc s maximum ProtocolValidationError True = Inr b"
    and "\<And>s b. check' s = Inr b \<longleftrightarrow> check s = Inr b" and "maximum \<le> MAX_U16"
  shows "r_bind (r_string16 nfc maximum True) (\<lambda>v. r_bind (r_lift (check' v)) (\<lambda>_. r_return v)) bs
      = Inr (s, rest) \<longleftrightarrow> (\<exists>b. w_counted (check s) = Inr b \<and> bs = b @ rest)"
proof -
  have "w_string16 nfc maximum True s = Inr b \<and> (\<exists>e. check s = Inr e) \<longleftrightarrow> w_counted (check s) = Inr b" for b
    using assms(1) [of s] assms(3)
    by (cases "check s") (auto simp: w_string16_def w_counted_Inr min_def)
  then show ?thesis using assms(2) by (auto simp: codec_can)
qed

lemma read_system_name_Inr [codec_can]:
  "read_system_name nfc bs = Inr (s, rest) \<longleftrightarrow>
     (\<exists>b. w_counted (system_name nfc s ProtocolValidationError) = Inr b \<and> bs = b @ rest)"
  unfolding read_system_name_def
  by (rule counted_text_read) (simp_all add: system_nameD system_name_err [of _ _ MalformedFrameError])

lemma read_actor_path_Inr [codec_can]:
  "read_actor_path nfc bs = Inr (s, rest) \<longleftrightarrow>
     (\<exists>b. w_counted (actor_path nfc s ProtocolValidationError) = Inr b \<and> bs = b @ rest)"
  unfolding read_actor_path_def
  by (rule counted_text_read) (simp_all add: actor_pathD actor_path_err [of _ _ MalformedFrameError])

lemma read_role_Inr [codec_can]:
  "read_role bs = Inr (r, rest) \<longleftrightarrow> bs = be_bytes 1 (association_role_value r) @ rest"
proof
  show "read_role bs = Inr (r, rest) \<Longrightarrow> bs = be_bytes 1 (association_role_value r) @ rest"
    by (auto simp: read_role_def codec_can association_role.of_value_iff split: option.splits)
  show "bs = be_bytes 1 (association_role_value r) @ rest \<Longrightarrow> read_role bs = Inr (r, rest)"
    using r_unsigned_run(1) [of "association_role_value r" rest]
    by (cases r) (simp_all add: read_role_def codec_rt association_role_of_def)
qed

end
