(* ===== verification/Wire_Codec.thy ===== *)
theory Wire_Codec
  imports Wire_Roundtrip
begin

text \<open>
  Correctness of \<^verbatim>\<open>encode_frame\<close> and \<^verbatim>\<open>decode_frame\<close> as a whole. The bodies of the frames are codecs,
  the header and the preamble are codecs, the specialised routines for user messages agree with the
  generic ones, and the frame codec inherits both directions.
\<close>

section \<open>Frame bodies\<close>

lemma write_descriptors_run:
  assumes "list_all (valid_descriptor nfc) ds" "w_seq (map (write_descriptor nfc) ds) = Inr b"
    "int (length ds) \<le> MAX_U16"
  shows "read_descriptors nfc (be_bytes 2 (int (length ds)) @ b @ rest) = Inr (ds, rest)"
  using assms(3) descriptor.many_dec_enc [OF assms(1,2), of rest]
  by (simp add: read_descriptors_def codec_rt)

lemma w_counted_system_name_run [codec_rt]:
  "w_counted (system_name nfc s ProtocolValidationError) = Inr b
     \<Longrightarrow> read_system_name nfc (b @ rest) = Inr (s, rest)"
  by (simp add: read_system_name_Inr)

lemma w_counted_actor_path_run [codec_rt]:
  "w_counted (actor_path nfc s ProtocolValidationError) = Inr b
     \<Longrightarrow> read_actor_path nfc (b @ rest) = Inr (s, rest)"
  by (simp add: read_actor_path_Inr)

lemma read_role_run [codec_rt]:
  "read_role (word_of_int (association_role_value r) # rest) = Inr (r, rest)"
  by (simp add: read_role_Inr)

lemma capabilities_run [codec_rt]:
  "write_capabilities nfc cs = Inr b \<Longrightarrow> read_capabilities nfc (b @ rest) = Inr (cs, rest)"
  by (rule capabilities.dec_enc) simp_all

lemma routes_run [codec_rt]:
  "list_all (valid_route nfc) rs \<Longrightarrow> write_routes nfc rs = Inr b
     \<Longrightarrow> read_routes nfc (b @ rest) = Inr (rs, rest)"
  by (rule routes.dec_enc)

interpretation hello_body: codec
    "\<lambda>h. list_all (valid_descriptor nfc) (h_serializers h) \<and> h_correlation_id h = c"
    "encode_hello nfc" "decode_hello nfc c" for nfc c
proof
  fix h b rest
  assume wf: "list_all (valid_descriptor nfc) (h_serializers h) \<and> h_correlation_id h = c"
    and enc: "encode_hello nfc h = Inr b"
  show "decode_hello nfc c (b @ rest) = Inr (h, rest)"
    using wf enc
    by (auto simp: encode_hello_def decode_hello_def result_simps w_explicit
        codec_rt write_descriptors_run)
qed

interpretation hello_accept_body: canonical_codec
    "\<lambda>a. list_all (valid_route nfc) (a_serializer_routes a) \<and> a_correlation_id a = c"
    "encode_hello_accept nfc" "decode_hello_accept nfc c" for nfc c
proof
  fix a b rest
  assume "list_all (valid_route nfc) (a_serializer_routes a) \<and> a_correlation_id a = c"
    "encode_hello_accept nfc a = Inr b"
  then show "decode_hello_accept nfc c (b @ rest) = Inr (a, rest)"
    by (auto simp: encode_hello_accept_def decode_hello_accept_def result_simps w_explicit codec_rt)
next
  fix a bs rest
  assume "decode_hello_accept nfc c bs = Inr (a, rest)"
  then show "(list_all (valid_route nfc) (a_serializer_routes a) \<and> a_correlation_id a = c)
      \<and> (\<exists>b. encode_hello_accept nfc a = Inr b \<and> bs = b @ rest)"
    by (auto simp: encode_hello_accept_def decode_hello_accept_def result_simps w_explicit codec_can
        capabilities.dec_iff routes.dec_iff)
qed

text \<open>
  The body of a user message runs to the end of the frame: the two lengths must add up to what is
  left, so it is read with nothing behind it.
\<close>

definition user_message_prefix :: "user_message \<Rightarrow> bytes" where
  "user_message_prefix m = uuid_bytes (um_association_uid m) @ be_bytes 2 (um_lane_id m)
     @ be_bytes 8 (um_lane_sequence m) @ uuid_bytes (um_sender_incarnation_uid m)
     @ uuid_bytes (um_recipient_incarnation_uid m) @ uuid_bytes (um_recipient_actor_uid m)
     @ be_bytes 4 (um_serializer_id m)"

definition user_message_ok :: "normalized \<Rightarrow> user_message \<Rightarrow> bytes \<Rightarrow> bool" where
  "user_message_ok nfc m e \<longleftrightarrow> um_association_uid m \<noteq> 0 \<and> 0 \<le> um_lane_id m
     \<and> um_lane_id m < MAX_U16 \<and> 0 \<le> um_lane_sequence m \<and> um_lane_sequence m \<le> MAX_U64
     \<and> um_sender_incarnation_uid m \<noteq> 0 \<and> um_recipient_incarnation_uid m \<noteq> 0
     \<and> um_recipient_actor_uid m \<noteq> 0 \<and> 0 < um_serializer_id m \<and> um_serializer_id m \<le> MAX_U32
     \<and> text_bytes nfc (um_manifest m) MAX_MANIFEST_BYTES ProtocolValidationError True = Inr e
     \<and> int (length (um_payload m)) \<le> MAX_U32"

definition user_message_bytes :: "user_message \<Rightarrow> bytes \<Rightarrow> bytes" where
  "user_message_bytes m e = user_message_prefix m @ be_bytes 2 (int (length e))
     @ be_bytes 4 (int (length (um_payload m))) @ e @ um_payload m"

lemma encode_user_message_body_Inr:
  "encode_user_message_body nfc m = Inr b \<longleftrightarrow>
     (\<exists>e. user_message_ok nfc m e \<and> b = user_message_bytes m e)"
  by (auto simp: encode_user_message_body_def user_message_ok_def user_message_bytes_def
      user_message_prefix_def result_simps w_explicit text_bytes_Inr)

lemma decode_user_message_body_Inr:
  "decode_user_message_body nfc c bs = Inr (m, []) \<longleftrightarrow>
     um_correlation_id m = c \<and> encode_user_message_body nfc m = Inr bs"
proof
  assume "decode_user_message_body nfc c bs = Inr (m, [])"
  then show "um_correlation_id m = c \<and> encode_user_message_body nfc m = Inr bs"
    by (auto simp: decode_user_message_body_def encode_user_message_body_Inr user_message_ok_def
      user_message_bytes_def user_message_prefix_def codec_can r_text_Inr r_raw_def r_take_Inr
      text_bytes_Inr)
next
  assume r: "um_correlation_id m = c \<and> encode_user_message_body nfc m = Inr bs"
  then obtain e where e: "user_message_ok nfc m e" "bs = user_message_bytes m e"
    by (auto simp: encode_user_message_body_Inr)
  then have "r_text nfc MAX_MANIFEST_BYTES True e x = Inr (um_manifest m, x)" for x
    by (simp add: r_text_Inr user_message_ok_def text_bytes_Inr)
  moreover have "int (length e) \<le> MAX_MANIFEST_BYTES"
    using e(1) by (simp add: user_message_ok_def text_bytes_Inr)
  moreover have "r_raw (int (length x)) x = Inr (x, [])" for x
    using r_raw_run [of x "[]"] by simp
  ultimately show "decode_user_message_body nfc c bs = Inr (m, [])"
    using r e
    by (simp add: decode_user_message_body_def user_message_ok_def user_message_bytes_def
        user_message_prefix_def codec_rt)
qed

section \<open>Bodies of all frames\<close>

text \<open>What the constructors of \<^verbatim>\<open>SerializerDescriptor\<close> and \<^verbatim>\<open>SerializerRoute\<close> guarantee of a frame.\<close>

fun wf_frame :: "normalized \<Rightarrow> frame \<Rightarrow> bool" where
  "wf_frame nfc (Hello h) = list_all (valid_descriptor nfc) (h_serializers h)"
| "wf_frame nfc (HelloAccept a) = list_all (valid_route nfc) (a_serializer_routes a)"
| "wf_frame nfc _ = True"

fun is_hello :: "frame \<Rightarrow> bool" where
  "is_hello (Hello _) = True"
| "is_hello _ = False"

lemma validate_frame_reason_Inr:
  "validate_frame_reason t reason err = Inr u \<longleftrightarrow>
     (case frame_reason_codes t of None \<Rightarrow> True | Some allowed \<Rightarrow> reason \<in> allowed)"
  by (auto simp: validate_frame_reason_def split: option.splits)

lemma read_advisory_run [codec_rt]:
  "write_advisory nfc a = Inr b
     \<Longrightarrow> read_advisory nfc (av_correlation_id a) (b @ rest) = Inr (a, rest)"
  by (simp add: read_advisory_Inr)

lemma decode_body_Inr_iff:
  "decode_body nfc h b = Inr f \<longleftrightarrow>
     decode_frame_fields nfc (fh_frame_type h) (fh_correlation_id h) b = Inr (f, [])"
  by (auto simp: decode_body_def result_simps codec_can)

lemma decode_body_encode_body:
  assumes "wf_frame nfc f" "encode_body nfc f = Inr b"
    "fh_frame_type h = frame_type_for f" "fh_correlation_id h = correlation_id f"
  shows "decode_body nfc h b = Inr f"
proof (cases "\<exists>m. f = UserMessage m")
  case True
  with assms show ?thesis
    by (auto simp: decode_body_Inr_iff codec_can decode_user_message_body_Inr)
next
  case False
  then have "decode_frame_fields nfc (frame_type_for f) (correlation_id f) (b @ []) = Inr (f, [])"
    using assms(1,2)
    by (cases f) (auto simp del: append_Nil2 simp: result_simps codec_rt w_explicit hello_body.dec_enc
        hello_accept_body.dec_enc validate_frame_reason_Inr)
  with assms show ?thesis by (simp add: decode_body_Inr_iff)
qed

lemma encode_body_decode_body:
  assumes "decode_body nfc h b = Inr f"
  shows "frame_type_for f = fh_frame_type h" "correlation_id f = fh_correlation_id h"
    "\<not> is_hello f \<Longrightarrow> wf_frame nfc f \<and> encode_body nfc f = Inr b"
proof -
  have "frame_type_for f = fh_frame_type h \<and> correlation_id f = fh_correlation_id h
    \<and> (\<not> is_hello f \<longrightarrow> wf_frame nfc f \<and> encode_body nfc f = Inr b)"
    using assms
    by (cases "fh_frame_type h")
      (auto simp: decode_body_Inr_iff codec_can decode_user_message_body_Inr
        hello_accept_body.dec_iff validate_frame_reason_Inr result_simps w_explicit decode_hello_def)
  then show "frame_type_for f = fh_frame_type h" "correlation_id f = fh_correlation_id h"
    "\<not> is_hello f \<Longrightarrow> wf_frame nfc f \<and> encode_body nfc f = Inr b" by blast+
qed

section \<open>Headers\<close>

definition header_ok :: "frame_type \<Rightarrow> int \<Rightarrow> int \<Rightarrow> int \<Rightarrow> bool" where
  "header_ok t n c maximum \<longleftrightarrow> 0 \<le> n \<and> n \<le> MAX_U32 - HEADER_AFTER_LENGTH_SIZE
     \<and> 0 \<le> c \<and> c \<le> MAX_U64 \<and> (zero_correlation_type t \<longleftrightarrow> c = 0)
     \<and> COMMON_HEADER_SIZE \<le> maximum \<and> maximum \<le> MAX_U32 \<and> n + COMMON_HEADER_SIZE \<le> maximum
     \<and> (bootstrap_frame_type t \<longrightarrow> n + COMMON_HEADER_SIZE \<le> BOOTSTRAP_MAX_FRAME_BYTES)"

definition header_bytes :: "frame_type \<Rightarrow> int \<Rightarrow> int \<Rightarrow> bytes" where
  "header_bytes t n c = be_bytes 4 (HEADER_AFTER_LENGTH_SIZE + n) @ be_bytes 1 (frame_type_value t)
     @ be_bytes 1 0 @ be_bytes 2 HEADER_VERSION @ be_bytes 8 c"

definition header_of :: "frame_type \<Rightarrow> int \<Rightarrow> int \<Rightarrow> frame_header" where
  "header_of t n c = \<lparr>fh_frame_length = HEADER_AFTER_LENGTH_SIZE + n, fh_frame_type = t,
     fh_flags = 0, fh_header_version = HEADER_VERSION, fh_correlation_id = c\<rparr>"

lemma header_of_simps [simp]:
  "fh_frame_type (header_of t n c) = t" "fh_correlation_id (header_of t n c) = c"
  "body_length (header_of t n c) = n" "total_length (header_of t n c) = n + 16"
  by (simp_all add: header_of_def body_length_def total_length_def)

lemma length_header_bytes [simp]: "length (header_bytes t n c) = 16"
  by (simp add: header_bytes_def)

lemma validate_correlation_Inr:
  "validate_correlation t c err = Inr u \<longleftrightarrow>
     0 \<le> c \<and> c \<le> MAX_U64 \<and> (zero_correlation_type t \<longleftrightarrow> c = 0)"
  by (auto simp: validate_correlation_def result_simps)

lemma effective_limit_Inr:
  "effective_limit t maximum = Inr limit \<longleftrightarrow> COMMON_HEADER_SIZE \<le> maximum \<and> maximum \<le> MAX_U32
     \<and> limit = (if bootstrap_frame_type t then min maximum BOOTSTRAP_MAX_FRAME_BYTES else maximum)"
  by (auto simp: effective_limit_def result_simps)

lemma encode_common_header_Inr:
  "encode_common_header t n c maximum = Inr h \<longleftrightarrow> header_ok t n c maximum \<and> h = header_bytes t n c"
  by (auto simp: encode_common_header_def header_ok_def header_bytes_def result_simps Let_def
      validate_correlation_Inr effective_limit_Inr)

lemma header_split:
  assumes "16 \<le> length data"
  shows "data = take 4 data @ take 1 (drop 4 data) @ take 1 (drop 5 data) @ take 2 (drop 6 data)
    @ take 8 (drop 8 data) @ drop 16 data"
proof -
  have "take n (drop k data) @ drop (n + k) data = drop k data" for n k
    by (metis add.commute append_take_drop_id drop_drop)
  from this [of 8 8] this [of 2 6] this [of 1 5] this [of 1 4] show ?thesis by simp
qed

lemma take_be_bytes:
  "n \<le> length xs \<Longrightarrow> take n xs = be_bytes n (be_int (take n xs))"
  using be_bytes_be_int [of "take n xs"] by (simp add: min_absorb2)

lemma decode_common_header_Inr:
  "decode_common_header data maximum = Inr h \<longleftrightarrow>
     (\<exists>t n c rest. header_ok t n c maximum \<and> data = header_bytes t n c @ rest \<and> h = header_of t n c)"
proof
  assume dec: "decode_common_header data maximum = Inr h"
  define len c where "len = be_int (take 4 data)" and "c = be_int (take 8 (drop 8 data))"
  obtain t where t: "frame_type_of (be_int (take 1 (drop 4 data))) = Some t"
    using dec by (auto simp: decode_common_header_def result_simps Let_def split: option.splits)
  from dec t have facts: "16 \<le> length data" "be_int (take 1 (drop 5 data)) = 0"
      "be_int (take 2 (drop 6 data)) = 1" "h = header_of t (len - 12) c"
      "header_ok t (len - 12) c maximum"
    by (auto simp: decode_common_header_def result_simps Let_def validate_correlation_Inr
        effective_limit_Inr header_of_def header_ok_def len_def c_def)
  have type: "be_int (take 1 (drop 4 data)) = frame_type_value t"
    using t by (simp add: frame_type.of_value_iff)
  have "take 4 data = be_bytes 4 (12 + (len - 12))" "take 8 (drop 8 data) = be_bytes 8 c"
      "take 1 (drop 4 data) = be_bytes 1 (frame_type_value t)"
      "take 1 (drop 5 data) = be_bytes 1 0" "take 2 (drop 6 data) = be_bytes 2 1"
    using facts(1) unfolding type [symmetric] facts(2,3) [symmetric] len_def c_def
    by (simp_all only: diff_add_cancel add.commute [of 12] ) (rule take_be_bytes, simp)+
  then have "data = header_bytes t (len - 12) c @ drop 16 data"
    using header_split [OF facts(1)] by (simp only: header_bytes_def append_assoc)
  with facts show "\<exists>t n c rest. header_ok t n c maximum \<and> data = header_bytes t n c @ rest
      \<and> h = header_of t n c" by blast
next
  assume "\<exists>t n c rest. header_ok t n c maximum \<and> data = header_bytes t n c @ rest \<and> h = header_of t n c"
  then obtain t n c rest where ok: "header_ok t n c maximum" "data = header_bytes t n c @ rest"
    "h = header_of t n c" by blast
  have parts: "take 4 data = be_bytes 4 (12 + n)" "take 1 (drop 4 data) = be_bytes 1 (frame_type_value t)"
    "take 1 (drop 5 data) = be_bytes 1 0" "take 2 (drop 6 data) = be_bytes 2 1"
    "take 8 (drop 8 data) = be_bytes 8 c" "16 \<le> length data"
    unfolding ok(2) header_bytes_def by (simp_all del: be_bytes.simps)
  have "be_int (be_bytes 4 (12 + n)) = 12 + n" "be_int (be_bytes 8 c) = c"
    "be_int (be_bytes 1 (frame_type_value t)) = frame_type_value t"
    using ok(1) le_less_trans [OF frame_type_value_bounds(2) [of t], of 256]
    by (auto simp: header_ok_def simp del: be_bytes.simps intro!: be_int_be_bytes)
  moreover have "be_int (be_bytes 1 0) = 0" "be_int (be_bytes 2 1) = 1"
    by (simp_all add: be_int_be_bytes del: be_bytes.simps)
  ultimately show "decode_common_header data maximum = Inr h"
    using ok(1,3) parts frame_type.of_value_value [of t]
    by (simp add: decode_common_header_def Let_def result_simps header_ok_def header_of_def
        validate_correlation_Inr effective_limit_Inr del: be_bytes.simps)
qed

section \<open>The user-message fast paths\<close>

text \<open>The path every other frame takes, applied to a user message.\<close>

definition encode_generic :: "normalized \<Rightarrow> frame \<Rightarrow> int \<Rightarrow> bytes result" where
  "encode_generic nfc frame maximum_frame_bytes =
     rbind (encode_body nfc frame) (\<lambda>body.
     rbind (encode_common_header (frame_type_for frame) (int (length body))
              (correlation_id frame) maximum_frame_bytes) (\<lambda>header.
       Inr (header @ body)))"

lemma encode_generic_Inr:
  "encode_generic nfc f maximum = Inr data \<longleftrightarrow>
     (\<exists>body. encode_body nfc f = Inr body
        \<and> header_ok (frame_type_for f) (int (length body)) (correlation_id f) maximum
        \<and> data = header_bytes (frame_type_for f) (int (length body)) (correlation_id f) @ body)"
  by (auto simp: encode_generic_def result_simps encode_common_header_Inr)

lemma text_bytes_Inl: "text_bytes nfc s m err ne = Inl x \<Longrightarrow> x = err"
  by (auto simp: text_bytes_def result_simps split: option.splits if_splits)

lemma length_user_message_bytes [simp]:
  "int (length (user_message_bytes m e)) = 84 + int (length e) + int (length (um_payload m))"
  by (simp add: user_message_bytes_def user_message_prefix_def)

lemma encode_user_message_frame_Inr:
  "encode_user_message_frame nfc m maximum = Inr data \<longleftrightarrow> encode_generic nfc (UserMessage m) maximum = Inr data"
  by (auto simp: encode_user_message_frame_def encode_generic_Inr encode_user_message_body_Inr
      result_simps Let_def validate_correlation_Inr effective_limit_Inr header_ok_def header_bytes_def
      user_message_ok_def user_message_bytes_def user_message_prefix_def zero_correlation_type_def
      bootstrap_frame_type_def text_bytes_Inr algebra_simps)

lemma uint_field_Inl [simp]: "uint_field v m e l = Inl x \<longleftrightarrow> x = e \<and> \<not> (l \<le> v \<and> v \<le> m)"
  by (auto simp: uint_field_def)

lemma uuid_nonzero_Inl [simp]: "uuid_nonzero u e = Inl x \<longleftrightarrow> x = e \<and> u = 0"
  by (auto simp: uuid_nonzero_def)









lemma decode_user_message_frame_Inl:
  "decode_user_message_frame nfc data header = Inl x \<Longrightarrow> x = MalformedFrameError"
  by (auto simp: decode_user_message_frame_def result_simps Let_def dest: text_bytes_Inl
      split: option.splits)

lemma r_field_Inl:
  "r_u8 bs = Inl x \<Longrightarrow> x = MalformedFrameError" "r_u16 bs = Inl x \<Longrightarrow> x = MalformedFrameError"
  "r_u32 bs = Inl x \<Longrightarrow> x = MalformedFrameError" "r_u64 bs = Inl x \<Longrightarrow> x = MalformedFrameError"
  "r_uuid bs = Inl x \<Longrightarrow> x = MalformedFrameError" "r_raw n bs = Inl x \<Longrightarrow> x = MalformedFrameError"
  "r_check ok bs = Inl x \<Longrightarrow> x = MalformedFrameError" "r_finish bs = Inl x \<Longrightarrow> x = MalformedFrameError"
  "r_remaining bs = Inl x \<Longrightarrow> x = MalformedFrameError"
  "r_text nfc maximum nonempty b bs = Inl x \<Longrightarrow> x = MalformedFrameError"
  by (auto simp: r_u8_def r_u16_def r_u32_def r_u64_def r_uuid_def r_raw_def r_take_def r_check_def
      r_finish_def r_remaining_def r_text_def r_lift_def r_bind_def r_return_def result_simps
      split: if_splits option.splits dest: text_bytes_Inl)

lemma r_bind_Inl:
  "r_bind m f bs = Inl x \<longleftrightarrow> m bs = Inl x \<or> (\<exists>y rest. m bs = Inr (y, rest) \<and> f y rest = Inl x)"
  by (auto simp: r_bind_def result_simps)

lemma decode_user_message_body_Inl:
  "decode_user_message_body nfc c bs = Inl x \<Longrightarrow> x = MalformedFrameError"
  by (auto simp: decode_user_message_body_def r_bind_Inl r_return_def dest: r_field_Inl)

lemma decode_user_message_body_rest:
  "decode_user_message_body nfc c bs = Inr (m, rest) \<Longrightarrow> rest = []"
  by (auto simp: decode_user_message_body_def codec_can r_text_Inr r_raw_def r_take_Inr)

lemma split_user_message:
  assumes "84 \<le> length body"
  obtains p1 p2 p3 p4 p5 p6 p7 p8 p9 rest where
    "body = p1 @ p2 @ p3 @ p4 @ p5 @ p6 @ p7 @ p8 @ p9 @ rest"
    "length p1 = 16" "length p2 = 2" "length p3 = 8" "length p4 = 16" "length p5 = 16"
    "length p6 = 16" "length p7 = 4" "length p8 = 2" "length p9 = 4"
proof -
  have "take n (drop k body) @ drop (n + k) body = drop k body" for n k
    by (metis add.commute append_take_drop_id drop_drop)
  from this [of 16 0] this [of 2 16] this [of 8 18] this [of 16 26] this [of 16 42] this [of 16 58]
    this [of 4 74] this [of 2 78] this [of 4 80]
  have "body = take 16 body @ take 2 (drop 16 body) @ take 8 (drop 18 body) @ take 16 (drop 26 body)
    @ take 16 (drop 42 body) @ take 16 (drop 58 body) @ take 4 (drop 74 body) @ take 2 (drop 78 body)
    @ take 4 (drop 80 body) @ drop 84 body" by simp
  with assms that show ?thesis by simp
qed

lemma option_case_rbind:
  "rbind (case x of None \<Rightarrow> Inl e | Some s \<Rightarrow> f s) g = (case x of None \<Rightarrow> Inl e | Some s \<Rightarrow> rbind (f s) g)"
  by (cases x) simp_all

text \<open>Readers on an input of which the next field is already cut off.\<close>

lemma r_slice:
  "length b = 2 \<Longrightarrow> r_u16 (b @ rest) = Inr (be_int b, rest)"
  "length b = 4 \<Longrightarrow> r_u32 (b @ rest) = Inr (be_int b, rest)"
  "length b = 8 \<Longrightarrow> r_u64 (b @ rest) = Inr (be_int b, rest)"
  "length b = 16 \<Longrightarrow> r_uuid (b @ rest)
     = rbind (uuid_nonzero (uuid_of_bytes b) MalformedFrameError) (\<lambda>u. Inr (u, rest))"
  "r_check ok bs = rbind (guard ok MalformedFrameError) (\<lambda>_. Inr ((), bs))"
  by (simp_all add: r_u16_def r_u32_def r_u64_def r_uuid_def r_bind_def r_take_def r_return_def
      r_lift_def r_check_def)

lemma short_user_message_body:
  assumes "length body < 84"
  shows "decode_user_message_body nfc c body = Inl MalformedFrameError"
proof (cases "decode_user_message_body nfc c body")
  case (Inl x)
  then show ?thesis using decode_user_message_body_Inl by blast
next
  case (Inr r)
  then obtain m where "decode_user_message_body nfc c body = Inr (m, [])"
    using decode_user_message_body_rest [of nfc c body] by (cases r) auto
  then obtain e where "body = user_message_bytes m e"
    by (auto simp: decode_user_message_body_Inr encode_user_message_body_Inr)
  with assms length_user_message_bytes [of m e] show ?thesis by simp
qed

lemma decode_user_message_frame_generic:
  assumes "int (length data) = total_length header" "16 \<le> length data"
  shows "decode_user_message_frame nfc data header =
    rbind (decode_user_message_body nfc (fh_correlation_id header) (drop 16 data))
      (\<lambda>(m, rest). Inr m)"
proof (cases "84 \<le> length (drop 16 data)")
  case False
  then have "decode_user_message_frame nfc data header = Inl MalformedFrameError"
    by (simp add: decode_user_message_frame_def Let_def)
  moreover have "decode_user_message_body nfc (fh_correlation_id header) (drop 16 data)
      = Inl MalformedFrameError"
    using short_user_message_body False by simp
  ultimately show ?thesis by simp
next
  case True
  obtain hd where data: "data = hd @ drop 16 data" "length hd = 16"
    using assms(2) append_take_drop_id [of 16 data] by (metis length_take min_absorb2)
  obtain p1 p2 p3 p4 p5 p6 p7 p8 p9 rest where
    p: "drop 16 data = p1 @ p2 @ p3 @ p4 @ p5 @ p6 @ p7 @ p8 @ p9 @ rest"
    "length p1 = 16" "length p2 = 2" "length p3 = 8" "length p4 = 16" "length p5 = 16"
    "length p6 = 16" "length p7 = 4" "length p8 = 2" "length p9 = 4"
    using split_user_message [OF True] by metis
  have len: "body_length header = 84 + int (length rest)"
    using assms p data by (simp add: total_length_def body_length_def)
  have parts: "data = hd @ p1 @ p2 @ p3 @ p4 @ p5 @ p6 @ p7 @ p8 @ p9 @ rest"
    using data p by simp
  have nonneg: "0 \<le> be_int p8" "0 \<le> be_int p9" using be_int_bounds by blast+
  have slices: "take 16 (drop 16 data) = p1" "take 2 (drop 32 data) = p2" "take 8 (drop 34 data) = p3"
    "take 16 (drop 42 data) = p4" "take 16 (drop 58 data) = p5" "take 16 (drop 74 data) = p6"
    "take 4 (drop 90 data) = p7" "take 2 (drop 94 data) = p8" "take 4 (drop 96 data) = p9"
    "drop 100 data = rest"
    unfolding parts using p(2-) data(2) by simp_all
  have tail: "drop (100 + n) data = drop n rest" for n
    using slices(10) by (metis add.commute drop_drop)
  have size: "84 \<le> length data - 16" using True by simp
  have rtext: "r_text nfc 1024 True b x = rbind (case utf8_decode b of None \<Rightarrow> Inl MalformedFrameError
      | Some s \<Rightarrow> rbind (text_bytes nfc s 1024 MalformedFrameError True) (\<lambda>_. Inr s)) (\<lambda>s. Inr (s, x))" for b x
    by (simp add: r_text_def r_lift_def codec_rt rbind_assoc split: option.splits)
  have cut: "r_raw (be_int p8) rest = Inr (take (nat (be_int p8)) rest, drop (nat (be_int p8)) rest)"
    "r_raw (be_int p9) (drop (nat (be_int p8)) rest) = Inr (drop (nat (be_int p8)) rest, [])"
    if "be_int p8 + be_int p9 = int (length rest)"
  proof -
    have "int (nat (be_int p8)) = be_int p8" "int (nat (be_int p9)) = be_int p9" using nonneg by simp_all
    with that have "nat (be_int p8) \<le> length rest" "length rest - nat (be_int p8) = nat (be_int p9)"
      by linarith+
    then show "r_raw (be_int p8) rest = Inr (take (nat (be_int p8)) rest, drop (nat (be_int p8)) rest)"
      "r_raw (be_int p9) (drop (nat (be_int p8)) rest) = Inr (drop (nat (be_int p8)) rest, [])"
      using that nonneg by (simp_all add: r_raw_def r_take_def)
  qed
  show ?thesis
  proof (cases "be_int p8 + be_int p9 = int (length rest)")
    case True
    with p(2-) size show ?thesis
      by (simp add: decode_user_message_frame_def Let_def len slices tail cong: option.case_cong)
        (simp add: p(1) decode_user_message_body_def codec_rt r_slice rbind_assoc rtext cut [OF True]
          option_case_rbind cong: option.case_cong)
  next
    case False
    with p(2-) size show ?thesis
      by (simp add: decode_user_message_frame_def Let_def len slices)
        (simp add: p(1) decode_user_message_body_def codec_rt r_slice rbind_assoc)
  qed
qed
section \<open>Whole frames\<close>

lemma encode_frame_Inr:
  "encode_frame nfc f maximum kind = Inr data \<longleftrightarrow>
     validate_stream (frame_type_for f) kind = Inr () \<and> encode_generic nfc f maximum = Inr data"
  by (cases f) (auto simp: encode_frame_def rbind_eq_Inr [of "validate_stream _ _"]
      encode_generic_def encode_user_message_frame_Inr)

lemma decode_frame_Inr:
  "decode_frame nfc data maximum kind = Inr f \<longleftrightarrow>
     (\<exists>t n c body. header_ok t n c maximum \<and> validate_stream t kind = Inr ()
        \<and> data = header_bytes t n c @ body \<and> int (length body) = n
        \<and> decode_body nfc (header_of t n c) body = Inr f)"
proof -
  have user: "rbind (decode_user_message_frame nfc (header_bytes t n c @ body) (header_of t n c))
        (\<lambda>m. Inr (UserMessage m)) = Inr f \<longleftrightarrow> decode_body nfc (header_of t n c) body = Inr f"
    if "int (length body) = n" "t = FT_USER_MESSAGE" for t n c body
    using that
    by (auto simp: decode_user_message_frame_generic decode_body_Inr_iff result_simps codec_can
        dest: decode_user_message_body_rest)
  show ?thesis
  proof
    assume dec: "decode_frame nfc data maximum kind = Inr f"
    then obtain h where h: "decode_common_header data maximum = Inr h"
      by (auto simp: decode_frame_def result_simps)
    obtain t n c body where ok: "header_ok t n c maximum" "data = header_bytes t n c @ body"
      "decode_common_header data maximum = Inr (header_of t n c)"
      using h h [unfolded decode_common_header_Inr] by blast
    with dec have "validate_stream t kind = Inr ()" "int (length body) = n"
      by (auto simp: decode_frame_def result_simps)
    moreover from this dec ok user [of body n t c] have "decode_body nfc (header_of t n c) body = Inr f"
      by (simp add: decode_frame_def split: if_splits)
    ultimately show "\<exists>t n c body. header_ok t n c maximum \<and> validate_stream t kind = Inr ()
        \<and> data = header_bytes t n c @ body \<and> int (length body) = n
        \<and> decode_body nfc (header_of t n c) body = Inr f" using ok by blast
  next
    assume "\<exists>t n c body. header_ok t n c maximum \<and> validate_stream t kind = Inr ()
        \<and> data = header_bytes t n c @ body \<and> int (length body) = n
        \<and> decode_body nfc (header_of t n c) body = Inr f"
    then obtain t n c body where ok: "header_ok t n c maximum" "validate_stream t kind = Inr ()"
      "data = header_bytes t n c @ body" "int (length body) = n"
      "decode_body nfc (header_of t n c) body = Inr f" by blast
    then have "decode_common_header data maximum = Inr (header_of t n c)"
      by (auto simp: decode_common_header_Inr)
    with ok user [of body n t c] show "decode_frame nfc data maximum kind = Inr f"
      by (cases "t = FT_USER_MESSAGE") (simp_all add: decode_frame_def)
  qed
qed

lemma frame_codec_decode_encode:
  assumes "wf_frame nfc f" "encode_frame nfc f maximum kind = Inr data"
  shows "decode_frame nfc data maximum kind = Inr f"
  using assms decode_body_encode_body [OF assms(1)]
  by (fastforce simp: encode_frame_Inr decode_frame_Inr encode_generic_Inr)

lemma frame_codec_encode_decode:
  assumes "decode_frame nfc data maximum kind = Inr f" "\<not> is_hello f"
  shows "wf_frame nfc f" "encode_frame nfc f maximum kind = Inr data"
proof -
  obtain t n c body where ok: "header_ok t n c maximum" "validate_stream t kind = Inr ()"
      "data = header_bytes t n c @ body" "int (length body) = n"
      "decode_body nfc (header_of t n c) body = Inr f"
    using assms(1) by (auto simp: decode_frame_Inr)
  note b = encode_body_decode_body [OF ok(5)]
  show "wf_frame nfc f" using b(3) assms(2) by simp
  show "encode_frame nfc f maximum kind = Inr data"
    using ok b(1,2) b(3) [OF assms(2)] by (simp add: encode_frame_Inr encode_generic_Inr)
qed

lemma frame_length:
  assumes "encode_frame nfc f maximum kind = Inr data"
  shows "16 \<le> length data" "int (length data) \<le> maximum"
    "decode_common_header (data @ rest) maximum
      = Inr (header_of (frame_type_for f) (int (length data) - 16) (correlation_id f))"
proof -
  obtain body where body: "header_ok (frame_type_for f) (int (length body)) (correlation_id f) maximum"
    "data = header_bytes (frame_type_for f) (int (length body)) (correlation_id f) @ body"
    using assms by (auto simp: encode_frame_Inr encode_generic_Inr)
  then show "16 \<le> length data" "int (length data) \<le> maximum" by (auto simp: header_ok_def)
  show "decode_common_header (data @ rest) maximum
      = Inr (header_of (frame_type_for f) (int (length data) - 16) (correlation_id f))"
    using body by (auto simp: decode_common_header_Inr)
qed

section \<open>Preambles\<close>

lemma validate_preamble_Inr:
  "validate_preamble p err lane_count uid kind = Inr u \<longleftrightarrow>
     pr_association_uid p \<noteq> 0 \<and> 0 \<le> pr_lane_id p \<and> pr_lane_id p \<le> MAX_U16
     \<and> (pr_stream_kind p = DELIVERY_LANE \<longleftrightarrow> pr_lane_id p \<noteq> CONTROL_LANE_ID)
     \<and> (case lane_count of None \<Rightarrow> True | Some n \<Rightarrow> 0 \<le> n \<and> n \<le> MAX_U16
          \<and> (pr_stream_kind p = DELIVERY_LANE \<longrightarrow> pr_lane_id p < n))
     \<and> uid \<in> {None, Some (pr_association_uid p)} \<and> kind \<in> {None, Some (pr_stream_kind p)}"
  by (cases "pr_stream_kind p") (auto simp: validate_preamble_def result_simps split: option.splits)

definition preamble_bytes :: "stream_preamble \<Rightarrow> bytes" where
  "preamble_bytes p = MAGIC @ be_bytes 1 (stream_kind_value (pr_stream_kind p))
     @ uuid_bytes (pr_association_uid p) @ be_bytes 2 (pr_lane_id p)"

lemma encode_preamble_Inr:
  "encode_preamble p lane_count = Inr data \<longleftrightarrow>
     validate_preamble p ProtocolValidationError lane_count None None = Inr () \<and> data = preamble_bytes p"
  by (auto simp: encode_preamble_def preamble_bytes_def result_simps)

lemma preamble_bytes_unique:
  assumes "0 \<le> pr_lane_id p" "pr_lane_id p \<le> MAX_U16"
  shows "length data = 23 \<and> take 4 data = MAGIC
      \<and> stream_kind_of (be_int (take 1 (drop 4 data))) = Some (pr_stream_kind p)
      \<and> uuid_of_bytes (take 16 (drop 5 data)) = pr_association_uid p
      \<and> be_int (drop 21 data) = pr_lane_id p \<longleftrightarrow> data = preamble_bytes p"
    (is "?fields \<longleftrightarrow> _")
proof
  assume f: ?fields
  then have "data = take 4 data @ take 1 (drop 4 data) @ take 16 (drop 5 data) @ drop 21 data"
    using append_take_drop_id [of 4 data] append_take_drop_id [of 1 "drop 4 data"]
      append_take_drop_id [of 16 "drop 5 data"] by simp
  moreover have "take 1 (drop 4 data) = be_bytes 1 (stream_kind_value (pr_stream_kind p))"
    using f take_be_bytes [of 1 "drop 4 data"] by (simp add: stream_kind.of_value_iff del: be_bytes.simps)
  moreover have "drop 21 data = be_bytes 2 (pr_lane_id p)"
    using f take_be_bytes [of 2 "drop 21 data"] by simp
  moreover have "take 16 (drop 5 data) = uuid_bytes (pr_association_uid p)"
    using f uuid_bytes_uuid_of_bytes [of "take 16 (drop 5 data)"] by simp
  ultimately show "data = preamble_bytes p"
    using f by (simp only: preamble_bytes_def)
next
  assume "data = preamble_bytes p"
  then have d: "take 4 data = MAGIC" "take 1 (drop 4 data) = be_bytes 1 (stream_kind_value (pr_stream_kind p))"
    "take 16 (drop 5 data) = uuid_bytes (pr_association_uid p)" "drop 21 data = be_bytes 2 (pr_lane_id p)"
    "length data = 23"
    by (simp_all add: preamble_bytes_def MAGIC_def del: be_bytes.simps)
  have "be_int (be_bytes 1 (stream_kind_value (pr_stream_kind p))) = stream_kind_value (pr_stream_kind p)"
    by (rule be_int_be_bytes; cases "pr_stream_kind p"; simp)
  with d show ?fields
    using assms by (simp add: stream_kind.of_value_value be_int_be_bytes del: be_bytes.simps)
qed

lemma decode_preamble_Inr:
  "decode_preamble data lane_count uid kind = Inr p \<longleftrightarrow>
     encode_preamble p lane_count = Inr data \<and> uid \<in> {None, Some (pr_association_uid p)}
     \<and> kind \<in> {None, Some (pr_stream_kind p)}"
proof -
  have "decode_preamble data lane_count uid kind = Inr p \<longleftrightarrow>
      validate_preamble p InvalidPreambleError lane_count uid kind = Inr ()
      \<and> length data = 23 \<and> take 4 data = MAGIC
      \<and> stream_kind_of (be_int (take 1 (drop 4 data))) = Some (pr_stream_kind p)
      \<and> uuid_of_bytes (take 16 (drop 5 data)) = pr_association_uid p
      \<and> be_int (drop 21 data) = pr_lane_id p"
    by (cases p) (auto simp: decode_preamble_def result_simps Let_def split: option.splits)
  also have "\<dots> \<longleftrightarrow> validate_preamble p InvalidPreambleError lane_count uid kind = Inr ()
      \<and> data = preamble_bytes p"
    using preamble_bytes_unique [of p data] by (auto simp: validate_preamble_Inr)
  finally show ?thesis
    by (auto simp: encode_preamble_Inr validate_preamble_Inr)
qed
section \<open>Properties\<close>

definition sample_message :: user_message where
  "sample_message = \<lparr>um_association_uid = 7, um_lane_id = 3, um_lane_sequence = 41,
     um_sender_incarnation_uid = 11, um_recipient_incarnation_uid = 13, um_recipient_actor_uid = 17,
     um_serializer_id = 1, um_manifest = str ''order/1'', um_payload = [1, 2, 3],
     um_correlation_id = 0\<rparr>"

definition sample_frame_bytes :: bytes where
  "sample_frame_bytes = header_bytes FT_USER_MESSAGE 94 0
     @ user_message_bytes sample_message (map byte_of (str ''order/1''))"

lemma sample_encoded:
  "encode_frame isascii (UserMessage sample_message) 4096 (Some DELIVERY_LANE) = Inr sample_frame_bytes"
  by code_simp

text \<open>
  C1. Decoding inverts encoding for every frame of the protocol: if \<^verbatim>\<open>encode_frame\<close> accepts a frame under
  a size limit and a stream kind, then \<^verbatim>\<open>decode_frame\<close> applied to the bytes under the same limit and
  stream kind returns exactly that frame.
\<close>

theorem frame_round_trip:
  assumes "wf_frame nfc f" "encode_frame nfc f maximum kind = Inr data"
  shows "decode_frame nfc data maximum kind = Inr f"
  using assms by (rule frame_codec_decode_encode)

theorem frame_round_trip_witness:
  "encode_frame isascii (UserMessage sample_message) 4096 (Some DELIVERY_LANE) = Inr sample_frame_bytes
    \<and> decode_frame isascii sample_frame_bytes 4096 (Some DELIVERY_LANE) = Inr (UserMessage sample_message)"
  using sample_encoded frame_round_trip [OF _ sample_encoded] by simp

text \<open>
  C10. The encoding is canonical: for every frame other than \<^verbatim>\<open>HELLO\<close>, whose sets of manifests may be
  listed in any order, \<^verbatim>\<open>decode_frame\<close> accepts only the bytes that \<^verbatim>\<open>encode_frame\<close> produces for the frame
  it returns, so a peer cannot vary the representation of a frame.
\<close>

theorem frame_encoding_canonical:
  assumes "decode_frame nfc data maximum kind = Inr f" "\<not> is_hello f"
  shows "encode_frame nfc f maximum kind = Inr data"
  using assms by (rule frame_codec_encode_decode)

theorem frame_encoding_canonical_witness:
  "decode_frame isascii sample_frame_bytes 4096 (Some DELIVERY_LANE) = Inr (UserMessage sample_message)
    \<and> encode_frame isascii (UserMessage sample_message) 4096 (Some DELIVERY_LANE) = Inr sample_frame_bytes"
proof -
  have d: "decode_frame isascii sample_frame_bytes 4096 (Some DELIVERY_LANE)
      = Inr (UserMessage sample_message)"
    using sample_encoded by (intro frame_codec_decode_encode) simp_all
  then show ?thesis using frame_encoding_canonical [OF d] by simp
qed



text \<open>
  C15. The specialised decoder of user messages, which slices fixed offsets out of the whole frame,
  computes what the generic field-by-field decoder computes on the body, errors included, for every
  frame whose length is the one its header declares.
\<close>

theorem user_message_decoder_equivalent:
  assumes "int (length data) = total_length header" "16 \<le> length data"
    "fh_frame_type header = FT_USER_MESSAGE"
  shows "rbind (decode_user_message_frame nfc data header) (\<lambda>m. Inr (UserMessage m))
    = decode_body nfc header (drop 16 data)"
  using assms
  by (cases "decode_user_message_body nfc (fh_correlation_id header) (drop 16 data)")
    (auto simp: decode_user_message_frame_generic decode_body_def codec_rt
      dest: decode_user_message_body_rest)

theorem user_message_decoder_equivalent_witness:
  "int (length sample_frame_bytes) = total_length (header_of FT_USER_MESSAGE 94 0)
    \<and> 16 \<le> length sample_frame_bytes
    \<and> rbind (decode_user_message_frame isascii sample_frame_bytes (header_of FT_USER_MESSAGE 94 0))
        (\<lambda>m. Inr (UserMessage m))
      = decode_body isascii (header_of FT_USER_MESSAGE 94 0) (drop 16 sample_frame_bytes)"
proof -
  have "int (length sample_frame_bytes) = total_length (header_of FT_USER_MESSAGE 94 0)"
    "16 \<le> length sample_frame_bytes"
    by code_simp+
  then show ?thesis using user_message_decoder_equivalent by simp
qed

text \<open>
  C19. Encoded frames respect the negotiated limit and delimit themselves: whatever bytes follow a
  frame in a stream, the common header announces the frame's exact length, its type and its
  correlation identifier.
\<close>

theorem frame_self_delimiting:
  assumes "encode_frame nfc f maximum kind = Inr data"
  shows "int (length data) \<le> maximum
    \<and> (\<exists>h. decode_common_header (data @ rest) maximum = Inr h \<and> total_length h = int (length data)
          \<and> fh_frame_type h = frame_type_for f \<and> fh_correlation_id h = correlation_id f)"
  using frame_length [OF assms] by auto

theorem frame_self_delimiting_witness:
  "encode_frame isascii (UserMessage sample_message) 4096 (Some DELIVERY_LANE) = Inr sample_frame_bytes
    \<and> int (length sample_frame_bytes) \<le> 4096
    \<and> (\<exists>h. decode_common_header (sample_frame_bytes @ [0, 0]) 4096 = Inr h
          \<and> total_length h = int (length sample_frame_bytes))"
  using sample_encoded frame_self_delimiting [OF sample_encoded, of "[0, 0]"] by auto

text \<open>
  C20. Stream preambles: \<^verbatim>\<open>decode_preamble\<close> accepts exactly the bytes that \<^verbatim>\<open>encode_preamble\<close> produces for
  the preamble it returns, and only when that preamble names the expected association and stream
  kind.
\<close>

theorem preamble_codec:
  "decode_preamble data lane_count uid kind = Inr p \<longleftrightarrow>
     encode_preamble p lane_count = Inr data
     \<and> uid \<in> {None, Some (pr_association_uid p)} \<and> kind \<in> {None, Some (pr_stream_kind p)}"
  by (rule decode_preamble_Inr)

end
