(* ===== verification/Transport.thy ===== *)
theory Transport
  imports Wire_Codec
begin

text \<open>
  The values of \<^verbatim>\<open>movie/remoting/transport.py\<close>: endpoints, limits, logical channels and records, each
  with the validation its constructor performs.
\<close>

record endpoint =
  ep_host :: pystr
  ep_port :: int

definition endpoint_init :: "pystr \<Rightarrow> int \<Rightarrow> endpoint result" where
  "endpoint_init host port =
     rbind (guard (0 \<notin> set host) TransportProtocolError) (\<lambda>_.
     rbind (uint_field port MAX_U16 TransportProtocolError 0) (\<lambda>_.
       Inr \<lparr>ep_host = host, ep_port = port\<rparr>))"

record transport_limits =
  tl_maximum_record_bytes :: int
  tl_outbound_message_limit :: int
  tl_outbound_byte_limit :: int
  tl_inbound_message_limit :: int
  tl_inbound_byte_limit :: int

definition transport_limits_init ::
  "int \<Rightarrow> int \<Rightarrow> int \<Rightarrow> int \<Rightarrow> int \<Rightarrow> transport_limits result"
where
  "transport_limits_init maximum om ob im ib =
     rbind (uint_field maximum MAX_U32 TransportProtocolError COMMON_HEADER_SIZE) (\<lambda>_.
     rbind (uint_field om MAX_U32 TransportProtocolError 0) (\<lambda>_.
     rbind (uint_field ob MAX_U64 TransportProtocolError 0) (\<lambda>_.
     rbind (uint_field im MAX_U32 TransportProtocolError 0) (\<lambda>_.
     rbind (uint_field ib MAX_U64 TransportProtocolError 0) (\<lambda>_.
       Inr \<lparr>tl_maximum_record_bytes = maximum, tl_outbound_message_limit = om,
            tl_outbound_byte_limit = ob, tl_inbound_message_limit = im,
            tl_inbound_byte_limit = ib\<rparr>)))))"

definition limits_ok :: "transport_limits \<Rightarrow> bool" where
  "limits_ok l \<longleftrightarrow> COMMON_HEADER_SIZE \<le> tl_maximum_record_bytes l \<and> tl_maximum_record_bytes l \<le> MAX_U32
     \<and> 0 \<le> tl_outbound_message_limit l \<and> tl_outbound_message_limit l \<le> MAX_U32
     \<and> 0 \<le> tl_outbound_byte_limit l \<and> tl_outbound_byte_limit l \<le> MAX_U64
     \<and> 0 \<le> tl_inbound_message_limit l \<and> tl_inbound_message_limit l \<le> MAX_U32
     \<and> 0 \<le> tl_inbound_byte_limit l \<and> tl_inbound_byte_limit l \<le> MAX_U64"

lemma transport_limits_init_Inr:
  "transport_limits_init maximum om ob im ib = Inr l \<longleftrightarrow>
     l = \<lparr>tl_maximum_record_bytes = maximum, tl_outbound_message_limit = om,
          tl_outbound_byte_limit = ob, tl_inbound_message_limit = im, tl_inbound_byte_limit = ib\<rparr>
     \<and> limits_ok l"
  by (auto simp: transport_limits_init_def limits_ok_def result_simps)

record logical_channel =
  ch_kind :: stream_kind
  ch_lane_id :: int

definition logical_channel_init :: "stream_kind \<Rightarrow> int \<Rightarrow> logical_channel result" where
  "logical_channel_init kind lane_id =
     rbind (uint_field lane_id MAX_U16 TransportProtocolError 0) (\<lambda>_.
     rbind (case kind of
              DELIVERY_LANE \<Rightarrow> guard (lane_id \<noteq> CONTROL_LANE_ID) TransportProtocolError
            | _ \<Rightarrow> guard (lane_id = CONTROL_LANE_ID) TransportProtocolError) (\<lambda>_.
       Inr \<lparr>ch_kind = kind, ch_lane_id = lane_id\<rparr>))"

record transport_record =
  tr_channel :: logical_channel
  tr_payload :: bytes

definition record_size :: "transport_record \<Rightarrow> int" where
  "record_size r = int (length (tr_payload r))"

definition records_size :: "transport_record list \<Rightarrow> int" where
  "records_size rs = sum_list (map record_size rs)"

lemma record_size_nonneg [simp]: "0 \<le> record_size r"
  by (simp add: record_size_def)

lemma records_size_simps [simp]:
  "records_size [] = 0" "records_size (r # rs) = record_size r + records_size rs"
  "records_size (rs @ rs') = records_size rs + records_size rs'"
  by (simp_all add: records_size_def)

lemma records_size_nonneg [simp]: "0 \<le> records_size rs"
  by (induction rs) simp_all

datatype connection_state = CS_OPEN | CS_READ_FAILED | CS_CLOSED

record connection_snapshot =
  cs_state :: connection_state
  cs_cause :: "exn option"
  cs_maximum_record_bytes :: int
  cs_pending_outbound_messages :: int
  cs_pending_outbound_bytes :: int
  cs_pending_inbound_messages :: int
  cs_pending_inbound_bytes :: int

end
