(* ===== verification/Tcp_Connection.thy ===== *)
theory Tcp_Connection
  imports Transport "HOL-Library.AList"
begin

text \<open>
  The state of \<^verbatim>\<open>TcpConnection\<close> in \<^verbatim>\<open>movie/remoting/tcp.py\<close> and every section of it that runs under the
  connection's lock: the four ways to send, receiving, activation, tightening, snapshots, failure and
  termination, the writer thread's batching, and the reader thread's parsing and admission. A thread
  that blocks is a step that is not enabled; the socket is the byte stream the steps produce and
  consume. Condition-variable bookkeeping (\<^verbatim>\<open>_inbound_waiters\<close>, \<^verbatim>\<open>_reader_backpressured\<close>) only decides whom
  to wake and is not part of the state; the writer's wake-up event \<^verbatim>\<open>_writer_ready\<close> is.
\<close>

record tcp_connection =
  tc_association_uid :: uuid
  tc_limits :: transport_limits
  tc_activated :: bool
  tc_peer_accept_seen :: bool
  tc_state :: connection_state
  tc_cause :: "exn option"
  tc_maximum_record_bytes :: int
  tc_outbound :: "(logical_channel \<times> transport_record list) list"
  tc_ready_channels :: "logical_channel list"
  tc_writing_channel :: "logical_channel option"
  tc_outbound_messages :: int
  tc_outbound_bytes :: int
  tc_terminal_outbound_record :: "transport_record option"
  tc_terminal_outbound_pending :: bool
  tc_writer_ready :: bool
  tc_inbound :: "transport_record list"
  tc_inbound_messages :: int
  tc_inbound_bytes :: int
  tc_reading_record_size :: "int option"
  tc_receive_buffer :: bytes
  tc_receive_offset :: nat
  tc_unassigned_receive_bytes :: int
  tc_reading_header_bytes :: int

definition tcp_connection_init :: "transport_limits \<Rightarrow> uuid \<Rightarrow> tcp_connection result" where
  "tcp_connection_init limits uid =
     rbind (guard (uid \<noteq> 0) TransportProtocolError) (\<lambda>_.
       Inr \<lparr>tc_association_uid = uid, tc_limits = limits, tc_activated = False,
         tc_peer_accept_seen = False, tc_state = CS_OPEN, tc_cause = None,
         tc_maximum_record_bytes = tl_maximum_record_bytes limits,
         tc_outbound = [], tc_ready_channels = [], tc_writing_channel = None,
         tc_outbound_messages = 0, tc_outbound_bytes = 0,
         tc_terminal_outbound_record = None, tc_terminal_outbound_pending = False,
         tc_writer_ready = False, tc_inbound = [], tc_inbound_messages = 0, tc_inbound_bytes = 0,
         tc_reading_record_size = None, tc_receive_buffer = [], tc_receive_offset = 0,
         tc_unassigned_receive_bytes = 0, tc_reading_header_bytes = 0\<rparr>)"

section \<open>Sending\<close>

definition validate_record :: "transport_record \<Rightarrow> int \<Rightarrow> frame_header result" where
  "validate_record r maximum_record_bytes =
     rbind (case decode_common_header (tr_payload r) maximum_record_bytes of
              Inl e \<Rightarrow> Inl (if is_wire_codec_error e \<or> e = ProtocolValidationError
                           then TransportProtocolError else e)
            | Inr h \<Rightarrow> Inr h) (\<lambda>header.
     rbind (guard (record_size r = total_length header) TransportProtocolError) (\<lambda>_.
     rbind (guard (\<not> (ch_kind (tr_channel r) = CONTROL
                       \<and> fh_frame_type header = FT_USER_MESSAGE)) TransportProtocolError) (\<lambda>_.
     rbind (guard (\<not> (ch_kind (tr_channel r) = DELIVERY_LANE
                       \<and> fh_frame_type header \<noteq> FT_USER_MESSAGE)) TransportProtocolError) (\<lambda>_.
       Inr header))))"

definition enqueue_outbound_locked :: "transport_record \<Rightarrow> tcp_connection \<Rightarrow> tcp_connection" where
  "enqueue_outbound_locked r c =
     (let writer_needs_signal = (tc_ready_channels c = []) in
      case map_of (tc_outbound c) (tr_channel r) of
        None \<Rightarrow>
          c\<lparr>tc_outbound := AList.update (tr_channel r) [r] (tc_outbound c),
            tc_ready_channels := tc_ready_channels c @ [tr_channel r],
            tc_outbound_messages := tc_outbound_messages c + 1,
            tc_outbound_bytes := tc_outbound_bytes c + record_size r,
            tc_writer_ready := tc_writer_ready c \<or> writer_needs_signal\<rparr>
      | Some queue \<Rightarrow>
          c\<lparr>tc_outbound := AList.update (tr_channel r) (queue @ [r]) (tc_outbound c),
            tc_outbound_messages := tc_outbound_messages c + 1,
            tc_outbound_bytes := tc_outbound_bytes c + record_size r,
            tc_writer_ready := tc_writer_ready c \<or> writer_needs_signal\<rparr>)"

text \<open>
  \<^verbatim>\<open>send\<close> takes the lock twice: \<open>seen\<close> is the record limit it read the first time, under which it
  validated the record; the second section validates again if the limit changed in between.
\<close>

definition tcp_send :: "int \<Rightarrow> transport_record \<Rightarrow> tcp_connection \<Rightarrow> tcp_connection result" where
  "tcp_send seen r c =
     rbind (validate_record r seen) (\<lambda>_.
     rbind (guard (tc_state c \<noteq> CS_CLOSED) TransportClosedError) (\<lambda>_.
     rbind (guard (tc_terminal_outbound_record c = None) TransportClosedError) (\<lambda>_.
     rbind (if seen \<noteq> tc_maximum_record_bytes c
            then rbind (validate_record r (tc_maximum_record_bytes c)) (\<lambda>_. Inr ())
            else Inr ()) (\<lambda>_.
     rbind (guard (\<not> (tc_outbound_messages c \<ge> tl_outbound_message_limit (tc_limits c)
                      \<or> tc_outbound_bytes c + record_size r > tl_outbound_byte_limit (tc_limits c)))
              TransportCapacityError) (\<lambda>_.
       Inr (enqueue_outbound_locked r c))))))"

definition tcp_send_prevalidated ::
  "transport_record \<Rightarrow> int \<Rightarrow> int \<Rightarrow> tcp_connection \<Rightarrow> tcp_connection result"
where
  "tcp_send_prevalidated r message_limit byte_limit c =
     rbind (guard (message_limit \<ge> 0) TransportProtocolError) (\<lambda>_.
     rbind (guard (byte_limit \<ge> 0) TransportProtocolError) (\<lambda>_.
     rbind (guard (tc_state c \<noteq> CS_CLOSED) TransportClosedError) (\<lambda>_.
     rbind (guard (tc_terminal_outbound_record c = None) TransportClosedError) (\<lambda>_.
     rbind (guard (record_size r \<le> tc_maximum_record_bytes c) TransportProtocolError) (\<lambda>_.
     rbind (guard (\<not> (tc_outbound_messages c
                        \<ge> min message_limit (tl_outbound_message_limit (tc_limits c))
                      \<or> tc_outbound_bytes c + record_size r
                        > min byte_limit (tl_outbound_byte_limit (tc_limits c))))
              TransportCapacityError) (\<lambda>_.
       Inr (enqueue_outbound_locked r c)))))))"

definition tcp_send_active :: "transport_record \<Rightarrow> tcp_connection \<Rightarrow> tcp_connection result" where
  "tcp_send_active r c =
     rbind (guard (tc_state c \<noteq> CS_CLOSED) TransportClosedError) (\<lambda>_.
     rbind (guard (tc_terminal_outbound_record c = None) TransportClosedError) (\<lambda>_.
     rbind (guard (record_size r \<le> tc_maximum_record_bytes c) TransportProtocolError) (\<lambda>_.
     rbind (guard (\<not> (tc_outbound_messages c \<ge> tl_outbound_message_limit (tc_limits c)
                      \<or> tc_outbound_bytes c + record_size r > tl_outbound_byte_limit (tc_limits c)))
              TransportCapacityError) (\<lambda>_.
       Inr (enqueue_outbound_locked r c)))))"

definition terminal_record_ok :: "transport_record \<Rightarrow> frame_header \<Rightarrow> unit result" where
  "terminal_record_ok r header =
     guard (fh_frame_type header = FT_GOAWAY \<and> ch_kind (tr_channel r) = CONTROL) TransportProtocolError"

definition tcp_send_terminal :: "int \<Rightarrow> transport_record \<Rightarrow> tcp_connection \<Rightarrow> tcp_connection result" where
  "tcp_send_terminal seen r c =
     rbind (validate_record r seen) (\<lambda>header.
     rbind (terminal_record_ok r header) (\<lambda>_.
     rbind (guard (tc_state c \<noteq> CS_CLOSED) TransportClosedError) (\<lambda>_.
     rbind (guard (tc_terminal_outbound_record c = None) TransportCapacityError) (\<lambda>_.
     rbind (if seen \<noteq> tc_maximum_record_bytes c
            then rbind (validate_record r (tc_maximum_record_bytes c)) (terminal_record_ok r)
            else Inr ()) (\<lambda>_.
       Inr (c\<lparr>tc_terminal_outbound_record := Some r, tc_terminal_outbound_pending := True,
              tc_outbound_messages := tc_outbound_messages c + 1,
              tc_outbound_bytes := tc_outbound_bytes c + record_size r,
              tc_writer_ready := True\<rparr>))))))"

section \<open>Configuration, failure and termination\<close>

definition tcp_activate :: "transport_limits \<Rightarrow> tcp_connection \<Rightarrow> tcp_connection result" where
  "tcp_activate limits c =
     rbind (guard (tc_state c \<noteq> CS_CLOSED) TransportClosedError) (\<lambda>_.
     rbind (guard (\<not> tc_activated c) TransportProtocolError) (\<lambda>_.
       Inr (c\<lparr>tc_limits := limits, tc_maximum_record_bytes := tl_maximum_record_bytes limits,
              tc_activated := True\<rparr>)))"

definition tcp_set_maximum_record_bytes :: "int \<Rightarrow> tcp_connection \<Rightarrow> tcp_connection result" where
  "tcp_set_maximum_record_bytes maximum c =
     rbind (guard (COMMON_HEADER_SIZE \<le> maximum \<and> maximum \<le> MAX_U32) TransportProtocolError) (\<lambda>_.
     rbind (guard (tc_state c \<noteq> CS_CLOSED) TransportClosedError) (\<lambda>_.
     rbind (guard (maximum \<le> tc_maximum_record_bytes c) TransportProtocolError) (\<lambda>_.
       Inr (c\<lparr>tc_maximum_record_bytes := maximum\<rparr>))))"

definition tcp_snapshot :: "tcp_connection \<Rightarrow> connection_snapshot" where
  "tcp_snapshot c = \<lparr>cs_state = tc_state c, cs_cause = tc_cause c,
     cs_maximum_record_bytes = tc_maximum_record_bytes c,
     cs_pending_outbound_messages = tc_outbound_messages c,
     cs_pending_outbound_bytes = tc_outbound_bytes c,
     cs_pending_inbound_messages = tc_inbound_messages c,
     cs_pending_inbound_bytes = tc_inbound_bytes c\<rparr>"

definition tcp_terminate :: "exn option \<Rightarrow> tcp_connection \<Rightarrow> bool \<times> tcp_connection" where
  "tcp_terminate cause c =
     (if tc_state c = CS_CLOSED then (False, c)
      else (True, c\<lparr>tc_state := CS_CLOSED,
        tc_cause := (if cause \<noteq> None \<or> tc_cause c = None then cause else tc_cause c),
        tc_outbound := [], tc_ready_channels := [], tc_writing_channel := None,
        tc_outbound_messages := 0, tc_outbound_bytes := 0,
        tc_terminal_outbound_record := None, tc_terminal_outbound_pending := False,
        tc_inbound := [], tc_inbound_messages := 0, tc_inbound_bytes := 0,
        tc_reading_record_size := None, tc_unassigned_receive_bytes := 0,
        tc_reading_header_bytes := 0, tc_receive_buffer := [], tc_receive_offset := 0,
        tc_writer_ready := True\<rparr>))"

definition tcp_fail_read :: "exn \<Rightarrow> tcp_connection \<Rightarrow> bool \<times> tcp_connection" where
  "tcp_fail_read cause c =
     (if tc_state c = CS_CLOSED then (False, c)
      else (True, c\<lparr>tc_state := CS_READ_FAILED, tc_cause := Some cause,
        tc_inbound_bytes := tc_inbound_bytes c
          - (tc_unassigned_receive_bytes c + tc_reading_header_bytes c),
        tc_unassigned_receive_bytes := 0, tc_reading_header_bytes := 0,
        tc_receive_buffer := [], tc_receive_offset := 0\<rparr>))"

section \<open>Receiving\<close>

text \<open>
  One pass of the loop of \<^verbatim>\<open>receive_many\<close>: records are taken, the connection's failure is raised, or
  the caller goes on waiting (\<open>Inr ([], c)\<close>) until its deadline.
\<close>

definition tcp_receive_many ::
  "int \<Rightarrow> tcp_connection \<Rightarrow> (transport_record list \<times> tcp_connection) result"
where
  "tcp_receive_many max_records c =
     rbind (guard (max_records > 0) TransportProtocolError) (\<lambda>_.
     if tc_inbound c \<noteq> []
     then let count = min (nat max_records) (length (tc_inbound c));
              records = take count (tc_inbound c) in
          Inr (records, c\<lparr>tc_inbound := drop count (tc_inbound c),
            tc_inbound_messages := tc_inbound_messages c - int count,
            tc_inbound_bytes := tc_inbound_bytes c - records_size records\<rparr>)
     else if tc_state c = CS_READ_FAILED
     then (case tc_cause c of
             Some e \<Rightarrow> if e \<in> {TransportFlowControlError, TransportProtocolError} then Inl e
                       else Inl AssertionError
           | None \<Rightarrow> Inl AssertionError)
     else if tc_state c = CS_CLOSED then Inl TransportClosedError
     else Inr ([], c))"

section \<open>The writer thread\<close>

abbreviation (input) WRITE_BATCH_BYTES :: int where "WRITE_BATCH_BYTES \<equiv> 262144"
abbreviation (input) WRITE_BATCH_RECORDS :: nat where "WRITE_BATCH_RECORDS \<equiv> 64"

record write_batch =
  wb_outbound :: "(logical_channel \<times> transport_record list) list"
  wb_ready :: "logical_channel list"
  wb_records :: "transport_record list"
  wb_bytes :: int
  wb_first :: "logical_channel option"

text \<open>One iteration of the batching loop, for the channel at the head of the ready queue.\<close>

definition take_ready :: "logical_channel \<Rightarrow> logical_channel list \<Rightarrow> transport_record
    \<Rightarrow> transport_record list \<Rightarrow> write_batch \<Rightarrow> write_batch" where
  "take_ready channel ready r queue b =
     \<lparr>wb_outbound = (if queue \<noteq> [] then AList.update channel queue (wb_outbound b)
                      else AList.delete channel (wb_outbound b)),
      wb_ready = (if queue \<noteq> [] then ready @ [channel] else ready),
      wb_records = wb_records b @ [r], wb_bytes = wb_bytes b + record_size r,
      wb_first = (case wb_first b of None \<Rightarrow> Some channel | Some c \<Rightarrow> Some c)\<rparr>"

function collect_batch :: "write_batch \<Rightarrow> write_batch result" where
  "collect_batch b =
     (case wb_ready b of
        [] \<Rightarrow> Inr b
      | channel # ready \<Rightarrow>
          if length (wb_records b) \<ge> WRITE_BATCH_RECORDS then Inr b
          else case map_of (wb_outbound b) channel of
            None \<Rightarrow> Inl KeyError
          | Some [] \<Rightarrow> Inl IndexError
          | Some (r # queue) \<Rightarrow>
              if wb_records b \<noteq> [] \<and> wb_bytes b + record_size r > WRITE_BATCH_BYTES then Inr b
              else collect_batch (take_ready channel ready r queue b))"
  by pat_completeness auto
termination
  by (relation "measure (\<lambda>b. WRITE_BATCH_RECORDS - length (wb_records b))")
    (auto simp: take_ready_def)

declare collect_batch.simps [simp del]

text \<open>
  The section of \<^verbatim>\<open>_writer_loop\<close> before the socket write: the batch and the new state, or \<open>None\<close> when
  the connection is closed and the thread returns.
\<close>

definition terminal_for_batch :: "tcp_connection \<Rightarrow> write_batch \<Rightarrow> transport_record list" where
  "terminal_for_batch c b =
     (case tc_terminal_outbound_record c of
        None \<Rightarrow> []
      | Some t \<Rightarrow>
          if wb_ready b = [] \<and> tc_terminal_outbound_pending c
             \<and> length (wb_records b) < WRITE_BATCH_RECORDS
             \<and> (wb_records b = [] \<or> wb_bytes b + record_size t \<le> WRITE_BATCH_BYTES)
          then [t] else [])"

definition writer_take ::
  "tcp_connection \<Rightarrow> (transport_record list \<times> int \<times> tcp_connection) option result"
where
  "writer_take c =
     (if tc_state c = CS_CLOSED then Inr None
      else rbind (collect_batch \<lparr>wb_outbound = tc_outbound c, wb_ready = tc_ready_channels c,
                    wb_records = [], wb_bytes = 0, wb_first = None\<rparr>) (\<lambda>b.
        let terminal = terminal_for_batch c b;
            pending = (tc_terminal_outbound_pending c \<and> terminal = []) in
        Inr (Some (wb_records b @ terminal, wb_bytes b + records_size terminal,
          c\<lparr>tc_outbound := wb_outbound b, tc_ready_channels := wb_ready b,
            tc_terminal_outbound_pending := pending, tc_writing_channel := wb_first b,
            tc_writer_ready := tc_writer_ready c \<and> \<not> (wb_ready b = [] \<and> \<not> pending)\<rparr>))))"

text \<open>The section after a successful socket write.\<close>

definition writer_done :: "transport_record list \<Rightarrow> int \<Rightarrow> tcp_connection \<Rightarrow> tcp_connection" where
  "writer_done records batch_bytes c =
     (if tc_state c = CS_CLOSED then c
      else c\<lparr>tc_writing_channel := None,
        tc_outbound_messages := tc_outbound_messages c - int (length records),
        tc_outbound_bytes := tc_outbound_bytes c - batch_bytes\<rparr>)"

section \<open>The reader thread\<close>

abbreviation (input) RECEIVE_CHUNK_BYTES :: int where "RECEIVE_CHUNK_BYTES \<equiv> 65536"

text \<open>
  Where the reader thread is between two sections: at the top of its loop, reading a header, waiting
  for room with a header in hand, reading a body with its reservation and what is left of the
  read-ahead allowance, or stopped.
\<close>

datatype reader_phase =
    RP_Idle
  | RP_Header
  | RP_Admit bytes
  | RP_Body bytes int bool int
  | RP_Stopped

definition buffered :: "tcp_connection \<Rightarrow> int" where
  "buffered c = int (length (tc_receive_buffer c)) - int (tc_receive_offset c)"

definition recv_begin :: "int \<Rightarrow> bool \<Rightarrow> tcp_connection \<Rightarrow> tcp_connection" where
  "recv_begin want track c =
     (let prepaid = min want (tc_unassigned_receive_bytes c) in
      c\<lparr>tc_unassigned_receive_bytes := tc_unassigned_receive_bytes c - prepaid,
        tc_reading_header_bytes := (if track then tc_reading_header_bytes c + prepaid
                                    else tc_reading_header_bytes c)\<rparr>)"

definition recv_request :: "int \<Rightarrow> int \<Rightarrow> tcp_connection \<Rightarrow> int" where
  "recv_request want read_ahead c = min RECEIVE_CHUNK_BYTES (want - buffered c + read_ahead)"

definition recv_chunk ::
  "int \<Rightarrow> int \<Rightarrow> bool \<Rightarrow> bytes \<Rightarrow> tcp_connection \<Rightarrow> int \<times> tcp_connection"
where
  "recv_chunk want read_ahead track chunk c =
     (let remaining = want - buffered c;
          extra = max 0 (int (length chunk) - remaining);
          own = int (length chunk) - extra in
      (read_ahead - extra,
       c\<lparr>tc_reading_header_bytes := tc_reading_header_bytes c + (if track then own else 0),
         tc_inbound_bytes := tc_inbound_bytes c + (if track then own else 0) + extra,
         tc_unassigned_receive_bytes := tc_unassigned_receive_bytes c + extra,
         tc_receive_buffer := tc_receive_buffer c @ chunk\<rparr>))"

definition recv_take :: "int \<Rightarrow> tcp_connection \<Rightarrow> bytes \<times> tcp_connection" where
  "recv_take want c =
     (let start = tc_receive_offset c; stop = start + nat want;
          data = take (nat want) (drop start (tc_receive_buffer c)) in
      (data,
       if stop \<ge> length (tc_receive_buffer c) div 2
       then c\<lparr>tc_receive_buffer := drop stop (tc_receive_buffer c), tc_receive_offset := 0\<rparr>
       else c\<lparr>tc_receive_offset := stop\<rparr>))"

text \<open>How the handlers at the end of \<^verbatim>\<open>_reader_loop\<close> leave the connection.\<close>

definition reader_failed :: "exn \<Rightarrow> tcp_connection \<Rightarrow> reader_phase \<times> tcp_connection" where
  "reader_failed e c =
     (RP_Stopped, snd (if e \<in> {TransportProtocolError, TransportFlowControlError}
                       then tcp_fail_read e c else tcp_terminate (Some TransportClosedError) c))"

definition release_reservation :: "int \<Rightarrow> tcp_connection \<Rightarrow> tcp_connection" where
  "release_reservation declared c =
     (if tc_reading_record_size c \<noteq> None
      then c\<lparr>tc_reading_record_size := None, tc_inbound_messages := tc_inbound_messages c - 1,
             tc_inbound_bytes := tc_inbound_bytes c - declared\<rparr>
      else c)"

text \<open>The top of the loop; \<open>None\<close> while the peer's accept was seen and activation is awaited.\<close>

definition reader_start :: "tcp_connection \<Rightarrow> (reader_phase \<times> tcp_connection) option" where
  "reader_start c =
     (if tc_state c = CS_CLOSED then Some (RP_Stopped, c)
      else if tc_peer_accept_seen c \<and> \<not> tc_activated c then None
      else Some (RP_Header, recv_begin COMMON_HEADER_SIZE True c))"

definition frame_total :: "bytes \<Rightarrow> int" where
  "frame_total header = be_int (take 4 header) + 4"

definition terminal_header :: "bytes \<Rightarrow> bool" where
  "terminal_header header \<longleftrightarrow> be_int (take 1 (drop 4 header)) = frame_type_value FT_GOAWAY"

definition inbound_message_limit :: "bool \<Rightarrow> tcp_connection \<Rightarrow> int" where
  "inbound_message_limit terminal c =
     tl_inbound_message_limit (tc_limits c) + (if terminal then 1 else 0)"

definition inbound_byte_limit :: "bool \<Rightarrow> tcp_connection \<Rightarrow> int" where
  "inbound_byte_limit terminal c =
     tl_inbound_byte_limit (tc_limits c) + (if terminal then tc_maximum_record_bytes c else 0)"

text \<open>
  One pass of the admission loop: the record is refused, reserved, or the reader goes on waiting for
  room (\<open>None\<close>). A reader that waits makes another pass whenever it is woken; only a pass that finds
  no room looks at whether the connection was closed meanwhile.
\<close>

definition reader_admit :: "bytes \<Rightarrow> tcp_connection \<Rightarrow> (reader_phase \<times> tcp_connection) option" where
  "reader_admit header c =
     (let declared = frame_total header; terminal = terminal_header header;
          byte_limit = inbound_byte_limit terminal c;
          message_limit = inbound_message_limit terminal c;
          body = declared - COMMON_HEADER_SIZE;
          additional = body - min body (tc_unassigned_receive_bytes c) in
      if declared > tc_maximum_record_bytes c then Some (reader_failed TransportFlowControlError c)
      else if declared > byte_limit then Some (reader_failed TransportFlowControlError c)
      else if message_limit = 0 then Some (reader_failed TransportFlowControlError c)
      else if tc_inbound_messages c < message_limit
              \<and> tc_inbound_bytes c + additional \<le> byte_limit
      then let c' = c\<lparr>tc_reading_record_size := Some declared, tc_reading_header_bytes := 0,
                      tc_inbound_messages := tc_inbound_messages c + 1,
                      tc_inbound_bytes := tc_inbound_bytes c + additional\<rparr>;
               read_ahead = (if tc_activated c then byte_limit - tc_inbound_bytes c' else 0) in
           Some (RP_Body header declared terminal read_ahead, recv_begin body False c')
      else if tc_state c = CS_CLOSED then Some (RP_Stopped, c)
      else None)"

text \<open>
  With sixteen bytes at hand: the header is taken, its length checked, and the first pass of the
  admission loop made in the same section.
\<close>

definition reader_header :: "tcp_connection \<Rightarrow> reader_phase \<times> tcp_connection" where
  "reader_header c =
     (if tc_state c = CS_CLOSED then (RP_Stopped, c)
      else let (header, c) = recv_take COMMON_HEADER_SIZE c in
        if tc_reading_header_bytes c \<noteq> COMMON_HEADER_SIZE then reader_failed AssertionError c
        else if frame_total header < COMMON_HEADER_SIZE then reader_failed TransportProtocolError c
        else if frame_total header > tc_maximum_record_bytes c
        then reader_failed TransportFlowControlError c
        else case reader_admit header c of
               Some (phase, c') \<Rightarrow> (phase, c')
             | None \<Rightarrow> (RP_Admit header, c))"

text \<open>With the whole body at hand: the record is checked against the current limits and queued.\<close>

definition reader_body :: "bytes \<Rightarrow> int \<Rightarrow> bool \<Rightarrow> tcp_connection \<Rightarrow> reader_phase \<times> tcp_connection" where
  "reader_body header declared terminal c =
     (if tc_state c = CS_CLOSED then (RP_Stopped, release_reservation declared c)
      else let (body, c) = recv_take (declared - COMMON_HEADER_SIZE) c;
               r = \<lparr>tr_channel = \<lparr>ch_kind = MULTIPLEXED, ch_lane_id = CONTROL_LANE_ID\<rparr>,
                     tr_payload = header @ body\<rparr> in
        if declared > tc_maximum_record_bytes c
           \<or> tc_inbound_messages c > inbound_message_limit terminal c
           \<or> tc_inbound_bytes c > inbound_byte_limit terminal c
        then reader_failed TransportFlowControlError (release_reservation declared c)
        else (RP_Idle, c\<lparr>tc_reading_record_size := None, tc_inbound := tc_inbound c @ [r],
               tc_peer_accept_seen := (tc_peer_accept_seen c
                 \<or> be_int (take 1 (drop 4 header)) = frame_type_value FT_HELLO_ACCEPT)\<rparr>))"

text \<open>The peer closed the stream: \<open>reserved\<close> is the record being read, if any.\<close>

definition reader_eof :: "int option \<Rightarrow> tcp_connection \<Rightarrow> reader_phase \<times> tcp_connection" where
  "reader_eof reserved c =
     (let cause = (if buffered c > 0 \<or> reserved \<noteq> None then TransportProtocolError
                   else TransportClosedError) in
      (RP_Stopped, snd (tcp_terminate (Some cause)
        (case reserved of None \<Rightarrow> c | Some declared \<Rightarrow> release_reservation declared c))))"

end
