(* ===== verification/Tcp_Outbound.thy ===== *)
theory Tcp_Outbound
  imports Tcp_Connection
begin

text \<open>
  The outbound half of a connection: the per-channel queues, the ready list and the counters agree,
  and batching moves records from the queues to the socket without loss, duplication or reordering
  within a channel.
\<close>

section \<open>The channel table\<close>

definition queued :: "(logical_channel \<times> transport_record list) list \<Rightarrow> logical_channel
    \<Rightarrow> transport_record list" where
  "queued out ch = (case map_of out ch of None \<Rightarrow> [] | Some q \<Rightarrow> q)"

definition channels_ok ::
  "(logical_channel \<times> transport_record list) list \<Rightarrow> logical_channel list \<Rightarrow> bool"
where
  "channels_ok out ready \<longleftrightarrow> distinct (map fst out) \<and> distinct ready \<and> set ready = dom (map_of out)
     \<and> (\<forall>ch q. map_of out ch = Some q \<longrightarrow> q \<noteq> [] \<and> (\<forall>r \<in> set q. tr_channel r = ch))"

definition total_of :: "(transport_record list \<Rightarrow> int) \<Rightarrow>
    (logical_channel \<times> transport_record list) list \<Rightarrow> int" where
  "total_of f out = sum_list (map (\<lambda>(_, q). f q) out)"

abbreviation count_of :: "transport_record list \<Rightarrow> int" where
  "count_of q \<equiv> int (length q)"

lemma ready_has_queue:
  assumes "channels_ok out ready" "ch \<in> set ready"
  obtains r q where "map_of out ch = Some (r # q)"
  using assms unfolding channels_ok_def by (metis domD list.exhaust)

lemma total_of_update:
  assumes "distinct (map fst out)"
  shows "total_of f (AList.update ch q out) = total_of f out + f q
    - (case map_of out ch of None \<Rightarrow> 0 | Some q' \<Rightarrow> f q')"
  using assms
  by (induction out) (auto simp: total_of_def map_of_eq_None_iff split: option.splits)

lemma total_of_delete:
  assumes "distinct (map fst out)" "map_of out ch = Some q"
  shows "total_of f (AList.delete ch out) = total_of f out - f q"
  using assms
proof (induction out)
  case (Cons p out)
  show ?case
  proof (cases "fst p = ch")
    case True
    with Cons.prems have "ch \<notin> fst ` set out" by auto
    then have "AList.delete ch out = out" by (simp add: delete_id image_iff)
    with True Cons.prems show ?thesis by (cases p) (simp add: total_of_def)
  next
    case False
    with Cons show ?thesis by (cases p) (auto simp: total_of_def)
  qed
qed simp

lemma queued_update: "queued (AList.update ch q out) ch' = (if ch' = ch then q else queued out ch')"
  by (simp add: queued_def update_conv)

lemma queued_delete: "queued (AList.delete ch out) ch' = (if ch' = ch then [] else queued out ch')"
  by (simp add: queued_def delete_conv)

lemma channels_ok_update:
  assumes "channels_ok out ready" "ch \<in> set ready" "q \<noteq> []" "\<forall>r \<in> set q. tr_channel r = ch"
  shows "channels_ok (AList.update ch q out) ready"
  using assms unfolding channels_ok_def by (auto simp: update_conv distinct_update split: if_splits)

lemma channels_ok_insert:
  assumes "channels_ok out ready" "map_of out ch = None" "q \<noteq> []" "\<forall>r \<in> set q. tr_channel r = ch"
  shows "channels_ok (AList.update ch q out) (ready @ [ch])"
  using assms unfolding channels_ok_def by (auto simp: update_conv distinct_update split: if_splits)

lemma channels_ok_delete:
  assumes "channels_ok out (ch # ready)"
  shows "channels_ok (AList.delete ch out) ready"
  using assms unfolding channels_ok_def by (auto simp: delete_conv distinct_delete split: if_splits)

lemma channels_ok_rotate: "channels_ok out (ch # ready) \<longleftrightarrow> channels_ok out (ready @ [ch])"
  by (auto simp: channels_ok_def)

lemma channels_ok_Nil: "channels_ok out [] \<longleftrightarrow> out = []"
  by (auto simp: channels_ok_def dom_map_of_conv_image_fst)

section \<open>Batching\<close>

text \<open>
  What collecting keeps: the table stays consistent, and for every channel the records collected
  followed by those still queued are what they were before.
\<close>

definition batch_keeps :: "write_batch \<Rightarrow> write_batch \<Rightarrow> bool" where
  "batch_keeps b b' \<longleftrightarrow> channels_ok (wb_outbound b') (wb_ready b')
     \<and> (\<forall>ch. [r \<leftarrow> wb_records b'. tr_channel r = ch] @ queued (wb_outbound b') ch
           = [r \<leftarrow> wb_records b. tr_channel r = ch] @ queued (wb_outbound b) ch)
     \<and> (\<forall>f. (\<forall>x y. f (x @ y) = f x + f y) \<longrightarrow>
           f (wb_records b') + total_of f (wb_outbound b') = f (wb_records b) + total_of f (wb_outbound b))
     \<and> wb_bytes b' - records_size (wb_records b') = wb_bytes b - records_size (wb_records b)"

lemma batch_keeps_trans: "batch_keeps a b \<Longrightarrow> batch_keeps b c \<Longrightarrow> batch_keeps a c"
  by (simp add: batch_keeps_def)

lemma take_ready_keeps:
  assumes "channels_ok (wb_outbound b) (wb_ready b)" "wb_ready b = ch # ready"
    "map_of (wb_outbound b) ch = Some (r # q)"
  shows "batch_keeps b (take_ready ch ready r q b)"
proof -
  have d: "distinct (map fst (wb_outbound b))" and r: "tr_channel r = ch" "\<forall>x \<in> set q. tr_channel x = ch"
    using assms unfolding channels_ok_def by fastforce+
  have "channels_ok (wb_outbound (take_ready ch ready r q b)) (wb_ready (take_ready ch ready r q b))"
    using assms r
    by (auto simp: take_ready_def channels_ok_rotate [symmetric] channels_ok_delete channels_ok_update)
  moreover have "f [r] + total_of f (wb_outbound (take_ready ch ready r q b)) = total_of f (wb_outbound b)"
    if f: "\<forall>x y. f (x @ y) = f x + f y" for f :: "transport_record list \<Rightarrow> int"
  proof -
    have "f (r # q) = f [r] + f q" using f by (metis append_Cons append_Nil)
    moreover have "f [] = 0" using f by (metis add_cancel_left_left append_Nil)
    ultimately show ?thesis
      using d assms(3) by (simp add: take_ready_def total_of_update total_of_delete)
  qed
  moreover have "queued (wb_outbound b) ch = r # q" using assms(3) by (simp add: queued_def)
  ultimately show ?thesis
    using r by (auto simp: batch_keeps_def take_ready_def queued_update queued_delete)
qed

lemma collect_batch_Nil: "wb_ready b = [] \<Longrightarrow> collect_batch b = Inr b"
  by (simp add: collect_batch.simps [of b])

lemma collect_batch_Cons:
  "wb_ready b = ch # ready \<Longrightarrow> map_of (wb_outbound b) ch = Some (r # q) \<Longrightarrow>
     collect_batch b =
       (if length (wb_records b) \<ge> WRITE_BATCH_RECORDS
           \<or> wb_records b \<noteq> [] \<and> wb_bytes b + record_size r > WRITE_BATCH_BYTES then Inr b
        else collect_batch (take_ready ch ready r q b))"
  by (subst collect_batch.simps) simp

lemma collect_batch_keeps:
  assumes "channels_ok (wb_outbound b) (wb_ready b)"
  shows "\<exists>b'. collect_batch b = Inr b' \<and> batch_keeps b b'"
  using assms
proof (induction b rule: collect_batch.induct)
  case (1 b)
  have refl: "batch_keeps b b" using 1(2) by (simp add: batch_keeps_def)
  show ?case
  proof (cases "wb_ready b")
    case Nil
    then show ?thesis using refl by (simp add: collect_batch_Nil)
  next
    case (Cons ch ready)
    then obtain r q where q: "map_of (wb_outbound b) ch = Some (r # q)"
      using 1(2) ready_has_queue [of "wb_outbound b" "wb_ready b" ch] by auto
    let ?b = "take_ready ch ready r q b"
    show ?thesis
    proof (cases "length (wb_records b) \<ge> WRITE_BATCH_RECORDS
        \<or> wb_records b \<noteq> [] \<and> wb_bytes b + record_size r > WRITE_BATCH_BYTES")
      case True
      then show ?thesis using refl by (auto simp: collect_batch_Cons [OF Cons q])
    next
      case False
      have keeps: "batch_keeps b ?b" by (rule take_ready_keeps [OF 1(2) Cons q])
      then have "channels_ok (wb_outbound ?b) (wb_ready ?b)" by (simp add: batch_keeps_def)
      with 1(1) [OF Cons _ q] False obtain b' where "collect_batch ?b = Inr b'" "batch_keeps ?b b'"
        by auto
      with keeps False show ?thesis
        by (auto simp: collect_batch_Cons [OF Cons q] intro: batch_keeps_trans)
    qed
  qed
qed

text \<open>Bounds of a batch, and that a ready channel is served.\<close>

lemma collect_batch_bounds:
  assumes "collect_batch b = Inr b'" "channels_ok (wb_outbound b) (wb_ready b)"
    "length (wb_records b) \<le> WRITE_BATCH_RECORDS"
    "length (wb_records b) \<le> 1 \<or> wb_bytes b \<le> WRITE_BATCH_BYTES"
  shows "length (wb_records b') \<le> WRITE_BATCH_RECORDS
    \<and> (length (wb_records b') \<le> 1 \<or> wb_bytes b' \<le> WRITE_BATCH_BYTES)
    \<and> (\<exists>new. wb_records b' = wb_records b @ new)
    \<and> (wb_ready b \<noteq> [] \<and> wb_records b = [] \<longrightarrow> wb_records b' \<noteq> [])"
  using assms
proof (induction b rule: collect_batch.induct)
  case (1 b)
  show ?case
  proof (cases "wb_ready b")
    case Nil
    then show ?thesis using 1(2-) by (auto simp: collect_batch_Nil)
  next
    case (Cons ch ready)
    then obtain r q where q: "map_of (wb_outbound b) ch = Some (r # q)"
      using 1(3) ready_has_queue [of "wb_outbound b" "wb_ready b" ch] by auto
    let ?b = "take_ready ch ready r q b"
    show ?thesis
    proof (cases "length (wb_records b) \<ge> WRITE_BATCH_RECORDS
        \<or> wb_records b \<noteq> [] \<and> wb_bytes b + record_size r > WRITE_BATCH_BYTES")
      case True
      then have "b' = b" using 1(2) by (simp add: collect_batch_Cons [OF Cons q])
      with True 1(3-) show ?thesis by auto
    next
      case False
      have "channels_ok (wb_outbound ?b) (wb_ready ?b)"
        using take_ready_keeps [OF 1(3) Cons q] by (simp add: batch_keeps_def)
      moreover have "length (wb_records ?b) \<le> WRITE_BATCH_RECORDS"
        "length (wb_records ?b) \<le> 1 \<or> wb_bytes ?b \<le> WRITE_BATCH_BYTES"
        using False by (auto simp: take_ready_def)
      moreover have "collect_batch ?b = Inr b'"
        using 1(2) False by (simp add: collect_batch_Cons [OF Cons q])
      ultimately have "length (wb_records b') \<le> WRITE_BATCH_RECORDS
          \<and> (length (wb_records b') \<le> 1 \<or> wb_bytes b' \<le> WRITE_BATCH_BYTES)
          \<and> (\<exists>new. wb_records b' = wb_records ?b @ new)"
        using 1(1) [OF Cons _ q] False by auto
      then show ?thesis by (auto simp: take_ready_def)
    qed
  qed
qed

end
