(* ===== verification/Tcp_Steps.thy ===== *)
theory Tcp_Steps
  imports Tcp_Outbound
begin

text \<open>
  A connection and its threads as a transition system: callers that send, receive, activate and
  close, the writer thread between taking a batch and having written it, and the reader thread in
  its phases. Every step is one section of the code that runs under the lock, so the relation has
  every interleaving of the threads. The last four fields are history: what was admitted, what was
  given to the socket (by a write that returned, or that failed part way), what arrived from it and
  what callers received.
\<close>

record tcp_system =
  ts_conn :: tcp_connection
  ts_phase :: reader_phase
  ts_inflight :: "(transport_record list \<times> int) option"
  ts_admitted :: "transport_record list"
  ts_written :: "transport_record list"
  ts_arrived :: bytes
  ts_received :: "transport_record list"

definition tcp_system_init :: "tcp_connection \<Rightarrow> tcp_system" where
  "tcp_system_init c = \<lparr>ts_conn = c, ts_phase = RP_Idle, ts_inflight = None, ts_admitted = [],
     ts_written = [], ts_arrived = [], ts_received = []\<rparr>"

text \<open>The callers and the writer thread.\<close>

inductive outbound_step :: "tcp_system \<Rightarrow> tcp_system \<Rightarrow> bool" where
  Send: "tcp_send seen r (ts_conn s) = Inr c \<Longrightarrow>
    outbound_step s (s\<lparr>ts_conn := c, ts_admitted := ts_admitted s @ [r]\<rparr>)"
| SendPrevalidated: "tcp_send_prevalidated r m b (ts_conn s) = Inr c \<Longrightarrow>
    outbound_step s (s\<lparr>ts_conn := c, ts_admitted := ts_admitted s @ [r]\<rparr>)"
| SendActive: "tcp_send_active r (ts_conn s) = Inr c \<Longrightarrow>
    outbound_step s (s\<lparr>ts_conn := c, ts_admitted := ts_admitted s @ [r]\<rparr>)"
| SendTerminal: "tcp_send_terminal seen r (ts_conn s) = Inr c \<Longrightarrow>
    outbound_step s (s\<lparr>ts_conn := c, ts_admitted := ts_admitted s @ [r]\<rparr>)"
| WriterTake: "ts_inflight s = None \<Longrightarrow> tc_writer_ready (ts_conn s) \<Longrightarrow>
    writer_take (ts_conn s) = Inr (Some (records, n, c)) \<Longrightarrow>
    outbound_step s (s\<lparr>ts_conn := c, ts_inflight := (if records = [] then None else Some (records, n))\<rparr>)"
| WriterCrash: "ts_inflight s = None \<Longrightarrow> tc_writer_ready (ts_conn s) \<Longrightarrow>
    writer_take (ts_conn s) = Inl e \<Longrightarrow>
    outbound_step s (s\<lparr>ts_conn := snd (tcp_terminate (Some TransportClosedError) (ts_conn s))\<rparr>)"
| WriterWrote: "ts_inflight s = Some (records, n) \<Longrightarrow>
    outbound_step s (s\<lparr>ts_conn := writer_done records n (ts_conn s), ts_inflight := None,
      ts_written := ts_written s @ records\<rparr>)"
| WriterFailed: "ts_inflight s = Some (records, n) \<Longrightarrow>
    outbound_step s (s\<lparr>ts_conn := snd (tcp_terminate (Some TransportClosedError) (ts_conn s)),
      ts_inflight := None, ts_written := ts_written s @ records\<rparr>)"

text \<open>Configuration and closing.\<close>

inductive control_step :: "tcp_system \<Rightarrow> tcp_system \<Rightarrow> bool" where
  Activate: "limits_ok limits \<Longrightarrow> tcp_activate limits (ts_conn s) = Inr c \<Longrightarrow>
    control_step s (s\<lparr>ts_conn := c\<rparr>)"
| Tighten: "tcp_set_maximum_record_bytes m (ts_conn s) = Inr c \<Longrightarrow>
    control_step s (s\<lparr>ts_conn := c\<rparr>)"
| Close: "control_step s (s\<lparr>ts_conn := snd (tcp_terminate None (ts_conn s))\<rparr>)"

text \<open>The callers that receive and the reader thread; a chunk is what the socket returns.\<close>

inductive inbound_step :: "tcp_system \<Rightarrow> tcp_system \<Rightarrow> bool" where
  Receive: "tcp_receive_many m (ts_conn s) = Inr (records, c) \<Longrightarrow>
    inbound_step s (s\<lparr>ts_conn := c, ts_received := ts_received s @ records\<rparr>)"
| ReaderStart: "ts_phase s = RP_Idle \<Longrightarrow> reader_start (ts_conn s) = Some (phase, c) \<Longrightarrow>
    inbound_step s (s\<lparr>ts_conn := c, ts_phase := phase\<rparr>)"
| ReaderHeader: "ts_phase s = RP_Header \<Longrightarrow>
    buffered (ts_conn s) \<ge> COMMON_HEADER_SIZE \<or> tc_state (ts_conn s) = CS_CLOSED \<Longrightarrow>
    reader_header (ts_conn s) = (phase, c) \<Longrightarrow>
    inbound_step s (s\<lparr>ts_conn := c, ts_phase := phase\<rparr>)"
| ReaderHeaderChunk: "ts_phase s = RP_Header \<Longrightarrow> buffered (ts_conn s) < COMMON_HEADER_SIZE \<Longrightarrow>
    tc_state (ts_conn s) \<noteq> CS_CLOSED \<Longrightarrow> chunk \<noteq> [] \<Longrightarrow>
    int (length chunk) \<le> recv_request COMMON_HEADER_SIZE 0 (ts_conn s) \<Longrightarrow>
    recv_chunk COMMON_HEADER_SIZE 0 True chunk (ts_conn s) = (left, c) \<Longrightarrow>
    inbound_step s (s\<lparr>ts_conn := c, ts_arrived := ts_arrived s @ chunk\<rparr>)"
| ReaderAdmit: "ts_phase s = RP_Admit header \<Longrightarrow>
    reader_admit header (ts_conn s) = Some (phase, c) \<Longrightarrow>
    inbound_step s (s\<lparr>ts_conn := c, ts_phase := phase\<rparr>)"
| ReaderBody: "ts_phase s = RP_Body header declared terminal ahead \<Longrightarrow>
    buffered (ts_conn s) \<ge> declared - COMMON_HEADER_SIZE \<or> tc_state (ts_conn s) = CS_CLOSED \<Longrightarrow>
    reader_body header declared terminal (ts_conn s) = (phase, c) \<Longrightarrow>
    inbound_step s (s\<lparr>ts_conn := c, ts_phase := phase\<rparr>)"
| ReaderBodyChunk: "ts_phase s = RP_Body header declared terminal ahead \<Longrightarrow>
    buffered (ts_conn s) < declared - COMMON_HEADER_SIZE \<Longrightarrow>
    tc_state (ts_conn s) \<noteq> CS_CLOSED \<Longrightarrow> chunk \<noteq> [] \<Longrightarrow>
    int (length chunk) \<le> recv_request (declared - COMMON_HEADER_SIZE) ahead (ts_conn s) \<Longrightarrow>
    recv_chunk (declared - COMMON_HEADER_SIZE) ahead False chunk (ts_conn s) = (left, c) \<Longrightarrow>
    inbound_step s (s\<lparr>ts_conn := c, ts_phase := RP_Body header declared terminal left,
      ts_arrived := ts_arrived s @ chunk\<rparr>)"
| ReaderHeaderEof: "ts_phase s = RP_Header \<Longrightarrow> buffered (ts_conn s) < COMMON_HEADER_SIZE \<Longrightarrow>
    tc_state (ts_conn s) \<noteq> CS_CLOSED \<Longrightarrow> reader_eof None (ts_conn s) = (phase, c) \<Longrightarrow>
    inbound_step s (s\<lparr>ts_conn := c, ts_phase := phase\<rparr>)"
| ReaderBodyEof: "ts_phase s = RP_Body header declared terminal ahead \<Longrightarrow>
    buffered (ts_conn s) < declared - COMMON_HEADER_SIZE \<Longrightarrow>
    tc_state (ts_conn s) \<noteq> CS_CLOSED \<Longrightarrow> reader_eof (Some declared) (ts_conn s) = (phase, c) \<Longrightarrow>
    inbound_step s (s\<lparr>ts_conn := c, ts_phase := phase\<rparr>)"
| ReaderSocketError: "ts_phase s \<in> {RP_Header} \<or> (\<exists>h d t a. ts_phase s = RP_Body h d t a) \<Longrightarrow>
    inbound_step s (s\<lparr>ts_conn := snd (tcp_terminate (Some TransportClosedError) (ts_conn s)),
      ts_phase := RP_Stopped\<rparr>)"

definition tcp_step :: "tcp_system \<Rightarrow> tcp_system \<Rightarrow> bool" where
  "tcp_step s s' \<longleftrightarrow> outbound_step s s' \<or> control_step s s' \<or> inbound_step s s'"

inductive tcp_reachable :: "tcp_system \<Rightarrow> bool" where
  Init: "limits_ok limits \<Longrightarrow> tcp_connection_init limits uid = Inr c \<Longrightarrow>
    tcp_reachable (tcp_system_init c)"
| Step: "tcp_reachable s \<Longrightarrow> tcp_step s s' \<Longrightarrow> tcp_reachable s'"

inductive_cases outbound_stepE: "outbound_step s s'"
inductive_cases control_stepE: "control_step s s'"
inductive_cases inbound_stepE: "inbound_step s s'"

section \<open>The outbound invariant\<close>

definition inflight_records :: "tcp_system \<Rightarrow> transport_record list" where
  "inflight_records s = (case ts_inflight s of None \<Rightarrow> [] | Some (records, _) \<Rightarrow> records)"

definition pending_terminal :: "tcp_connection \<Rightarrow> transport_record list" where
  "pending_terminal c =
     (if tc_terminal_outbound_pending c
      then case tc_terminal_outbound_record c of None \<Rightarrow> [] | Some t \<Rightarrow> [t] else [])"

definition on_channel :: "logical_channel \<Rightarrow> transport_record list \<Rightarrow> transport_record list" where
  "on_channel ch rs = [r \<leftarrow> rs. tr_channel r = ch]"

lemma on_channel_simps [simp]:
  "on_channel ch [] = []" "on_channel ch (rs @ rs') = on_channel ch rs @ on_channel ch rs'"
  by (simp_all add: on_channel_def)

text \<open>
  While a connection is not closed: the channel table is consistent, the writer is signalled
  whenever there is work, the counters count what is queued, pending and in flight, every channel is
  a queue from admission to the socket, and once a terminal record was admitted it is the last
  record of all. The last three arguments are the records in flight, written and admitted.
\<close>

definition counters_ok :: "tcp_connection \<Rightarrow> transport_record list \<Rightarrow> bool" where
  "counters_ok c inflight \<longleftrightarrow>
     tc_outbound_messages c
       = total_of count_of (tc_outbound c) + count_of (pending_terminal c) + count_of inflight
     \<and> tc_outbound_bytes c
       = total_of records_size (tc_outbound c) + records_size (pending_terminal c)
         + records_size inflight"

definition fifo_ok ::
  "tcp_connection \<Rightarrow> transport_record list \<Rightarrow> transport_record list \<Rightarrow> transport_record list \<Rightarrow> bool"
where
  "fifo_ok c inflight written admitted \<longleftrightarrow>
     (\<forall>ch. on_channel ch written @ on_channel ch inflight @ queued (tc_outbound c) ch
          @ on_channel ch (pending_terminal c) = on_channel ch admitted)"

definition terminal_ok ::
  "tcp_connection \<Rightarrow> transport_record list \<Rightarrow> transport_record list \<Rightarrow> transport_record list \<Rightarrow> bool"
where
  "terminal_ok c inflight written admitted \<longleftrightarrow>
     (tc_terminal_outbound_pending c \<longrightarrow> tc_terminal_outbound_record c \<noteq> None)
     \<and> (\<forall>t. tc_terminal_outbound_record c = Some t \<longrightarrow>
          (\<exists>before. admitted = before @ [t])
          \<and> (\<not> tc_terminal_outbound_pending c \<longrightarrow> tc_ready_channels c = []
               \<and> (\<exists>before. written @ inflight = before @ [t])))"

definition outbound_ok ::
  "tcp_connection \<Rightarrow> transport_record list \<Rightarrow> transport_record list \<Rightarrow> transport_record list \<Rightarrow> bool"
where
  "outbound_ok c inflight written admitted \<longleftrightarrow>
     channels_ok (tc_outbound c) (tc_ready_channels c)
     \<and> (tc_ready_channels c \<noteq> [] \<or> tc_terminal_outbound_pending c \<longrightarrow> tc_writer_ready c)
     \<and> counters_ok c inflight \<and> fifo_ok c inflight written admitted
     \<and> terminal_ok c inflight written admitted"

lemmas outbound_defs = outbound_ok_def counters_ok_def fifo_ok_def terminal_ok_def

definition outbound_inv :: "tcp_system \<Rightarrow> bool" where
  "outbound_inv s \<longleftrightarrow>
     outbound_ok (ts_conn s) (inflight_records s) (ts_written s) (ts_admitted s)
     \<and> (\<forall>records n. ts_inflight s = Some (records, n) \<longrightarrow> n = records_size records)"

lemma pending_terminal_None [simp]:
  "tc_terminal_outbound_record c = None \<Longrightarrow> pending_terminal c = []"
  by (simp add: pending_terminal_def)

lemma outbound_ok_enqueue:
  assumes "outbound_ok c inflight written admitted" "tc_terminal_outbound_record c = None"
  shows "outbound_ok (enqueue_outbound_locked r c) inflight written (admitted @ [r])"
proof -
  let ?ch = "tr_channel r" and ?c = "enqueue_outbound_locked r c"
  have inv: "channels_ok (tc_outbound c) (tc_ready_channels c)" "distinct (map fst (tc_outbound c))"
    "tc_ready_channels c \<noteq> [] \<Longrightarrow> tc_writer_ready c" "\<not> tc_terminal_outbound_pending c"
    using assms by (auto simp: outbound_defs channels_ok_def)
  have out: "tc_outbound ?c = AList.update ?ch (queued (tc_outbound c) ?ch @ [r]) (tc_outbound c)"
    "tc_terminal_outbound_record ?c = None" "tc_terminal_outbound_pending ?c = tc_terminal_outbound_pending c"
    "tc_outbound_messages ?c = tc_outbound_messages c + 1"
    "tc_outbound_bytes ?c = tc_outbound_bytes c + record_size r"
    "tc_writer_ready ?c"
    using assms(2) inv(3)
    by (auto simp: enqueue_outbound_locked_def Let_def queued_def split: option.splits)
  have "channels_ok (tc_outbound ?c) (tc_ready_channels ?c)"
  proof (cases "map_of (tc_outbound c) ?ch")
    case None
    then show ?thesis
      by (auto simp: enqueue_outbound_locked_def intro: channels_ok_insert [OF inv(1)])
  next
    case (Some q)
    then have "?ch \<in> set (tc_ready_channels c)" "\<forall>x \<in> set q. tr_channel x = ?ch"
      using inv(1) by (auto simp: channels_ok_def)
    then have "channels_ok (AList.update ?ch (q @ [r]) (tc_outbound c)) (tc_ready_channels c)"
      by (intro channels_ok_update [OF inv(1)]) auto
    with Some show ?thesis by (simp add: enqueue_outbound_locked_def)
  qed
  moreover have "total_of count_of (tc_outbound ?c) = total_of count_of (tc_outbound c) + 1"
    "total_of records_size (tc_outbound ?c) = total_of records_size (tc_outbound c) + record_size r"
    unfolding out using inv(2) by (auto simp: total_of_update queued_def split: option.splits)
  moreover have "queued (tc_outbound ?c) ch = queued (tc_outbound c) ch @ on_channel ch [r]" for ch
    by (auto simp: out queued_update on_channel_def)
  ultimately show ?thesis
    using assms inv(4) out(2-) by (auto simp: outbound_defs)
qed

lemma outbound_ok_terminal:
  assumes "outbound_ok c inflight written admitted" "tc_terminal_outbound_record c = None"
    and "c' = c\<lparr>tc_terminal_outbound_record := Some r, tc_terminal_outbound_pending := True,
              tc_outbound_messages := tc_outbound_messages c + 1,
              tc_outbound_bytes := tc_outbound_bytes c + record_size r,
              tc_writer_ready := True\<rparr>"
  shows "outbound_ok c' inflight written (admitted @ [r])"
proof -
  have "pending_terminal c' = [r]" by (simp add: assms(3) pending_terminal_def)
  with assms show ?thesis by (simp add: outbound_defs)
qed

lemma batch_keeps_total:
  "batch_keeps b b' \<Longrightarrow> (\<And>x y. f (x @ y) = f x + f y) \<Longrightarrow>
     f (wb_records b') + total_of f (wb_outbound b') = f (wb_records b) + total_of f (wb_outbound b)"
  unfolding batch_keeps_def by blast

lemma outbound_ok_take:
  assumes "outbound_ok c [] written admitted" "writer_take c = Inr (Some (records, n, c'))"
    "tc_writer_ready c"
  shows "outbound_ok c' records written admitted \<and> n = records_size records"
proof -
  let ?b = "\<lparr>wb_outbound = tc_outbound c, wb_ready = tc_ready_channels c, wb_records = [],
    wb_bytes = 0, wb_first = None\<rparr>"
  have ok: "channels_ok (wb_outbound ?b) (wb_ready ?b)" using assms(1) by (simp add: outbound_ok_def)
  obtain b where b: "collect_batch ?b = Inr b" "batch_keeps ?b b"
    using collect_batch_keeps [OF ok] by blast
  let ?t = "terminal_for_batch c b"
  have c': "records = wb_records b @ ?t" "n = wb_bytes b + records_size ?t"
    "tc_outbound c' = wb_outbound b" "tc_ready_channels c' = wb_ready b"
    "tc_terminal_outbound_pending c' = (tc_terminal_outbound_pending c \<and> ?t = [])"
    "tc_terminal_outbound_record c' = tc_terminal_outbound_record c"
    "tc_outbound_messages c' = tc_outbound_messages c" "tc_outbound_bytes c' = tc_outbound_bytes c"
    "tc_writer_ready c' = (tc_writer_ready c \<and> \<not> (wb_ready b = [] \<and> \<not> tc_terminal_outbound_pending c'))"
    using assms(2) b(1) by (auto simp: writer_take_def Let_def split: if_splits)
  have split_t: "?t @ pending_terminal c' = pending_terminal c" "?t \<noteq> [] \<Longrightarrow> wb_ready b = []"
    by (auto simp: terminal_for_batch_def pending_terminal_def c' split: option.splits if_splits)
  have keeps: "channels_ok (wb_outbound b) (wb_ready b)"
    "\<And>ch. on_channel ch (wb_records b) @ queued (wb_outbound b) ch = queued (tc_outbound c) ch"
    "count_of (wb_records b) + total_of count_of (wb_outbound b) = total_of count_of (tc_outbound c)"
    "records_size (wb_records b) + total_of records_size (wb_outbound b)
      = total_of records_size (tc_outbound c)"
    "wb_bytes b = records_size (wb_records b)"
    using b(2) batch_keeps_total [OF b(2), of count_of] batch_keeps_total [OF b(2), of records_size]
    by (auto simp: batch_keeps_def on_channel_def)
  have "counters_ok c' records"
    using assms(1) keeps(3,4) arg_cong [OF split_t(1), of count_of] arg_cong [OF split_t(1), of records_size]
    by (simp add: outbound_ok_def counters_ok_def c')
  moreover have "fifo_ok c' records written admitted"
    unfolding fifo_ok_def
  proof
    fix ch
    have "on_channel ch written @ queued (tc_outbound c) ch @ on_channel ch (pending_terminal c)
        = on_channel ch admitted"
      using assms(1) by (simp add: outbound_ok_def fifo_ok_def)
    moreover have "on_channel ch ?t = [] \<or> queued (wb_outbound b) ch = []"
      using split_t(2) keeps(1) by (cases "?t = []") (auto simp: channels_ok_Nil queued_def)
    ultimately show "on_channel ch written @ on_channel ch records @ queued (tc_outbound c') ch
        @ on_channel ch (pending_terminal c') = on_channel ch admitted"
      by (auto simp: c' simp flip: keeps(2) split_t(1))
  qed
  moreover have "terminal_ok c' records written admitted"
  proof (cases "tc_terminal_outbound_pending c")
    case True
    then obtain t before where t: "tc_terminal_outbound_record c = Some t" "admitted = before @ [t]"
      using assms(1) by (auto simp: outbound_ok_def terminal_ok_def)
    then have "?t = [] \<or> ?t = [t]" by (simp add: terminal_for_batch_def)
    then show ?thesis using True t split_t(2) by (auto simp: terminal_ok_def c')
  next
    case False
    show ?thesis
    proof (cases "tc_terminal_outbound_record c")
      case None
      with False show ?thesis by (simp add: terminal_ok_def c')
    next
      case (Some t)
      then have "tc_ready_channels c = []" using False assms(1) by (auto simp: outbound_ok_def terminal_ok_def)
      then have "b = ?b" using b(1) by (simp add: collect_batch_Nil)
      with False Some assms(1) show ?thesis
        by (simp add: outbound_ok_def terminal_ok_def c' terminal_for_batch_def)
    qed
  qed
  ultimately show ?thesis
    using assms(3) keeps c' by (auto simp: outbound_ok_def)
qed

lemma outbound_ok_done:
  assumes "outbound_ok c records written admitted" "tc_state c \<noteq> CS_CLOSED"
  shows "outbound_ok (writer_done records (records_size records) c) [] (written @ records) admitted"
proof -
  let ?c = "writer_done records (records_size records) c"
  have "pending_terminal ?c = pending_terminal c" using assms(2) by (simp add: writer_done_def pending_terminal_def)
  with assms show ?thesis by (simp add: outbound_defs writer_done_def)
qed

text \<open>What the inbound half and the configuration leave alone.\<close>

definition same_outbound :: "tcp_connection \<Rightarrow> tcp_connection \<Rightarrow> bool" where
  "same_outbound c c' \<longleftrightarrow> tc_outbound c' = tc_outbound c \<and> tc_ready_channels c' = tc_ready_channels c
     \<and> tc_outbound_messages c' = tc_outbound_messages c \<and> tc_outbound_bytes c' = tc_outbound_bytes c
     \<and> tc_terminal_outbound_record c' = tc_terminal_outbound_record c
     \<and> tc_terminal_outbound_pending c' = tc_terminal_outbound_pending c
     \<and> tc_writer_ready c' = tc_writer_ready c"

lemma outbound_ok_same:
  assumes "outbound_ok c inflight written admitted" "same_outbound c c'"
  shows "outbound_ok c' inflight written admitted"
proof -
  have "pending_terminal c' = pending_terminal c"
    using assms(2) by (cases "tc_terminal_outbound_record c") (simp_all add: pending_terminal_def same_outbound_def)
  with assms show ?thesis by (simp add: outbound_defs same_outbound_def)
qed

lemma terminate_closed [simp]: "tc_state (snd (tcp_terminate e c)) = CS_CLOSED"
  by (simp add: tcp_terminate_def)

lemma same_outbound_simps [simp]:
  "same_outbound c c" "same_outbound c (snd (recv_take n c))"
  "same_outbound c (snd (recv_chunk n a t chunk c))" "same_outbound c (recv_begin n t c)"
  "same_outbound c (release_reservation n c)" "same_outbound c (snd (tcp_fail_read e c))"
  by (simp_all add: same_outbound_def recv_take_def recv_chunk_def recv_begin_def
      release_reservation_def tcp_fail_read_def Let_def)

lemma same_outbound_trans: "same_outbound a b \<Longrightarrow> same_outbound b c \<Longrightarrow> same_outbound a c"
  by (simp add: same_outbound_def)

text \<open>A step of the reader keeps the outbound half, or closes the connection.\<close>

definition keeps_outbound :: "tcp_connection \<Rightarrow> tcp_connection \<Rightarrow> bool" where
  "keeps_outbound c c' \<longleftrightarrow> same_outbound c c' \<or> tc_state c' = CS_CLOSED"

lemma reader_failed_keeps: "same_outbound c d \<Longrightarrow> keeps_outbound c (snd (reader_failed e d))"
  by (auto simp: reader_failed_def keeps_outbound_def intro: same_outbound_trans)

lemma reader_admit_keeps:
  "same_outbound c d \<Longrightarrow> reader_admit header d = Some (phase, c') \<Longrightarrow> keeps_outbound c c'"
  using reader_failed_keeps [of c d TransportFlowControlError]
  by (auto simp: reader_admit_def Let_def keeps_outbound_def same_outbound_def recv_begin_def
      split: if_splits)

lemma reader_header_keeps:
  assumes "reader_header c = (phase, c')"
  shows "keeps_outbound c c'"
proof (cases "tc_state c = CS_CLOSED")
  case True
  with assms show ?thesis by (simp add: reader_header_def keeps_outbound_def)
next
  case False
  obtain header d where d: "recv_take 16 c = (header, d)" by fastforce
  then have "same_outbound c d" using same_outbound_simps(2) [of c 16] by simp
  moreover from this have "keeps_outbound c d" by (simp add: keeps_outbound_def)
  ultimately show ?thesis
    using assms False d reader_failed_keeps [of c d] reader_admit_keeps [of c d header phase c']
    by (auto simp: reader_header_def split: if_splits option.splits) (metis snd_conv)+
qed

lemma reader_body_keeps:
  assumes "reader_body header declared terminal c = (phase, c')"
  shows "keeps_outbound c c'"
proof (cases "tc_state c = CS_CLOSED")
  case True
  with assms show ?thesis by (auto simp: reader_body_def keeps_outbound_def)
next
  case False
  obtain body d where d: "recv_take (declared - 16) c = (body, d)" by fastforce
  then have same: "same_outbound c d" using same_outbound_simps(2) [of c "declared - 16"] by simp
  show ?thesis
  proof (cases "declared > tc_maximum_record_bytes d
      \<or> tc_inbound_messages d > inbound_message_limit terminal d
      \<or> tc_inbound_bytes d > inbound_byte_limit terminal d")
    case True
    then have "c' = snd (reader_failed TransportFlowControlError (release_reservation declared d))"
      using assms False d by (simp add: reader_body_def)
    then show ?thesis
      using same by (simp add: reader_failed_keeps same_outbound_trans [OF _ same_outbound_simps(5)])
  next
    case False
    then have "same_outbound d c'"
      using assms \<open>tc_state c \<noteq> CS_CLOSED\<close> d by (auto simp: reader_body_def same_outbound_def Let_def)
    then show ?thesis using same same_outbound_trans keeps_outbound_def by blast
  qed
qed

lemma reader_start_keeps: "reader_start c = Some (phase, c') \<Longrightarrow> keeps_outbound c c'"
  by (auto simp: reader_start_def keeps_outbound_def split: if_splits)

lemma receive_keeps: "tcp_receive_many m c = Inr (records, c') \<Longrightarrow> keeps_outbound c c'"
  by (auto simp: tcp_receive_many_def keeps_outbound_def same_outbound_def Let_def result_simps
      split: if_splits option.splits)

lemma control_keeps:
  "tcp_activate limits c = Inr c' \<Longrightarrow> keeps_outbound c c'"
  "tcp_set_maximum_record_bytes m c = Inr c' \<Longrightarrow> keeps_outbound c c'"
  "keeps_outbound c (snd (tcp_terminate e c))"
  by (auto simp: tcp_activate_def tcp_set_maximum_record_bytes_def keeps_outbound_def
      same_outbound_def result_simps)

lemma inbound_step_keeps:
  assumes "inbound_step s s' \<or> control_step s s'"
  shows "keeps_outbound (ts_conn s) (ts_conn s') \<and> ts_inflight s' = ts_inflight s
    \<and> ts_written s' = ts_written s \<and> ts_admitted s' = ts_admitted s"
proof -
  have chunk: "recv_chunk n a t chunk c = (l, d) \<Longrightarrow> keeps_outbound c d" for n a t chunk c l d
    using same_outbound_simps(3) [of c n a t chunk] by (simp add: keeps_outbound_def)
  have eof: "reader_eof r c = (phase, d) \<Longrightarrow> keeps_outbound c d" for r c phase d
    by (auto simp: reader_eof_def keeps_outbound_def)
  show ?thesis
    using assms
    by (elim disjE inbound_stepE control_stepE)
      (simp_all add: control_keeps receive_keeps reader_start_keeps reader_header_keeps
        reader_admit_keeps [OF same_outbound_simps(1)] reader_body_keeps chunk eof)
qed

text \<open>A closed connection stays closed, whatever happens to it.\<close>

lemma closed_reader:
  assumes "tc_state c = CS_CLOSED"
  shows "tc_state (snd (reader_failed e c)) = CS_CLOSED"
    "reader_start c = Some (phase, c') \<Longrightarrow> tc_state c' = CS_CLOSED"
    "reader_header c = (phase, c') \<Longrightarrow> tc_state c' = CS_CLOSED"
    "reader_body header declared terminal c = (phase, c') \<Longrightarrow> tc_state c' = CS_CLOSED"
    "tcp_receive_many m c = Inr (records, c') \<Longrightarrow> tc_state c' = CS_CLOSED"
  using assms
  by (auto simp: reader_failed_def tcp_fail_read_def reader_start_def reader_header_def reader_body_def
      release_reservation_def tcp_receive_many_def Let_def result_simps split: if_splits option.splits)

lemma closed_admit:
  "tc_state c = CS_CLOSED \<Longrightarrow> reader_admit header c = Some (phase, c') \<Longrightarrow> tc_state c' = CS_CLOSED"
  using closed_reader(1) [of c TransportFlowControlError]
  by (auto simp: reader_admit_def Let_def recv_begin_def split: if_splits)

lemma closed_stays_closed:
  assumes "tcp_step s s'" "tc_state (ts_conn s) = CS_CLOSED"
  shows "tc_state (ts_conn s') = CS_CLOSED"
proof -
  have "tc_state (ts_conn s') = CS_CLOSED" if "outbound_step s s'"
    using that assms(2)
    by cases (auto simp: tcp_send_def tcp_send_prevalidated_def tcp_send_active_def
        tcp_send_terminal_def writer_take_def writer_done_def result_simps split: if_splits)
  moreover have "tc_state (ts_conn s') = CS_CLOSED" if "control_step s s'"
    using that assms(2)
    by cases (auto simp: tcp_activate_def tcp_set_maximum_record_bytes_def result_simps)
  moreover have "tc_state (ts_conn s') = CS_CLOSED" if "inbound_step s s'"
    using that assms(2)
    by cases (auto simp: reader_eof_def dest: closed_reader closed_admit)
  ultimately show ?thesis using assms(1) by (auto simp: tcp_step_def)
qed

lemma outbound_step_inv:
  assumes "outbound_step s s'" "outbound_inv s" "tc_state (ts_conn s') \<noteq> CS_CLOSED" "tc_state (ts_conn s) \<noteq> CS_CLOSED"
  shows "outbound_inv s'"
  using assms(1)
proof cases
  case (Send seen r c)
  then show ?thesis
    using assms outbound_ok_enqueue [of "ts_conn s"]
    by (auto simp: tcp_send_def result_simps outbound_inv_def inflight_records_def)
next
  case (SendPrevalidated r m b c)
  then show ?thesis
    using assms outbound_ok_enqueue [of "ts_conn s"]
    by (auto simp: tcp_send_prevalidated_def result_simps outbound_inv_def inflight_records_def)
next
  case (SendActive r c)
  then show ?thesis
    using assms outbound_ok_enqueue [of "ts_conn s"]
    by (auto simp: tcp_send_active_def result_simps outbound_inv_def inflight_records_def)
next
  case (SendTerminal seen r c)
  then show ?thesis
    using assms outbound_ok_terminal [of "ts_conn s"]
    by (auto simp: tcp_send_terminal_def result_simps outbound_inv_def inflight_records_def)
next
  case (WriterTake records n c)
  then show ?thesis
    using assms outbound_ok_take [of "ts_conn s" "ts_written s" "ts_admitted s" records n c]
    by (auto simp: outbound_inv_def inflight_records_def)
next
  case (WriterWrote records n)
  then show ?thesis
    using assms outbound_ok_done [of "ts_conn s" records "ts_written s" "ts_admitted s"]
    by (auto simp: outbound_inv_def inflight_records_def)
qed (use assms in auto)

lemma tcp_step_outbound:
  assumes "tcp_step s s'" "tc_state (ts_conn s) \<noteq> CS_CLOSED \<longrightarrow> outbound_inv s"
  shows "tc_state (ts_conn s') \<noteq> CS_CLOSED \<longrightarrow> outbound_inv s'"
proof
  assume open': "tc_state (ts_conn s') \<noteq> CS_CLOSED"
  then have "open": "tc_state (ts_conn s) \<noteq> CS_CLOSED" "outbound_inv s"
    using assms closed_stays_closed by blast+
  show "outbound_inv s'"
  proof (cases "outbound_step s s'")
    case True
    then show ?thesis using "open" open' outbound_step_inv by blast
  next
    case False
    then have k: "keeps_outbound (ts_conn s) (ts_conn s')" "ts_inflight s' = ts_inflight s"
      "ts_written s' = ts_written s" "ts_admitted s' = ts_admitted s"
      using assms(1) inbound_step_keeps by (auto simp: tcp_step_def)
    then have same: "same_outbound (ts_conn s) (ts_conn s')" using open' by (simp add: keeps_outbound_def)
    have "outbound_ok (ts_conn s') (inflight_records s) (ts_written s) (ts_admitted s)"
      using "open"(2) by (intro outbound_ok_same [OF _ same]) (simp add: outbound_inv_def)
    then show ?thesis using "open"(2) k by (simp add: outbound_inv_def inflight_records_def)
  qed
qed

lemma tcp_reachable_outbound:
  "tcp_reachable s \<Longrightarrow> tc_state (ts_conn s) \<noteq> CS_CLOSED \<longrightarrow> outbound_inv s"
proof (induction rule: tcp_reachable.induct)
  case (Init limits uid c)
  then show ?case
    by (auto simp: tcp_connection_init_def tcp_system_init_def outbound_inv_def outbound_defs
        channels_ok_def inflight_records_def pending_terminal_def total_of_def queued_def result_simps)
next
  case (Step s s')
  then show ?case using tcp_step_outbound by blast
qed

end
