(* ===== verification/Tcp_Inbound.thy ===== *)
theory Tcp_Inbound
  imports Tcp_Steps
begin

text \<open>
  The inbound half of a connection: the byte stream is cut into exactly the frames its headers
  announce, whatever chunks the socket returns; the inbound counters account for every byte held;
  and a reader that waits for room is released once the queue is drained.
\<close>

section \<open>The invariant\<close>

definition unread :: "tcp_connection \<Rightarrow> bytes" where
  "unread c = drop (tc_receive_offset c) (tc_receive_buffer c)"

text \<open>The header in hand, and the size reserved for the record being read.\<close>

fun held_header :: "reader_phase \<Rightarrow> bytes" where
  "held_header (RP_Admit h) = h"
| "held_header (RP_Body h _ _ _) = h"
| "held_header _ = []"

fun reserved :: "reader_phase \<Rightarrow> int option" where
  "reserved (RP_Body _ d _ _) = Some d"
| "reserved _ = None"

definition reserved_size :: "reader_phase \<Rightarrow> int" where
  "reserved_size p = (case reserved p of None \<Rightarrow> 0 | Some d \<Rightarrow> d)"

definition reserved_count :: "reader_phase \<Rightarrow> int" where
  "reserved_count p = (case reserved p of None \<Rightarrow> 0 | Some _ \<Rightarrow> 1)"

text \<open>How the unread bytes divide into those of the current field and those read ahead.\<close>

fun phase_ok :: "reader_phase \<Rightarrow> tcp_connection \<Rightarrow> bool" where
  "phase_ok RP_Idle c \<longleftrightarrow> tc_reading_header_bytes c = 0 \<and> buffered c = tc_unassigned_receive_bytes c"
| "phase_ok RP_Header c \<longleftrightarrow> 0 \<le> tc_reading_header_bytes c \<and> tc_reading_header_bytes c \<le> 16
     \<and> buffered c = tc_reading_header_bytes c + tc_unassigned_receive_bytes c
     \<and> (0 < tc_unassigned_receive_bytes c \<longrightarrow> tc_reading_header_bytes c = 16)"
| "phase_ok (RP_Admit h) c \<longleftrightarrow> length h = 16 \<and> 16 \<le> frame_total h \<and> tc_reading_header_bytes c = 16
     \<and> buffered c = tc_unassigned_receive_bytes c"
| "phase_ok (RP_Body h d t a) c \<longleftrightarrow> length h = 16 \<and> d = frame_total h \<and> 16 \<le> d
     \<and> t = terminal_header h \<and> tc_reading_header_bytes c = 0 \<and> 0 \<le> a
     \<and> tc_unassigned_receive_bytes c \<le> buffered c
     \<and> buffered c \<le> d - 16 + tc_unassigned_receive_bytes c
     \<and> (0 < tc_unassigned_receive_bytes c \<longrightarrow> buffered c = d - 16 + tc_unassigned_receive_bytes c)"
| "phase_ok RP_Stopped c \<longleftrightarrow> tc_reading_header_bytes c = 0 \<and> tc_unassigned_receive_bytes c = 0"

definition accounts_ok :: "reader_phase \<Rightarrow> tcp_connection \<Rightarrow> bool" where
  "accounts_ok p c \<longleftrightarrow> tc_receive_offset c \<le> length (tc_receive_buffer c)
     \<and> 0 \<le> tc_unassigned_receive_bytes c \<and> phase_ok p c
     \<and> tc_reading_record_size c = reserved p
     \<and> tc_inbound_messages c = int (length (tc_inbound c)) + reserved_count p
     \<and> tc_inbound_bytes c = records_size (tc_inbound c) + reserved_size p
         + tc_reading_header_bytes c + tc_unassigned_receive_bytes c"

text \<open>A payload that is one frame, as long as its header says.\<close>

definition one_frame :: "bytes \<Rightarrow> bool" where
  "one_frame b \<longleftrightarrow> 16 \<le> length b \<and> int (length b) = frame_total (take 16 b)"

definition stream_ok :: "reader_phase \<Rightarrow> tcp_connection \<Rightarrow> bytes \<Rightarrow> transport_record list \<Rightarrow> bool" where
  "stream_ok p c arrived received \<longleftrightarrow>
     list_all (\<lambda>r. one_frame (tr_payload r)) (received @ tc_inbound c)
     \<and> (if p = RP_Stopped
        then \<exists>lost. concat (map tr_payload (received @ tc_inbound c)) @ lost = arrived
        else concat (map tr_payload (received @ tc_inbound c)) @ held_header p @ unread c = arrived)"

definition inbound_inv :: "tcp_system \<Rightarrow> bool" where
  "inbound_inv s \<longleftrightarrow> accounts_ok (ts_phase s) (ts_conn s)
     \<and> stream_ok (ts_phase s) (ts_conn s) (ts_arrived s) (ts_received s)"

lemma buffered_unread: "tc_receive_offset c \<le> length (tc_receive_buffer c) \<Longrightarrow> buffered c = int (length (unread c))"
  by (simp add: buffered_def unread_def)

section \<open>The steps of receiving\<close>

lemma recv_take_unread:
  assumes "recv_take n c = (data, c')" "0 \<le> n" "n \<le> buffered c"
    "tc_receive_offset c \<le> length (tc_receive_buffer c)"
  shows "unread c = data @ unread c'" "int (length data) = n" "buffered c' = buffered c - n"
    "tc_receive_offset c' \<le> length (tc_receive_buffer c')"
    "tc_unassigned_receive_bytes c' = tc_unassigned_receive_bytes c"
    "tc_reading_header_bytes c' = tc_reading_header_bytes c"
    "tc_reading_record_size c' = tc_reading_record_size c" "tc_inbound c' = tc_inbound c"
    "tc_inbound_messages c' = tc_inbound_messages c" "tc_inbound_bytes c' = tc_inbound_bytes c"
    "tc_state c' = tc_state c"
    "tc_maximum_record_bytes c' = tc_maximum_record_bytes c" "tc_limits c' = tc_limits c"
    "tc_activated c' = tc_activated c" "tc_peer_accept_seen c' = tc_peer_accept_seen c"
proof -
  let ?stop = "tc_receive_offset c + nat n"
  have stop: "?stop \<le> length (tc_receive_buffer c)" using assms(2-4) by (simp add: buffered_def)
  have data: "data = take (nat n) (unread c)" using assms(1) by (simp add: recv_take_def Let_def unread_def)
  have c': "unread c' = drop ?stop (tc_receive_buffer c)"
    using assms(1) stop by (auto simp: recv_take_def Let_def unread_def split: if_splits)
  have "unread c' = drop (nat n) (unread c)" unfolding c' by (simp add: unread_def add.commute)
  then show "unread c = data @ unread c'" by (simp add: data)
  show "int (length data) = n" using data stop assms(2) by (simp add: unread_def)
  show "buffered c' = buffered c - n"
    using assms(1,2) stop by (auto simp: recv_take_def Let_def buffered_def split: if_splits)
qed (use assms in \<open>auto simp: recv_take_def Let_def buffered_def split: if_splits\<close>)

lemma take_header_ok:
  assumes "accounts_ok RP_Header c" "16 \<le> buffered c" "recv_take 16 c = (h, c')"
  shows "length h = 16" "tc_reading_header_bytes c' = 16" "accounts_ok (RP_Admit h) c' \<or> frame_total h < 16"
    "unread c = h @ unread c'" "tc_inbound c' = tc_inbound c" "tc_state c' = tc_state c"
proof -
  have off: "tc_receive_offset c \<le> length (tc_receive_buffer c)" using assms(1) by (simp add: accounts_ok_def)
  note t = recv_take_unread [OF assms(3) _ assms(2) off]
  have hb: "tc_reading_header_bytes c = 16" using assms(1,2) by (auto simp: accounts_ok_def)
  show "length h = 16" using t(2) by simp
  show "tc_reading_header_bytes c' = 16" "unread c = h @ unread c'" "tc_inbound c' = tc_inbound c"
    "tc_state c' = tc_state c"
    using t hb by simp_all
  show "accounts_ok (RP_Admit h) c' \<or> frame_total h < 16"
    using assms(1) t hb \<open>length h = 16\<close> by (auto simp: accounts_ok_def reserved_count_def reserved_size_def)
qed

text \<open>Giving up keeps the accounts of what was queued.\<close>

lemma fail_read_ok:
  assumes "accounts_ok p c" "reserved p = None" "tc_state c \<noteq> CS_CLOSED"
  shows "accounts_ok RP_Stopped (snd (tcp_fail_read e c))" "tc_inbound (snd (tcp_fail_read e c)) = tc_inbound c"
  using assms by (simp_all add: tcp_fail_read_def accounts_ok_def reserved_count_def reserved_size_def)

lemma release_ok:
  assumes "accounts_ok (RP_Body h d t a) c"
  shows "tc_inbound (release_reservation d c) = tc_inbound c"
    "accounts_ok RP_Stopped (snd (tcp_fail_read e (release_reservation d c))) \<or> tc_state c = CS_CLOSED"
  using assms by (auto simp: release_reservation_def tcp_fail_read_def accounts_ok_def
      reserved_count_def reserved_size_def)

text \<open>Being admitted reserves the record.\<close>

definition admitted_conn :: "bytes \<Rightarrow> tcp_connection \<Rightarrow> tcp_connection" where
  "admitted_conn h c =
     (let prepaid = min (frame_total h - 16) (tc_unassigned_receive_bytes c) in
      c\<lparr>tc_reading_record_size := Some (frame_total h), tc_reading_header_bytes := 0,
        tc_inbound_messages := tc_inbound_messages c + 1,
        tc_inbound_bytes := tc_inbound_bytes c + (frame_total h - 16 - prepaid),
        tc_unassigned_receive_bytes := tc_unassigned_receive_bytes c - prepaid\<rparr>)"

definition admitted_ahead :: "bytes \<Rightarrow> tcp_connection \<Rightarrow> int" where
  "admitted_ahead h c =
     (if tc_activated c then inbound_byte_limit (terminal_header h) c - tc_inbound_bytes (admitted_conn h c)
      else 0)"

lemma reader_admit_cases:
  assumes "reader_admit h c = Some (p, c')" "tc_state c \<noteq> CS_CLOSED"
  obtains (failed) "p = RP_Stopped" "c' = snd (tcp_fail_read TransportFlowControlError c)"
  | (admitted) "p = RP_Body h (frame_total h) (terminal_header h) (admitted_ahead h c)"
      "c' = admitted_conn h c" "frame_total h \<le> tc_maximum_record_bytes c"
      "tc_inbound_messages c < inbound_message_limit (terminal_header h) c"
      "tc_inbound_bytes (admitted_conn h c) \<le> inbound_byte_limit (terminal_header h) c"
proof -
  note defs = reader_admit_def admitted_conn_def admitted_ahead_def recv_begin_def Let_def
  show ?thesis
    using assms that by (auto simp: defs reader_failed_def split: if_splits)
qed

lemma admit_ok:
  assumes "accounts_ok (RP_Admit h) c" "reader_admit h c = Some (p, c')" "tc_state c \<noteq> CS_CLOSED"
  shows "accounts_ok p c' \<and> tc_inbound c' = tc_inbound c
    \<and> (p = RP_Stopped \<or> unread c' = unread c \<and> held_header p = h)"
  using assms(2,3)
proof (cases rule: reader_admit_cases)
  case failed
  with assms(1,3) fail_read_ok [of "RP_Admit h" c TransportFlowControlError] show ?thesis by simp
next
  case admitted
  have "accounts_ok p c'"
    using assms(1) admitted(5)
    by (auto simp: accounts_ok_def admitted(1,2) admitted_conn_def admitted_ahead_def Let_def buffered_def
        reserved_count_def reserved_size_def min_def)
  then show ?thesis by (simp add: admitted(1,2) admitted_conn_def Let_def unread_def)
qed

text \<open>Completing a record.\<close>

lemma one_frame_append:
  "length h = 16 \<Longrightarrow> int (length body) = frame_total h - 16 \<Longrightarrow> one_frame (h @ body)"
  by (simp add: one_frame_def)

lemma body_ok:
  assumes "accounts_ok (RP_Body h d t a) c" "reader_body h d t c = (p, c')" "tc_state c \<noteq> CS_CLOSED"
    "d - 16 \<le> buffered c"
  shows "accounts_ok p c'
    \<and> (p = RP_Stopped \<and> tc_inbound c' = tc_inbound c
       \<or> p = RP_Idle \<and> (\<exists>r. tc_inbound c' = tc_inbound c @ [r] \<and> one_frame (tr_payload r)
            \<and> h @ unread c = tr_payload r @ unread c'))"
proof -
  obtain body e where e: "recv_take (d - 16) c = (body, e)" by fastforce
  have pre: "tc_receive_offset c \<le> length (tc_receive_buffer c)" "0 \<le> d - 16" "length h = 16"
    "d = frame_total h" "t = terminal_header h"
    using assms(1) by (auto simp: accounts_ok_def)
  note t = recv_take_unread [OF e pre(2) assms(4) pre(1)]
  let ?e = "accounts_ok (RP_Body h d t a) c"
  show ?thesis
  proof (cases "p = RP_Stopped")
    case True
    then have c': "c' = snd (tcp_fail_read TransportFlowControlError (release_reservation d e))"
      using assms(2,3) e by (auto simp: reader_body_def reader_failed_def Let_def split: if_splits)
    show ?thesis
      using assms(1) True t assms(3)
      by (auto simp: c' accounts_ok_def tcp_fail_read_def release_reservation_def reserved_count_def
          reserved_size_def)
  next
    case False
    let ?r = "\<lparr>tr_channel = \<lparr>ch_kind = MULTIPLEXED, ch_lane_id = CONTROL_LANE_ID\<rparr>, tr_payload = h @ body\<rparr>"
    have c': "p = RP_Idle" "c' = e\<lparr>tc_reading_record_size := None, tc_inbound := tc_inbound e @ [?r],
        tc_peer_accept_seen := (tc_peer_accept_seen e
          \<or> be_int (take 1 (drop 4 h)) = frame_type_value FT_HELLO_ACCEPT)\<rparr>"
      using False assms(2,3) e by (auto simp: reader_body_def reader_failed_def Let_def split: if_splits)
    have "record_size ?r = d" using t(2) pre by (simp add: record_size_def)
    moreover have "unread c' = unread e" "buffered c' = buffered e" by (simp_all add: c' unread_def buffered_def)
    ultimately show ?thesis
      using assms(1,4) t pre one_frame_append [of h body]
      by (auto simp: c' accounts_ok_def reserved_count_def reserved_size_def)
  qed
qed

text \<open>Bytes that arrive.\<close>

lemma chunk_ok:
  assumes "recv_chunk n a track chunk c = (l, c')" "tc_receive_offset c \<le> length (tc_receive_buffer c)"
  shows "unread c' = unread c @ chunk" "tc_inbound c' = tc_inbound c" "tc_state c' = tc_state c"
    "tc_receive_offset c' \<le> length (tc_receive_buffer c')"
  using assms by (auto simp: recv_chunk_def Let_def unread_def)

lemma header_chunk_ok:
  assumes "accounts_ok RP_Header c" "recv_chunk 16 0 True chunk c = (l, c')" "buffered c < 16"
    "int (length chunk) \<le> recv_request 16 0 c"
  shows "accounts_ok RP_Header c'"
proof -
  have "max 0 (int (length chunk) - (16 - buffered c)) = 0"
    using assms(4) by (simp add: recv_request_def)
  then have c': "c' = c\<lparr>tc_reading_header_bytes := tc_reading_header_bytes c + int (length chunk),
      tc_inbound_bytes := tc_inbound_bytes c + int (length chunk),
      tc_receive_buffer := tc_receive_buffer c @ chunk\<rparr>"
    using assms(2) by (simp add: recv_chunk_def Let_def)
  have "buffered c' = buffered c + int (length chunk)" by (simp add: c' buffered_def)
  then show ?thesis
    using assms(1,3,4)
    by (auto simp: accounts_ok_def c' recv_request_def reserved_count_def reserved_size_def)
qed

lemma body_chunk_ok:
  assumes "accounts_ok (RP_Body h d t a) c" "recv_chunk (d - 16) a False chunk c = (l, c')"
    "buffered c < d - 16" "int (length chunk) \<le> recv_request (d - 16) a c"
  shows "accounts_ok (RP_Body h d t l) c'"
proof -
  define extra where "extra = max 0 (int (length chunk) - (d - 16 - buffered c))"
  have u: "tc_unassigned_receive_bytes c = 0" using assms(1,3) by (auto simp: accounts_ok_def)
  have c': "l = a - extra" "c' = c\<lparr>tc_inbound_bytes := tc_inbound_bytes c + extra,
      tc_unassigned_receive_bytes := extra, tc_receive_buffer := tc_receive_buffer c @ chunk\<rparr>"
    using assms(2) u by (simp_all add: recv_chunk_def Let_def extra_def)
  have "buffered c' = buffered c + int (length chunk)" by (simp add: c' buffered_def)
  moreover have "0 \<le> extra" "extra \<le> a" "0 < extra \<Longrightarrow> int (length chunk) = d - 16 - buffered c + extra"
    "int (length chunk) \<le> d - 16 - buffered c + extra" "extra \<le> buffered c + int (length chunk)"
    using assms(1,3,4) by (auto simp: extra_def recv_request_def accounts_ok_def)
  ultimately show ?thesis
    using assms(1,3) u
    by (auto simp: accounts_ok_def c' reserved_count_def reserved_size_def)
qed

text \<open>Starting to read a header moves prepaid bytes into it.\<close>

lemma start_ok:
  assumes "accounts_ok RP_Idle c" "reader_start c = Some (p, c')" "tc_state c \<noteq> CS_CLOSED"
  shows "accounts_ok p c' \<and> p = RP_Header \<and> unread c' = unread c \<and> tc_inbound c' = tc_inbound c"
  using assms
  by (auto simp: reader_start_def accounts_ok_def recv_begin_def Let_def unread_def buffered_def
      reserved_count_def reserved_size_def min_def split: if_splits)

lemma header_ok_step:
  assumes "accounts_ok RP_Header c" "reader_header c = (p, c')" "tc_state c \<noteq> CS_CLOSED" "16 \<le> buffered c"
    "tc_state c' \<noteq> CS_CLOSED"
  shows "accounts_ok p c' \<and> tc_inbound c' = tc_inbound c
    \<and> (p = RP_Stopped \<or> unread c = held_header p @ unread c')"
proof -
  obtain h d where d: "recv_take 16 c = (h, d)" by fastforce
  note t = take_header_ok [OF assms(1,4) d]
  have off: "tc_receive_offset c \<le> length (tc_receive_buffer c)" using assms(1) by (simp add: accounts_ok_def)
  note r = recv_take_unread [OF d _ assms(4) off]
  have stopped: "accounts_ok RP_Stopped (snd (tcp_fail_read e d))"
    "tc_inbound (snd (tcp_fail_read e d)) = tc_inbound c" for e
    using assms(1,3) r t(2)
    by (auto simp: accounts_ok_def tcp_fail_read_def reserved_count_def reserved_size_def)
  have header: "reader_header c =
     (if frame_total h < 16 then reader_failed TransportProtocolError d
      else if frame_total h > tc_maximum_record_bytes d then reader_failed TransportFlowControlError d
      else case reader_admit h d of Some (p, c') \<Rightarrow> (p, c') | None \<Rightarrow> (RP_Admit h, d))"
    using assms(3) t(2) by (simp add: reader_header_def d)
  consider (bad) e where "p = RP_Stopped" "c' = snd (tcp_fail_read e d)"
    | (wait) "p = RP_Admit h" "c' = d" "16 \<le> frame_total h"
    | (admit) "reader_admit h d = Some (p, c')" "16 \<le> frame_total h"
  proof (cases "frame_total h < 16 \<or> frame_total h > tc_maximum_record_bytes d")
    case True
    then show ?thesis using that(1) assms(2) by (auto simp: header reader_failed_def split: if_splits)
  next
    case False
    then show ?thesis
      using that(2,3) assms(2) by (cases "reader_admit h d") (auto simp: header)
  qed
  then show ?thesis
  proof cases
    case bad
    then show ?thesis using stopped by simp
  next
    case wait
    then show ?thesis using t by auto
  next
    case admit
    then have "accounts_ok (RP_Admit h) d" using t(3) by auto
    from admit_ok [OF this admit(1)] show ?thesis using t assms(3) by auto
  qed
qed

lemma receive_ok:
  assumes "accounts_ok p c" "tcp_receive_many m c = Inr (records, c')"
  shows "accounts_ok p c' \<and> unread c' = unread c \<and> tc_inbound c = records @ tc_inbound c'"
proof (cases "tc_inbound c = []")
  case True
  then have "records = []" "c' = c"
    using assms(2) by (auto simp: tcp_receive_many_def result_simps split: if_splits option.splits)
  with assms(1) show ?thesis by simp
next
  case False
  let ?n = "min (nat m) (length (tc_inbound c))"
  have c': "records = take ?n (tc_inbound c)" "c' = c\<lparr>tc_inbound := drop ?n (tc_inbound c),
      tc_inbound_messages := tc_inbound_messages c - int ?n,
      tc_inbound_bytes := tc_inbound_bytes c - records_size records\<rparr>"
    using assms(2) False by (auto simp: tcp_receive_many_def result_simps Let_def)
  have split_in: "tc_inbound c = records @ drop ?n (tc_inbound c)" unfolding c' by simp
  have "phase_ok p c' = phase_ok p c"
    by (cases p) (simp_all add: c' buffered_def)
  moreover have "records_size (tc_inbound c) = records_size records + records_size (tc_inbound c')"
    using arg_cong [OF split_in, of records_size] by (simp add: c'(2))
  moreover have "length (tc_inbound c) = ?n + length (tc_inbound c')" by (simp add: c'(2))
  ultimately show ?thesis
    using assms(1) split_in by (simp add: accounts_ok_def c'(2) unread_def)
qed

section \<open>Every step keeps it\<close>

lemma inbound_inv_received:
  assumes "inbound_inv s" "tcp_receive_many m (ts_conn s) = Inr (records, c)"
  shows "inbound_inv (s\<lparr>ts_conn := c, ts_received := ts_received s @ records\<rparr>)"
  using receive_ok [OF _ assms(2)] assms(1) by (auto simp: inbound_inv_def stream_ok_def)

lemma stream_ok_stopped:
  assumes "stream_ok p c arrived received" "tc_inbound c' = tc_inbound c"
  shows "stream_ok RP_Stopped c' arrived received"
  using assms by (auto simp: stream_ok_def split: if_splits)

lemma inbound_step_inv:
  assumes "inbound_step s s'" "inbound_inv s" "tc_state (ts_conn s) \<noteq> CS_CLOSED"
    "tc_state (ts_conn s') \<noteq> CS_CLOSED"
  shows "inbound_inv s'"
  using assms(1)
proof cases
  case (Receive m records c)
  then show ?thesis using assms(2) inbound_inv_received by blast
next
  case (ReaderStart phase c)
  then show ?thesis
    using assms start_ok [of "ts_conn s" phase c] by (auto simp: inbound_inv_def stream_ok_def)
next
  case (ReaderHeader phase c)
  then have "accounts_ok phase c \<and> tc_inbound c = tc_inbound (ts_conn s)
      \<and> (phase = RP_Stopped \<or> unread (ts_conn s) = held_header phase @ unread c)"
    using assms header_ok_step [of "ts_conn s" phase c] by (auto simp: inbound_inv_def)
  then show ?thesis
    using ReaderHeader assms(2) stream_ok_stopped [of RP_Header "ts_conn s" "ts_arrived s" "ts_received s" c]
    by (auto simp: inbound_inv_def stream_ok_def)
next
  case (ReaderHeaderChunk chunk l c)
  then show ?thesis
    using assms(2) header_chunk_ok [of "ts_conn s" chunk l c] chunk_ok [of 16 0 True chunk "ts_conn s" l c]
    by (auto simp: inbound_inv_def stream_ok_def accounts_ok_def)
next
  case (ReaderAdmit header phase c)
  then have "accounts_ok phase c \<and> tc_inbound c = tc_inbound (ts_conn s)
      \<and> (phase = RP_Stopped \<or> unread c = unread (ts_conn s) \<and> held_header phase = header)"
    using assms admit_ok [of header "ts_conn s" phase c] by (auto simp: inbound_inv_def)
  then show ?thesis
    using ReaderAdmit assms(2)
      stream_ok_stopped [of "RP_Admit header" "ts_conn s" "ts_arrived s" "ts_received s" c]
    by (auto simp: inbound_inv_def stream_ok_def)
next
  case (ReaderBody header declared terminal ahead phase c)
  then show ?thesis
    using assms body_ok [of header declared terminal ahead "ts_conn s" phase c]
      stream_ok_stopped [of "RP_Body header declared terminal ahead" "ts_conn s" "ts_arrived s" "ts_received s" c]
    by (auto simp: inbound_inv_def stream_ok_def)
next
  case (ReaderBodyChunk header declared terminal ahead chunk l c)
  then show ?thesis
    using assms(2) body_chunk_ok [of header declared terminal ahead "ts_conn s" chunk l c]
      chunk_ok [of "declared - 16" ahead False chunk "ts_conn s" l c]
    by (auto simp: inbound_inv_def stream_ok_def accounts_ok_def)
qed (use assms in \<open>auto simp: reader_eof_def\<close>)

definition same_inbound :: "tcp_connection \<Rightarrow> tcp_connection \<Rightarrow> bool" where
  "same_inbound c c' \<longleftrightarrow> tc_receive_offset c' = tc_receive_offset c
     \<and> tc_receive_buffer c' = tc_receive_buffer c
     \<and> tc_unassigned_receive_bytes c' = tc_unassigned_receive_bytes c
     \<and> tc_reading_header_bytes c' = tc_reading_header_bytes c
     \<and> tc_reading_record_size c' = tc_reading_record_size c \<and> tc_inbound c' = tc_inbound c
     \<and> tc_inbound_messages c' = tc_inbound_messages c \<and> tc_inbound_bytes c' = tc_inbound_bytes c"

lemma same_inbound_inv:
  assumes "inbound_inv s" "same_inbound (ts_conn s) (ts_conn s')" "ts_phase s' = ts_phase s"
    "ts_arrived s' = ts_arrived s" "ts_received s' = ts_received s"
  shows "inbound_inv s'"
proof -
  have "phase_ok p (ts_conn s') = phase_ok p (ts_conn s)" for p
    using assms(2) by (cases p) (simp_all add: same_inbound_def buffered_def)
  moreover have "unread (ts_conn s') = unread (ts_conn s)" "tc_inbound (ts_conn s') = tc_inbound (ts_conn s)"
    using assms(2) by (simp_all add: same_inbound_def unread_def)
  then have "stream_ok p (ts_conn s') a r = stream_ok p (ts_conn s) a r" for p a r
    by (simp add: stream_ok_def)
  ultimately show ?thesis
    using assms by (simp add: inbound_inv_def accounts_ok_def same_inbound_def)
qed

lemma same_inbound_ops:
  "same_inbound c (enqueue_outbound_locked r c)" "same_inbound c (writer_done rs n c)"
  "writer_take c = Inr (Some (rs, n, c')) \<Longrightarrow> same_inbound c c'"
  "tcp_send seen r c = Inr c' \<Longrightarrow> same_inbound c c'"
  "tcp_send_prevalidated r m b c = Inr c' \<Longrightarrow> same_inbound c c'"
  "tcp_send_active r c = Inr c' \<Longrightarrow> same_inbound c c'"
  "tcp_send_terminal seen r c = Inr c' \<Longrightarrow> same_inbound c c'"
  "tcp_activate l c = Inr c' \<Longrightarrow> same_inbound c c'"
  "tcp_set_maximum_record_bytes m c = Inr c' \<Longrightarrow> same_inbound c c'"
proof -
  show enq: "same_inbound c (enqueue_outbound_locked r c)" for c r
    by (simp add: same_inbound_def enqueue_outbound_locked_def Let_def split: option.splits)
  show "tcp_send seen r c = Inr c' \<Longrightarrow> same_inbound c c'"
    "tcp_send_prevalidated r m b c = Inr c' \<Longrightarrow> same_inbound c c'"
    "tcp_send_active r c = Inr c' \<Longrightarrow> same_inbound c c'"
    using enq by (auto simp: tcp_send_def tcp_send_prevalidated_def tcp_send_active_def result_simps)
qed (auto simp: same_inbound_def writer_done_def writer_take_def tcp_send_terminal_def tcp_activate_def
    tcp_set_maximum_record_bytes_def result_simps Let_def split: if_splits)

lemma outer_step_inbound:
  assumes "outbound_step s s' \<or> control_step s s'" "inbound_inv s" "tc_state (ts_conn s') \<noteq> CS_CLOSED"
  shows "inbound_inv s'"
proof -
  have "same_inbound (ts_conn s) (ts_conn s') \<and> ts_phase s' = ts_phase s
      \<and> ts_arrived s' = ts_arrived s \<and> ts_received s' = ts_received s"
    using assms(1,3)
    by (elim disjE outbound_stepE control_stepE) (auto simp: same_inbound_ops)
  then show ?thesis using assms(2) same_inbound_inv by blast
qed

lemma tcp_reachable_inbound:
  "tcp_reachable s \<Longrightarrow> tc_state (ts_conn s) \<noteq> CS_CLOSED \<longrightarrow> inbound_inv s"
proof (induction rule: tcp_reachable.induct)
  case (Init limits uid c)
  then show ?case
    by (auto simp: tcp_connection_init_def tcp_system_init_def inbound_inv_def accounts_ok_def
        stream_ok_def reserved_count_def reserved_size_def buffered_def unread_def result_simps)
next
  case (Step s s')
  show ?case
  proof
    assume open': "tc_state (ts_conn s') \<noteq> CS_CLOSED"
    then have "open": "tc_state (ts_conn s) \<noteq> CS_CLOSED" "inbound_inv s"
      using Step closed_stays_closed by blast+
    show "inbound_inv s'"
    proof (cases "inbound_step s s'")
      case True
      then show ?thesis by (rule inbound_step_inv [OF _ "open"(2,1) open'])
    next
      case False
      then have "outbound_step s s' \<or> control_step s s'" using Step.hyps(2) by (simp add: tcp_step_def)
      then show ?thesis by (rule outer_step_inbound [OF _ "open"(2) open'])
    qed
  qed
qed

section \<open>Frames are cut out of the stream in one way\<close>

lemma one_frame_prefix:
  assumes "one_frame a" "one_frame b" "a @ x = b @ y"
  shows "a = b \<and> x = y"
proof -
  have "take 16 a = take 16 b"
    using assms(1,2) arg_cong [OF assms(3), of "take 16"] by (simp add: one_frame_def)
  then have "length a = length b" using assms(1,2) by (simp add: one_frame_def)
  then show ?thesis using assms(3) by simp
qed

lemma frames_unique:
  assumes "list_all one_frame xs" "list_all one_frame ys" "concat xs @ u = concat ys @ v"
    "length xs \<le> length ys"
  shows "\<exists>rest. ys = xs @ rest"
  using assms
proof (induction xs arbitrary: ys)
  case (Cons x xs)
  then obtain y ys' where ys: "ys = y # ys'" by (cases ys) auto
  with Cons.prems have "x = y \<and> concat xs @ u = concat ys' @ v"
    using one_frame_prefix [of x y "concat xs @ u" "concat ys' @ v"] by simp
  with Cons ys show ?case by auto
qed simp

lemma encoded_one_frame:
  assumes "encode_frame nfc f maximum kind = Inr data"
  shows "one_frame data"
proof -
  obtain body where body: "header_ok (frame_type_for f) (int (length body)) (correlation_id f) maximum"
    "data = header_bytes (frame_type_for f) (int (length body)) (correlation_id f) @ body"
    using assms by (auto simp: encode_frame_Inr encode_generic_Inr)
  have "take 4 (header_bytes t n c) = be_bytes 4 (12 + n)" for t n c
    by (simp add: header_bytes_def)
  moreover have "be_int (be_bytes 4 (12 + int (length body))) = 12 + int (length body)"
    using body(1) by (intro be_int_be_bytes) (auto simp: header_ok_def)
  ultimately show ?thesis
    by (simp add: body(2) one_frame_def frame_total_def)
qed

section \<open>A waiting reader is released\<close>

text \<open>
  Bytes are only read ahead within the inbound limit, so draining the queue always makes room for the
  record whose header is in hand. \<open>quiet\<close>: no \<^verbatim>\<open>GOAWAY\<close> has been read; its reserve is not counted
  against the limit, and nothing follows it.
\<close>

definition quiet :: "tcp_system \<Rightarrow> bool" where
  "quiet s \<longleftrightarrow> \<not> terminal_header (held_header (ts_phase s))
     \<and> list_all (\<lambda>r. \<not> terminal_header (tr_payload r)) (ts_received s @ tc_inbound (ts_conn s))"

fun allowance :: "reader_phase \<Rightarrow> int" where
  "allowance (RP_Body _ _ _ a) = a"
| "allowance _ = 0"

definition room_inv :: "tcp_system \<Rightarrow> bool" where
  "room_inv s \<longleftrightarrow> (let c = ts_conn s; p = ts_phase s in
     0 < tc_unassigned_receive_bytes c + allowance p \<longrightarrow>
       tc_activated c \<and> tc_inbound_bytes c + allowance p \<le> tl_inbound_byte_limit (tc_limits c))"


lemma terminal_header_append: "16 \<le> length h \<Longrightarrow> terminal_header (h @ body) = terminal_header h"
  by (simp add: terminal_header_def)

lemma room_admit:
  assumes "accounts_ok (RP_Admit h) c" "reader_admit h c = Some (p, c')" "tc_state c \<noteq> CS_CLOSED"
    "\<not> terminal_header h" "room_inv s" "ts_conn s = c" "allowance (ts_phase s) = 0"
    "ts_conn s' = c'" "ts_phase s' = p"
  shows "room_inv s'"
  using assms(2,3)
proof (cases rule: reader_admit_cases)
  case failed
  then show ?thesis using assms(3,8,9) by (simp add: room_inv_def tcp_fail_read_def)
next
  case admitted
  have "0 \<le> tc_unassigned_receive_bytes c" "16 \<le> frame_total h" using assms(1) by (auto simp: accounts_ok_def)
  then show ?thesis
    using assms(4-9) admitted
    by (auto simp: room_inv_def admitted_conn_def admitted_ahead_def inbound_byte_limit_def Let_def
        split: if_splits)
qed

lemma room_fields:
  assumes "room_inv s" "tc_limits (ts_conn s') = tc_limits (ts_conn s)"
    "tc_activated (ts_conn s') = tc_activated (ts_conn s)"
    "tc_unassigned_receive_bytes (ts_conn s') + allowance (ts_phase s')
       \<le> tc_unassigned_receive_bytes (ts_conn s) + allowance (ts_phase s)"
    "tc_inbound_bytes (ts_conn s') + allowance (ts_phase s')
       \<le> tc_inbound_bytes (ts_conn s) + allowance (ts_phase s)"
  shows "room_inv s'"
  using assms by (auto simp: room_inv_def Let_def)

lemma room_stopped: "accounts_ok RP_Stopped (ts_conn s) \<Longrightarrow> ts_phase s = RP_Stopped \<Longrightarrow> room_inv s"
  by (simp add: room_inv_def accounts_ok_def)

lemma room_receive:
  assumes "tcp_receive_many m c = Inr (records, c')"
  shows "tc_inbound_bytes c' \<le> tc_inbound_bytes c" "tc_activated c' = tc_activated c"
    "tc_limits c' = tc_limits c" "tc_unassigned_receive_bytes c' = tc_unassigned_receive_bytes c"
  using assms by (auto simp: tcp_receive_many_def result_simps Let_def split: if_splits option.splits)

lemma room_header:
  assumes "accounts_ok RP_Header (ts_conn s)" "16 \<le> buffered (ts_conn s)" "tc_state (ts_conn s) \<noteq> CS_CLOSED"
    "reader_header (ts_conn s) = (p, c)" "tc_state c \<noteq> CS_CLOSED" "ts_phase s = RP_Header" "room_inv s"
    "ts_conn s' = c" "ts_phase s' = p" "\<not> terminal_header (held_header p)"
  shows "room_inv s'"
proof -
  obtain h d where d: "recv_take 16 (ts_conn s) = (h, d)" by fastforce
  have off: "tc_receive_offset (ts_conn s) \<le> length (tc_receive_buffer (ts_conn s))"
    using assms(1) by (simp add: accounts_ok_def)
  note r = recv_take_unread [OF d _ assms(2) off]
  note t = take_header_ok [OF assms(1,2) d]
  have mid: "room_inv (s\<lparr>ts_conn := d, ts_phase := RP_Admit h\<rparr>)"
    by (rule room_fields [OF assms(7)]) (simp_all add: r assms(6))
  have ok: "accounts_ok p c" using header_ok_step [OF assms(1,4,3,2,5)] by simp
  show ?thesis
  proof (cases "p = RP_Stopped")
    case True
    then show ?thesis using ok assms(8,9) by (intro room_stopped) simp_all
  next
    case False
    then have "frame_total h \<ge> 16" "frame_total h \<le> tc_maximum_record_bytes d"
      and "(case reader_admit h d of Some (p, c') \<Rightarrow> (p, c') | None \<Rightarrow> (RP_Admit h, d)) = (p, c)"
      using assms(3,4) t(2) by (auto simp: reader_header_def d reader_failed_def split: if_splits)
    then consider "p = RP_Admit h" "c = d" | "reader_admit h d = Some (p, c)"
      by (cases "reader_admit h d") auto
    then show ?thesis
    proof cases
      case 1
      then show ?thesis using mid assms(8,9) by (simp add: room_inv_def)
    next
      case 2
      have "tc_state d \<noteq> CS_CLOSED" using t(6) assms(3) by simp
      from 2 this have "held_header p = h" by (cases rule: reader_admit_cases) (use False in auto)
      then show ?thesis
        using 2 t(3,6) assms(3,8-10) mid \<open>frame_total h \<ge> 16\<close>
        by (intro room_admit [of h d p c _ s']) auto
    qed
  qed
qed

lemma room_body:
  assumes "accounts_ok (RP_Body h d t a) (ts_conn s)" "d - 16 \<le> buffered (ts_conn s)"
    "tc_state (ts_conn s) \<noteq> CS_CLOSED" "reader_body h d t (ts_conn s) = (p, c)"
    "ts_phase s = RP_Body h d t a" "room_inv s" "ts_conn s' = c" "ts_phase s' = p"
  shows "room_inv s'"
proof (cases "p = RP_Stopped")
  case True
  then show ?thesis using body_ok [OF assms(1,4,3,2)] assms(7,8) by (intro room_stopped) simp_all
next
  case False
  obtain body e where e: "recv_take (d - 16) (ts_conn s) = (body, e)" by fastforce
  have pre: "tc_receive_offset (ts_conn s) \<le> length (tc_receive_buffer (ts_conn s))" "0 \<le> d - 16" "0 \<le> a"
    using assms(1) by (auto simp: accounts_ok_def)
  note r = recv_take_unread [OF e pre(2) assms(2) pre(1)]
  have "p = RP_Idle" "tc_limits c = tc_limits e" "tc_activated c = tc_activated e"
    "tc_unassigned_receive_bytes c = tc_unassigned_receive_bytes e" "tc_inbound_bytes c = tc_inbound_bytes e"
    using False assms(3,4) e by (auto simp: reader_body_def reader_failed_def Let_def split: if_splits)
  then show ?thesis
    using pre(3) r by (intro room_fields [OF assms(6)]) (simp_all add: assms(5,7,8))
qed

lemma quiet_before:
  assumes "inbound_step s s'" "inbound_inv s" "tc_state (ts_conn s) \<noteq> CS_CLOSED"
    "tc_state (ts_conn s') \<noteq> CS_CLOSED" "quiet s'" "ts_phase s' \<noteq> RP_Stopped"
  shows "quiet s"
proof -
  have nil: "\<not> terminal_header []" by (simp add: terminal_header_def)
  show ?thesis using assms(1)
  proof cases
    case (Receive m records c)
    then have "tc_inbound (ts_conn s) = records @ tc_inbound c"
      using assms(2) receive_ok by (auto simp: inbound_inv_def)
    then show ?thesis using Receive assms(5) by (auto simp: quiet_def)
  next
    case (ReaderStart phase c)
    then show ?thesis
      using assms start_ok [of "ts_conn s" phase c] nil by (auto simp: quiet_def inbound_inv_def)
  next
    case (ReaderHeader phase c)
    then show ?thesis
      using assms header_ok_step [of "ts_conn s" phase c] nil by (auto simp: quiet_def inbound_inv_def)
  next
    case (ReaderHeaderChunk chunk l c)
    then show ?thesis
      using assms(5) by (auto simp: quiet_def recv_chunk_def Let_def)
  next
    case (ReaderAdmit header phase c)
    then show ?thesis
      using assms admit_ok [of header "ts_conn s" phase c] by (auto simp: quiet_def inbound_inv_def)
  next
    case (ReaderBody header declared terminal ahead phase c)
    then obtain r where "phase = RP_Idle" "tc_inbound c = tc_inbound (ts_conn s) @ [r]"
        "header @ unread (ts_conn s) = tr_payload r @ unread c" "one_frame (tr_payload r)"
        "length header = 16"
      using assms body_ok [of header declared terminal ahead "ts_conn s" phase c]
      by (auto simp: inbound_inv_def accounts_ok_def)
    moreover from this have "terminal_header (tr_payload r) = terminal_header header"
      using terminal_header_append [of header "unread (ts_conn s)"]
        terminal_header_append [of "tr_payload r" "unread c"] by (simp add: one_frame_def)
    ultimately show ?thesis using ReaderBody assms(5) by (auto simp: quiet_def)
  next
    case (ReaderBodyChunk header declared terminal ahead chunk l c)
    then show ?thesis
      using assms(5) by (auto simp: quiet_def recv_chunk_def Let_def)
  qed (use assms in \<open>auto simp: reader_eof_def\<close>)
qed

lemma room_inv_inbound:
  assumes "inbound_step s s'" "inbound_inv s" "tc_state (ts_conn s) \<noteq> CS_CLOSED"
    "tc_state (ts_conn s') \<noteq> CS_CLOSED" "quiet s'" "room_inv s" "inbound_inv s'"
  shows "room_inv s'"
  using assms(1)
proof cases
  case (Receive m records c)
  then show ?thesis using room_receive [of m "ts_conn s"] by (intro room_fields [OF assms(6)]) simp_all
next
  case (ReaderStart phase c)
  then show ?thesis
    using assms(2) by (intro room_fields [OF assms(6)])
      (auto simp: reader_start_def recv_begin_def Let_def inbound_inv_def accounts_ok_def split: if_splits)
next
  case (ReaderHeader phase c)
  then show ?thesis
    using assms by (intro room_header [of s phase c s']) (auto simp: inbound_inv_def quiet_def)
next
  case (ReaderHeaderChunk chunk l c)
  then have "tc_unassigned_receive_bytes c = 0"
    using assms(2) header_chunk_ok [of "ts_conn s" chunk l c]
    by (auto simp: inbound_inv_def accounts_ok_def recv_chunk_def recv_request_def Let_def)
  then show ?thesis using ReaderHeaderChunk by (simp add: room_inv_def)
next
  case (ReaderAdmit header phase c)
  show ?thesis
  proof (cases "phase = RP_Stopped")
    case True
    then show ?thesis using assms(7) ReaderAdmit by (intro room_stopped) (simp_all add: inbound_inv_def)
  next
    case False
    have acc: "accounts_ok (RP_Admit header) (ts_conn s)"
      using assms(2) ReaderAdmit(2) by (simp add: inbound_inv_def)
    from admit_ok [OF acc ReaderAdmit(3) assms(3)] False have "held_header phase = header" by simp
    then have "\<not> terminal_header header" using assms(5) ReaderAdmit(1) by (simp add: quiet_def)
    then show ?thesis
      by (rule room_admit [OF acc ReaderAdmit(3) assms(3) _ assms(6) refl]) (simp_all add: ReaderAdmit(1,2))
  qed
next
  case (ReaderBody header declared terminal ahead phase c)
  have "accounts_ok (RP_Body header declared terminal ahead) (ts_conn s)"
    using assms(2) ReaderBody(2) by (simp add: inbound_inv_def)
  moreover have "declared - 16 \<le> buffered (ts_conn s)" using ReaderBody(3) assms(3) by simp
  ultimately show ?thesis
    by (rule room_body [OF _ _ assms(3) ReaderBody(4,2) assms(6)]) (simp_all add: ReaderBody(1))
next
  case (ReaderBodyChunk header declared terminal ahead chunk l c)
  then show ?thesis
    using assms(2) by (intro room_fields [OF assms(6)])
      (auto simp: recv_chunk_def Let_def inbound_inv_def accounts_ok_def)
qed (use assms in \<open>auto simp: reader_eof_def\<close>)

lemma recv_take_limits [simp]: "tc_limits (snd (recv_take n c)) = tc_limits c"
  by (simp add: recv_take_def Let_def)

lemma fail_limits [simp]:
  "tc_limits (snd (tcp_fail_read e c)) = tc_limits c" "tc_limits (snd (tcp_terminate x c)) = tc_limits c"
  "tc_limits (release_reservation n c) = tc_limits c" "tc_limits (snd (reader_failed e c)) = tc_limits c"
  by (simp_all add: tcp_fail_read_def tcp_terminate_def release_reservation_def reader_failed_def)

lemma admit_limits: "reader_admit h c = Some (p, c') \<Longrightarrow> tc_limits c' = tc_limits c"
  using fail_limits(4) [of TransportFlowControlError c]
  by (auto simp: reader_admit_def Let_def recv_begin_def simp del: fail_limits split: if_splits)

lemma header_limits:
  assumes "reader_header c = (p, c')"
  shows "tc_limits c' = tc_limits c"
proof (cases "tc_state c = CS_CLOSED")
  case False
  obtain h d where d: "recv_take 16 c = (h, d)" by fastforce
  then have same: "tc_limits d = tc_limits c" using recv_take_limits [of 16 c] by simp
  have failed: "tc_limits c' = tc_limits d" if "reader_failed e d = (p, c')" for e
    using that fail_limits(4) [of e d] by simp
  show ?thesis
    using assms False same failed admit_limits [of h d p c']
    by (simp add: reader_header_def d split: if_splits option.splits prod.splits)
qed (use assms in \<open>simp add: reader_header_def\<close>)

lemma body_limits:
  assumes "reader_body h n t c = (p, c')"
  shows "tc_limits c' = tc_limits c"
proof (cases "tc_state c = CS_CLOSED")
  case True
  with assms show ?thesis by (auto simp: reader_body_def)
next
  case False
  obtain b d where d: "recv_take (n - 16) c = (b, d)" by fastforce
  then have "tc_limits d = tc_limits c" using recv_take_limits [of "n - 16" c] by simp
  with assms False d show ?thesis by (auto simp: reader_body_def reader_failed_def Let_def split: if_splits)
qed

lemma tcp_reachable_limits: "tcp_reachable s \<Longrightarrow> limits_ok (tc_limits (ts_conn s))"
proof (induction rule: tcp_reachable.induct)
  case (Init limits uid c)
  then show ?case by (auto simp: tcp_connection_init_def tcp_system_init_def result_simps)
next
  case (Step s s')
  have same: "tc_limits (enqueue_outbound_locked r c) = tc_limits c" "tc_limits (writer_done rs n c) = tc_limits c"
    for r c rs n by (simp_all add: enqueue_outbound_locked_def writer_done_def Let_def split: option.splits)
  consider (o) "outbound_step s s'" | (c) "control_step s s'" | (i) "inbound_step s s'"
    using Step.hyps(2) by (auto simp: tcp_step_def)
  then show ?case
  proof cases
    case o
    then show ?thesis using Step.IH
      by cases (auto simp: same tcp_send_def tcp_send_prevalidated_def tcp_send_active_def
          tcp_send_terminal_def writer_take_def Let_def result_simps split: if_splits)
  next
    case c
    then show ?thesis using Step.IH
      by cases (auto simp: tcp_activate_def tcp_set_maximum_record_bytes_def result_simps)
  next
    case i
    then show ?thesis using Step.IH
      by cases (auto simp: admit_limits header_limits body_limits room_receive(3) reader_start_def
          recv_begin_def recv_chunk_def reader_eof_def Let_def split: if_splits option.splits)
  qed
qed

lemma tcp_reachable_room:
  "tcp_reachable s \<Longrightarrow> tc_state (ts_conn s) \<noteq> CS_CLOSED \<longrightarrow> quiet s \<longrightarrow> room_inv s"
proof (induction rule: tcp_reachable.induct)
  case (Init limits uid c)
  then show ?case
    by (auto simp: tcp_connection_init_def tcp_system_init_def room_inv_def result_simps)
next
  case (Step s s')
  show ?case
  proof (intro impI)
    assume open': "tc_state (ts_conn s') \<noteq> CS_CLOSED" and quiet': "quiet s'"
    have reach': "tcp_reachable s'" using Step.hyps by (rule tcp_reachable.Step)
    have "open": "tc_state (ts_conn s) \<noteq> CS_CLOSED" using Step.hyps(2) open' closed_stays_closed by blast
    have inv: "inbound_inv s" "inbound_inv s'"
      using tcp_reachable_inbound Step.hyps(1) reach' "open" open' by blast+
    show "room_inv s'"
    proof (cases "inbound_step s s'")
      case True
      show ?thesis
      proof (cases "ts_phase s' = RP_Stopped")
        case stopped: True
        then show ?thesis using inv(2) by (intro room_stopped) (simp_all add: inbound_inv_def)
      next
        case False
        then have "quiet s" using quiet_before [OF True inv(1) "open" open' quiet'] by blast
        then show ?thesis using room_inv_inbound [OF True inv(1) "open" open' quiet' _ inv(2)] Step.IH "open" by blast
      qed
    next
      case False
      then have outer: "outbound_step s s' \<or> control_step s s'" using Step.hyps(2) by (simp add: tcp_step_def)
      then have same: "same_inbound (ts_conn s) (ts_conn s') \<and> ts_phase s' = ts_phase s \<and> ts_received s' = ts_received s"
        using open' by (elim disjE outbound_stepE control_stepE) (auto simp: same_inbound_ops)
      then have "quiet s" using quiet' by (simp add: quiet_def same_inbound_def)
      then have room: "room_inv s" using Step.IH "open" by blast
      have "tc_activated (ts_conn s') = tc_activated (ts_conn s) \<and> tc_limits (ts_conn s') = tc_limits (ts_conn s)
          \<or> \<not> tc_activated (ts_conn s)"
        using outer open'
        by (elim disjE outbound_stepE control_stepE)
          (auto simp: tcp_send_def tcp_send_prevalidated_def tcp_send_active_def tcp_send_terminal_def
            enqueue_outbound_locked_def writer_take_def writer_done_def tcp_activate_def
            tcp_set_maximum_record_bytes_def Let_def result_simps split: if_splits option.splits)
      then show ?thesis using room same by (auto simp: room_inv_def same_inbound_def Let_def)
    qed
  qed
qed

end
