(* ===== verification/Tcp_Properties.thy ===== *)
theory Tcp_Properties
  imports Tcp_Inbound "HOL-Library.Sublist"
begin

text \<open>
  What a \<^verbatim>\<open>TcpConnection\<close> guarantees in every reachable state, whatever the interleaving of callers,
  writer and reader: ordering and accounting of what is sent, progress of the writer and of a waiting
  reader, and reassembly of the byte stream into the frames that were sent. Runs of the transition
  system are computed by \<open>tcp_run\<close>.
\<close>

section \<open>Executing the transition system\<close>

datatype tcp_event =
    E_Send transport_record
  | E_Terminal transport_record
  | E_Take
  | E_Wrote
  | E_Activate transport_limits
  | E_Close
  | E_Receive int
  | E_Chunk bytes
  | E_Reader

definition fire_reader :: "tcp_system \<Rightarrow> tcp_system option" where
  "fire_reader s =
     (let c = ts_conn s in
      case ts_phase s of
        RP_Idle \<Rightarrow> map_option (\<lambda>(p, c'). s\<lparr>ts_conn := c', ts_phase := p\<rparr>) (reader_start c)
      | RP_Header \<Rightarrow>
          if buffered c \<ge> COMMON_HEADER_SIZE
          then Some (s\<lparr>ts_conn := snd (reader_header c), ts_phase := fst (reader_header c)\<rparr>) else None
      | RP_Admit h \<Rightarrow> map_option (\<lambda>(p, c'). s\<lparr>ts_conn := c', ts_phase := p\<rparr>) (reader_admit h c)
      | RP_Body h d t a \<Rightarrow>
          if buffered c \<ge> d - COMMON_HEADER_SIZE
          then Some (s\<lparr>ts_conn := snd (reader_body h d t c), ts_phase := fst (reader_body h d t c)\<rparr>)
          else None
      | RP_Stopped \<Rightarrow> None)"

definition fire_chunk :: "bytes \<Rightarrow> tcp_system \<Rightarrow> tcp_system option" where
  "fire_chunk chunk s =
     (let c = ts_conn s in
      if tc_state c = CS_CLOSED \<or> chunk = [] then None
      else case ts_phase s of
        RP_Header \<Rightarrow>
          if buffered c < COMMON_HEADER_SIZE \<and> int (length chunk) \<le> recv_request COMMON_HEADER_SIZE 0 c
          then Some (s\<lparr>ts_conn := snd (recv_chunk COMMON_HEADER_SIZE 0 True chunk c),
                        ts_arrived := ts_arrived s @ chunk\<rparr>)
          else None
      | RP_Body h d t a \<Rightarrow>
          if buffered c < d - COMMON_HEADER_SIZE
             \<and> int (length chunk) \<le> recv_request (d - COMMON_HEADER_SIZE) a c
          then let (l, c') = recv_chunk (d - COMMON_HEADER_SIZE) a False chunk c in
               Some (s\<lparr>ts_conn := c', ts_phase := RP_Body h d t l, ts_arrived := ts_arrived s @ chunk\<rparr>)
          else None
      | _ \<Rightarrow> None)"

definition fire_send ::
  "transport_record \<Rightarrow> tcp_connection result \<Rightarrow> tcp_system \<Rightarrow> tcp_system option"
where
  "fire_send r res s =
     (case res of Inl _ \<Rightarrow> None
      | Inr c \<Rightarrow> Some (s\<lparr>ts_conn := c, ts_admitted := ts_admitted s @ [r]\<rparr>))"

fun tcp_fire :: "tcp_event \<Rightarrow> tcp_system \<Rightarrow> tcp_system option" where
  "tcp_fire (E_Send r) s = fire_send r (tcp_send (tc_maximum_record_bytes (ts_conn s)) r (ts_conn s)) s"
| "tcp_fire (E_Terminal r) s =
     fire_send r (tcp_send_terminal (tc_maximum_record_bytes (ts_conn s)) r (ts_conn s)) s"
| "tcp_fire E_Take s =
     (if ts_inflight s = None \<and> tc_writer_ready (ts_conn s)
      then case writer_take (ts_conn s) of
             Inr (Some (records, n, c)) \<Rightarrow>
               Some (s\<lparr>ts_conn := c, ts_inflight := (if records = [] then None else Some (records, n))\<rparr>)
           | _ \<Rightarrow> None
      else None)"
| "tcp_fire E_Wrote s =
     (case ts_inflight s of
        None \<Rightarrow> None
      | Some (records, n) \<Rightarrow> Some (s\<lparr>ts_conn := writer_done records n (ts_conn s), ts_inflight := None,
          ts_written := ts_written s @ records\<rparr>))"
| "tcp_fire (E_Activate limits) s =
     (if limits_ok limits
      then case tcp_activate limits (ts_conn s) of Inl _ \<Rightarrow> None | Inr c \<Rightarrow> Some (s\<lparr>ts_conn := c\<rparr>)
      else None)"
| "tcp_fire E_Close s = Some (s\<lparr>ts_conn := snd (tcp_terminate None (ts_conn s))\<rparr>)"
| "tcp_fire (E_Receive m) s =
     (case tcp_receive_many m (ts_conn s) of
        Inl _ \<Rightarrow> None
      | Inr (records, c) \<Rightarrow> Some (s\<lparr>ts_conn := c, ts_received := ts_received s @ records\<rparr>))"
| "tcp_fire (E_Chunk chunk) s = fire_chunk chunk s"
| "tcp_fire E_Reader s = fire_reader s"

fun tcp_fires :: "tcp_event list \<Rightarrow> tcp_system \<Rightarrow> tcp_system option" where
  "tcp_fires [] s = Some s"
| "tcp_fires (e # es) s = (case tcp_fire e s of None \<Rightarrow> None | Some s' \<Rightarrow> tcp_fires es s')"

definition tcp_run :: "transport_limits \<Rightarrow> uuid \<Rightarrow> tcp_event list \<Rightarrow> tcp_system option" where
  "tcp_run limits uid es =
     (case tcp_connection_init limits uid of
        Inl _ \<Rightarrow> None
      | Inr c \<Rightarrow> if limits_ok limits then tcp_fires es (tcp_system_init c) else None)"

lemma fire_reader_step:
  assumes "fire_reader s = Some s'"
  shows "inbound_step s s'"
proof (cases "ts_phase s")
  case RP_Idle
  with assms show ?thesis by (auto simp: fire_reader_def intro: inbound_step.ReaderStart)
next
  case RP_Header
  with assms show ?thesis
    by (cases "reader_header (ts_conn s)")
      (auto simp: fire_reader_def Let_def split: if_splits intro: inbound_step.ReaderHeader)
next
  case (RP_Admit h)
  with assms show ?thesis by (auto simp: fire_reader_def intro: inbound_step.ReaderAdmit)
next
  case (RP_Body h d t a)
  with assms show ?thesis
    by (cases "reader_body h d t (ts_conn s)")
      (auto simp: fire_reader_def Let_def split: if_splits intro: inbound_step.ReaderBody)
qed (use assms in \<open>simp add: fire_reader_def\<close>)

lemma fire_chunk_step:
  assumes "fire_chunk chunk s = Some s'"
  shows "inbound_step s s'"
proof (cases "ts_phase s")
  case RP_Header
  then show ?thesis
    using assms inbound_step.ReaderHeaderChunk [OF RP_Header, of chunk "fst (recv_chunk 16 0 True chunk (ts_conn s))"
        "snd (recv_chunk 16 0 True chunk (ts_conn s))"]
    by (auto simp: fire_chunk_def Let_def split: if_splits)
next
  case (RP_Body h d t a)
  then show ?thesis
    using assms inbound_step.ReaderBodyChunk [OF RP_Body, of chunk]
    by (auto simp: fire_chunk_def Let_def split: if_splits prod.splits)
qed (use assms in \<open>auto simp: fire_chunk_def Let_def split: if_splits\<close>)

lemma tcp_fire_step: "tcp_fire e s = Some s' \<Longrightarrow> tcp_step s s'"
proof (cases e)
  case (E_Send r)
  then show "tcp_fire e s = Some s' \<Longrightarrow> tcp_step s s'"
    by (auto simp: fire_send_def tcp_step_def split: sum.splits intro: outbound_step.Send)
next
  case (E_Terminal r)
  then show "tcp_fire e s = Some s' \<Longrightarrow> tcp_step s s'"
    by (auto simp: fire_send_def tcp_step_def split: sum.splits intro: outbound_step.SendTerminal)
next
  case E_Take
  then show "tcp_fire e s = Some s' \<Longrightarrow> tcp_step s s'"
    using outbound_step.WriterTake [of s]
    by (auto simp: tcp_step_def split: sum.splits option.splits if_splits)
qed (auto simp: tcp_step_def fire_reader_step fire_chunk_step split: sum.splits option.splits if_splits
    intro: outbound_step.WriterWrote control_step.Activate control_step.Close inbound_step.Receive)

lemma tcp_fires_reachable: "tcp_fires es s = Some s' \<Longrightarrow> tcp_reachable s \<Longrightarrow> tcp_reachable s'"
  by (induction es arbitrary: s) (auto split: option.splits intro: tcp_reachable.Step dest: tcp_fire_step)

lemma tcp_run_reachable: "tcp_run limits uid es = Some s \<Longrightarrow> tcp_reachable s"
  by (auto simp: tcp_run_def split: sum.splits if_splits
      intro: tcp_fires_reachable tcp_reachable.Init)

section \<open>Histories of every reachable state\<close>

lemma tcp_reachable_fifo:
  "tcp_reachable s \<Longrightarrow>
     prefix (on_channel ch (ts_written s @ inflight_records s)) (on_channel ch (ts_admitted s))"
proof (induction rule: tcp_reachable.induct)
  case (Init limits uid c)
  then show ?case by (simp add: tcp_system_init_def inflight_records_def)
next
  case (Step s s')
  have reach': "tcp_reachable s'" using Step.hyps by (rule tcp_reachable.Step)
  show ?case
  proof (cases "tc_state (ts_conn s') = CS_CLOSED")
    case False
    then have "outbound_inv s'" using tcp_reachable_outbound reach' by blast
    then have "on_channel ch (ts_admitted s') = on_channel ch (ts_written s' @ inflight_records s')
        @ queued (tc_outbound (ts_conn s')) ch @ on_channel ch (pending_terminal (ts_conn s'))"
      by (simp add: outbound_inv_def outbound_ok_def fifo_ok_def)
    then show ?thesis by simp
  next
    case True
    show ?thesis
    proof (cases "outbound_step s s'")
      case step: True
      then show ?thesis
        using Step.IH True
        by cases (auto simp: inflight_records_def writer_take_def result_simps Let_def split: if_splits
            intro: prefix_order.trans)
    next
      case False
      then have "inbound_step s s' \<or> control_step s s'" using Step.hyps(2) by (auto simp: tcp_step_def)
      from inbound_step_keeps [OF this] Step.IH show ?thesis by (simp add: inflight_records_def)
    qed
  qed
qed

lemma tcp_reachable_pending:
  "tcp_reachable s \<Longrightarrow> tc_state (ts_conn s) \<noteq> CS_CLOSED \<longrightarrow>
     tc_outbound_messages (ts_conn s) + int (length (ts_written s)) = int (length (ts_admitted s))
     \<and> tc_outbound_bytes (ts_conn s) + records_size (ts_written s) = records_size (ts_admitted s)"
proof (induction rule: tcp_reachable.induct)
  case (Init limits uid c)
  then show ?case by (auto simp: tcp_connection_init_def tcp_system_init_def result_simps)
next
  case (Step s s')
  have enq: "tc_outbound_messages (enqueue_outbound_locked r c) = tc_outbound_messages c + 1"
    "tc_outbound_bytes (enqueue_outbound_locked r c) = tc_outbound_bytes c + record_size r" for r c
    by (simp_all add: enqueue_outbound_locked_def Let_def split: option.splits)
  show ?case
  proof
    assume open': "tc_state (ts_conn s') \<noteq> CS_CLOSED"
    then have "open": "tc_state (ts_conn s) \<noteq> CS_CLOSED" using Step.hyps(2) closed_stays_closed by blast
    then have inv: "outbound_inv s" using Step.hyps(1) tcp_reachable_outbound by blast
    show "tc_outbound_messages (ts_conn s') + int (length (ts_written s')) = int (length (ts_admitted s'))
        \<and> tc_outbound_bytes (ts_conn s') + records_size (ts_written s') = records_size (ts_admitted s')"
    proof (cases "outbound_step s s'")
      case True
      then show ?thesis
        using Step.IH "open" open' inv
        by cases (auto simp: enq tcp_send_def tcp_send_prevalidated_def tcp_send_active_def
            tcp_send_terminal_def writer_take_def writer_done_def outbound_inv_def Let_def result_simps
            split: if_splits)
    next
      case False
      then have "inbound_step s s' \<or> control_step s s'" using Step.hyps(2) by (auto simp: tcp_step_def)
      from inbound_step_keeps [OF this] Step.IH "open" open' show ?thesis
        by (simp add: keeps_outbound_def same_outbound_def)
    qed
  qed
qed

text \<open>A closed connection has nothing left to receive.\<close>

definition void :: "tcp_connection \<Rightarrow> bool" where
  "void c \<longleftrightarrow> (tc_state c = CS_CLOSED \<longrightarrow> tc_inbound c = [])"

lemma void_ops:
  assumes "void c"
  shows "void (snd (tcp_terminate e c))" "void (snd (tcp_fail_read x c))" "void (release_reservation n c)"
    "void (snd (recv_take n c))" "void (recv_begin n t c)" "void (snd (recv_chunk n a t chunk c))"
    "void (enqueue_outbound_locked r c)" "void (writer_done rs n c)"
  using assms
  by (auto simp: void_def tcp_terminate_def tcp_fail_read_def release_reservation_def recv_take_def
      recv_begin_def recv_chunk_def enqueue_outbound_locked_def writer_done_def Let_def split: option.splits)

lemma void_failed: "void c \<Longrightarrow> void (snd (reader_failed x c))"
  by (simp add: reader_failed_def void_ops)

lemma void_admit: "void c \<Longrightarrow> reader_admit h c = Some (p, c') \<Longrightarrow> void c'"
  using void_failed [of c TransportFlowControlError]
  by (auto simp: reader_admit_def Let_def void_ops void_def recv_begin_def split: if_splits)

lemma void_header:
  assumes "void c" "reader_header c = (p, c')"
  shows "void c'"
proof -
  obtain h d where d: "recv_take 16 c = (h, d)" by fastforce
  then have "void d" using void_ops(4) [OF assms(1), of 16] by simp
  moreover from this have "void c'" if "reader_failed e d = (p, c')" for e
    using void_failed that by (metis snd_conv)
  ultimately show ?thesis
    using assms void_admit [of d h p c']
    by (simp add: reader_header_def d split: if_splits option.splits prod.splits)
qed

lemma void_body:
  assumes "void c" "reader_body h n t c = (p, c')"
  shows "void c'"
proof -
  obtain b d where d: "recv_take (n - 16) c = (b, d)" by fastforce
  have "void d" "tc_state d = tc_state c"
    using void_ops(4) [OF assms(1), of "n - 16"] d by (auto simp: recv_take_def Let_def split: if_splits)
  with assms d show ?thesis
    by (auto simp: reader_body_def reader_failed_def void_ops Let_def split: if_splits)
      (simp_all add: void_def)
qed

lemma tcp_reachable_void: "tcp_reachable s \<Longrightarrow> void (ts_conn s)"
proof (induction rule: tcp_reachable.induct)
  case (Init limits uid c)
  then show ?case by (auto simp: tcp_connection_init_def tcp_system_init_def void_def result_simps)
next
  case (Step s s')
  have chunk: "void c'" if "recv_chunk n a t chunk (ts_conn s) = (l, c')" for n a t chunk l c'
    using void_ops(6) [OF Step.IH, of n a t chunk] that by simp
  consider (o) "outbound_step s s'" | (c) "control_step s s'" | (i) "inbound_step s s'"
    using Step.hyps(2) by (auto simp: tcp_step_def)
  then show ?case
  proof cases
    case o
    then show ?thesis using Step.IH
      by cases (auto simp: void_ops tcp_send_def tcp_send_prevalidated_def tcp_send_active_def
          tcp_send_terminal_def writer_take_def Let_def result_simps split: if_splits, simp_all add: void_def)
  next
    case c
    then show ?thesis using Step.IH
      by cases (auto simp: void_ops tcp_activate_def tcp_set_maximum_record_bytes_def result_simps,
          simp_all add: void_def)
  next
    case i
    then show ?thesis using Step.IH
    proof cases
      case (Receive m records c)
      then show ?thesis using Step.IH
        by (auto simp: tcp_receive_many_def void_def Let_def result_simps split: if_splits option.splits)
    next
      case (ReaderStart phase c)
      then show ?thesis using Step.IH by (auto simp: reader_start_def void_ops split: if_splits)
    qed (auto simp: chunk void_ops reader_eof_def dest: void_admit void_header void_body split: option.splits)
  qed
qed

lemma tcp_reachable_stream:
  "tcp_reachable s \<Longrightarrow> list_all one_frame (map tr_payload (ts_received s))
     \<and> prefix (concat (map tr_payload (ts_received s))) (ts_arrived s)"
proof (induction rule: tcp_reachable.induct)
  case (Init limits uid c)
  then show ?case by (simp add: tcp_system_init_def)
next
  case (Step s s')
  have reach': "tcp_reachable s'" using Step.hyps by (rule tcp_reachable.Step)
  show ?case
  proof (cases "tc_state (ts_conn s') = CS_CLOSED")
    case False
    then have "inbound_inv s'" using tcp_reachable_inbound reach' by blast
    then show ?thesis
      by (auto simp: inbound_inv_def stream_ok_def list_all_iff split: if_splits intro: prefixI [OF sym])
  next
    case True
    have "ts_received s' = ts_received s \<and> prefix (ts_arrived s) (ts_arrived s')"
    proof (cases "inbound_step s s'")
      case step: True
      then show ?thesis
      proof cases
        case (Receive m records c)
        then have "tc_state (ts_conn s) = CS_CLOSED" using True
          by (auto simp: tcp_receive_many_def Let_def result_simps split: if_splits option.splits)
        then have "tc_inbound (ts_conn s) = []" using tcp_reachable_void Step.hyps(1) by (simp add: void_def)
        then have "records = []" using Receive
          by (auto simp: tcp_receive_many_def result_simps split: if_splits option.splits)
        with Receive show ?thesis by simp
      qed auto
    next
      case False
      then have "outbound_step s s' \<or> control_step s s'" using Step.hyps(2) by (simp add: tcp_step_def)
      then show ?thesis by (elim disjE outbound_stepE control_stepE) auto
    qed
    with Step.IH show ?thesis using prefix_order.trans by metis
  qed
qed

lemma writer_take_bounds:
  assumes "outbound_ok c [] written admitted" "tc_state c \<noteq> CS_CLOSED"
    "tc_ready_channels c \<noteq> [] \<or> tc_terminal_outbound_pending c"
  obtains records n c' where "writer_take c = Inr (Some (records, n, c'))" "records \<noteq> []"
    "length records \<le> WRITE_BATCH_RECORDS" "length records = 1 \<or> n \<le> WRITE_BATCH_BYTES"
proof -
  let ?b = "\<lparr>wb_outbound = tc_outbound c, wb_ready = tc_ready_channels c, wb_records = [],
    wb_bytes = 0, wb_first = None\<rparr>"
  have ok: "channels_ok (wb_outbound ?b) (wb_ready ?b)" using assms(1) by (simp add: outbound_ok_def)
  obtain b where b: "collect_batch ?b = Inr b" using collect_batch_keeps [OF ok] by blast
  let ?t = "terminal_for_batch c b"
  have bounds: "length (wb_records b) \<le> WRITE_BATCH_RECORDS"
    "length (wb_records b) \<le> 1 \<or> wb_bytes b \<le> WRITE_BATCH_BYTES"
    "tc_ready_channels c \<noteq> [] \<Longrightarrow> wb_records b \<noteq> []"
    using collect_batch_bounds [OF b ok] by auto
  have t: "?t = [] \<or> length (wb_records b) < WRITE_BATCH_RECORDS
      \<and> length ?t = 1 \<and> (wb_records b = [] \<or> wb_bytes b + records_size ?t \<le> WRITE_BATCH_BYTES)"
    by (auto simp: terminal_for_batch_def split: option.splits)
  have some: "wb_records b @ ?t \<noteq> []"
  proof (cases "tc_ready_channels c = []")
    case True
    then have "b = ?b" using b by (simp add: collect_batch_Nil)
    moreover obtain t where "tc_terminal_outbound_record c = Some t" "tc_terminal_outbound_pending c"
      using assms(1,3) True by (auto simp: outbound_ok_def terminal_ok_def)
    ultimately show ?thesis using True by (simp add: terminal_for_batch_def)
  qed (use bounds in simp)
  obtain c' where take: "writer_take c = Inr (Some (wb_records b @ ?t, wb_bytes b + records_size ?t, c'))"
    using b assms(2) by (simp add: writer_take_def Let_def)
  show ?thesis
  proof (rule that [OF take some])
    show "length (wb_records b @ ?t) \<le> WRITE_BATCH_RECORDS" using t bounds(1) by auto
    show "length (wb_records b @ ?t) = 1 \<or> wb_bytes b + records_size ?t \<le> WRITE_BATCH_BYTES"
    proof (cases "?t = []")
      case True
      with bounds(2) some show ?thesis by (cases "wb_records b") auto
    qed (use t in auto)
  qed
qed

section \<open>Sample runs\<close>

abbreviation sample_limits :: transport_limits where
  "sample_limits \<equiv> \<lparr>tl_maximum_record_bytes = 64, tl_outbound_message_limit = 8,
     tl_outbound_byte_limit = 256, tl_inbound_message_limit = 1, tl_inbound_byte_limit = 64\<rparr>"

abbreviation control_channel :: logical_channel where
  "control_channel \<equiv> \<lparr>ch_kind = CONTROL, ch_lane_id = 0\<rparr>"

definition sample_record :: "frame_type \<Rightarrow> int \<Rightarrow> transport_record" where
  "sample_record t correlation = \<lparr>tr_channel = control_channel, tr_payload = header_bytes t 0 correlation\<rparr>"

abbreviation sample_request :: "int \<Rightarrow> transport_record" where
  "sample_request \<equiv> sample_record FT_RESOLVE_REQUEST"

text \<open>One request written, one in flight, and a \<^verbatim>\<open>GOAWAY\<close> pending behind them.\<close>

definition sample_sending :: tcp_system where
  "sample_sending = the (tcp_run sample_limits 7 [E_Send (sample_request 1), E_Take, E_Wrote,
     E_Send (sample_request 2), E_Take, E_Terminal (sample_record FT_GOAWAY 0)])"

text \<open>One request received and one whose header waits, the queue being drained.\<close>

definition sample_receiving :: tcp_system where
  "sample_receiving = the (tcp_run sample_limits 7
     [E_Reader, E_Chunk (take 5 (tr_payload (sample_request 1))),
      E_Chunk (drop 5 (tr_payload (sample_request 1))), E_Reader, E_Reader,
      E_Reader, E_Chunk (tr_payload (sample_request 2)), E_Reader, E_Receive 4])"

lemma sample_reachable: "tcp_run limits uid es \<noteq> None \<Longrightarrow> tcp_reachable (the (tcp_run limits uid es))"
  using tcp_run_reachable by auto

lemma fired_reachable:
  assumes "tcp_fire e s \<noteq> None" "tcp_reachable s"
  shows "tcp_reachable (the (tcp_fire e s))"
proof -
  obtain s' where "tcp_fire e s = Some s'" using assms(1) by auto
  with tcp_reachable.Step [OF assms(2) tcp_fire_step [OF this]] show ?thesis by simp
qed

lemma sample_sending_reachable: "tcp_reachable sample_sending"
  unfolding sample_sending_def by (rule sample_reachable) code_simp

lemma sample_receiving_reachable: "tcp_reachable sample_receiving"
  unfolding sample_receiving_def by (rule sample_reachable) code_simp

section \<open>Sending\<close>

text \<open>
  C2. A connection refines one FIFO queue per logical channel. In every reachable state, closed or
  not, what was given to the socket on a channel is a prefix of what \<^verbatim>\<open>send\<close> and its variants admitted on
  it: nothing is duplicated, invented or reordered. While the connection is not closed nothing is lost
  either: the rest is in the channel's queue, or is the pending terminal record.
\<close>

theorem tcp_channel_fifo:
  assumes "tcp_reachable s"
  shows "prefix (on_channel ch (ts_written s @ inflight_records s)) (on_channel ch (ts_admitted s))
    \<and> (tc_state (ts_conn s) = CS_CLOSED
       \<or> on_channel ch (ts_written s @ inflight_records s) @ queued (tc_outbound (ts_conn s)) ch
           @ on_channel ch (pending_terminal (ts_conn s)) = on_channel ch (ts_admitted s))"
  using tcp_reachable_fifo [OF assms] tcp_reachable_outbound [OF assms]
  by (auto simp: outbound_inv_def outbound_ok_def fifo_ok_def)

theorem tcp_channel_fifo_witness:
  "ts_written sample_sending = [sample_request 1] \<and> inflight_records sample_sending = [sample_request 2]
    \<and> prefix (on_channel control_channel [sample_request 1, sample_request 2])
        (on_channel control_channel (ts_admitted sample_sending))"
proof -
  have w: "ts_written sample_sending = [sample_request 1]" by code_simp
  have i: "inflight_records sample_sending = [sample_request 2]" by code_simp
  show ?thesis using tcp_channel_fifo [OF sample_sending_reachable, of control_channel] w i by simp
qed

text \<open>
  C13. The snapshot counts exactly what is pending: until the connection closes, the pending outbound
  messages and bytes it reports are those admitted and not yet written.
\<close>

theorem tcp_pending_accounting:
  assumes "tcp_reachable s" "cs_state (tcp_snapshot (ts_conn s)) \<noteq> CS_CLOSED"
  shows "cs_pending_outbound_messages (tcp_snapshot (ts_conn s))
      = int (length (ts_admitted s)) - int (length (ts_written s))
    \<and> cs_pending_outbound_bytes (tcp_snapshot (ts_conn s))
      = records_size (ts_admitted s) - records_size (ts_written s)"
  using tcp_reachable_pending [OF assms(1)] assms(2) by (auto simp: tcp_snapshot_def)

theorem tcp_pending_accounting_witness:
  "cs_pending_outbound_messages (tcp_snapshot (ts_conn sample_sending)) = 2
    \<and> cs_pending_outbound_bytes (tcp_snapshot (ts_conn sample_sending)) = 32"
proof -
  have "cs_state (tcp_snapshot (ts_conn sample_sending)) \<noteq> CS_CLOSED" by code_simp
  moreover have "int (length (ts_admitted sample_sending)) - int (length (ts_written sample_sending)) = 2"
    "records_size (ts_admitted sample_sending) - records_size (ts_written sample_sending) = 32"
    by code_simp+
  ultimately show ?thesis using tcp_pending_accounting [OF sample_sending_reachable] by simp
qed

text \<open>
  C6. The writer makes progress: whenever records are admitted and not yet given to the socket and no
  batch is in flight, the writer's wake-up event is set, and the section it runs then takes at least
  one record, in a batch within the bounds. No wake-up is lost, and none of the look-ups of the
  batching loop raises.
\<close>

theorem tcp_writer_progress:
  assumes "tcp_reachable s" "tc_state (ts_conn s) \<noteq> CS_CLOSED" "ts_inflight s = None"
    "length (ts_written s) < length (ts_admitted s)"
  shows "tc_writer_ready (ts_conn s)
    \<and> (\<exists>records n c. writer_take (ts_conn s) = Inr (Some (records, n, c)) \<and> records \<noteq> []
        \<and> length records \<le> WRITE_BATCH_RECORDS
        \<and> (length records = 1 \<or> n \<le> WRITE_BATCH_BYTES))"
proof -
  let ?c = "ts_conn s"
  have inv: "outbound_ok ?c [] (ts_written s) (ts_admitted s)"
    using tcp_reachable_outbound [OF assms(1)] assms(2,3) by (simp add: outbound_inv_def inflight_records_def)
  have work: "tc_ready_channels ?c \<noteq> [] \<or> tc_terminal_outbound_pending ?c"
  proof (rule ccontr)
    assume none: "\<not> ?thesis"
    then have "tc_outbound ?c = []" using inv by (auto simp: outbound_ok_def channels_ok_Nil)
    then have "tc_outbound_messages ?c = 0"
      using inv none by (simp add: outbound_ok_def counters_ok_def total_of_def pending_terminal_def)
    then show False using tcp_reachable_pending [OF assms(1)] assms(2,4) by simp
  qed
  obtain records n c where take: "writer_take ?c = Inr (Some (records, n, c))" "records \<noteq> []"
      "length records \<le> WRITE_BATCH_RECORDS" "length records = 1 \<or> n \<le> WRITE_BATCH_BYTES"
    using writer_take_bounds [OF inv assms(2) work] by blast
  with inv work show ?thesis by (auto simp: outbound_ok_def)
qed

theorem tcp_writer_progress_witness:
  "(let s = the (tcp_fire E_Wrote sample_sending) in
      tc_writer_ready (ts_conn s)
      \<and> (\<exists>records n c. writer_take (ts_conn s) = Inr (Some (records, n, c)) \<and> records \<noteq> []))"
proof -
  let ?s = "the (tcp_fire E_Wrote sample_sending)"
  have "tcp_fire E_Wrote sample_sending \<noteq> None" by code_simp
  then have "tcp_reachable ?s" by (rule fired_reachable [OF _ sample_sending_reachable])
  moreover have "tc_state (ts_conn ?s) \<noteq> CS_CLOSED" by code_simp
  moreover have "ts_inflight ?s = None" by code_simp
  moreover have "length (ts_written ?s) < length (ts_admitted ?s)" by code_simp
  ultimately show ?thesis unfolding Let_def using tcp_writer_progress by blast
qed

text \<open>
  C12. \<^verbatim>\<open>GOAWAY\<close> is last: once \<^verbatim>\<open>send_terminal\<close> admitted a record, no other record is ever admitted, and when
  it has been taken for the socket, everything admitted before it has been as well and it is the last
  record written.
\<close>

theorem tcp_terminal_last:
  assumes "tcp_reachable s" "tc_terminal_outbound_record (ts_conn s) = Some t"
    "tc_state (ts_conn s) \<noteq> CS_CLOSED"
  shows "last (ts_admitted s) = t
    \<and> (\<forall>seen r. tcp_send seen r (ts_conn s) \<in> range Inl \<and> tcp_send_active r (ts_conn s) \<in> range Inl
         \<and> tcp_send_terminal seen r (ts_conn s) \<in> range Inl)
    \<and> (tc_terminal_outbound_pending (ts_conn s)
       \<or> last (ts_written s @ inflight_records s) = t
         \<and> length (ts_written s @ inflight_records s) = length (ts_admitted s))"
proof -
  have inv: "outbound_ok (ts_conn s) (inflight_records s) (ts_written s) (ts_admitted s)"
    using tcp_reachable_outbound [OF assms(1)] assms(3) by (simp add: outbound_inv_def)
  have "tc_terminal_outbound_pending (ts_conn s)
      \<or> length (ts_written s @ inflight_records s) = length (ts_admitted s)"
  proof (rule disjCI)
    assume short: "\<not> length (ts_written s @ inflight_records s) = length (ts_admitted s)"
    show "tc_terminal_outbound_pending (ts_conn s)"
    proof (rule ccontr)
      assume none: "\<not> ?thesis"
      then have "tc_ready_channels (ts_conn s) = []" using inv assms(2) by (auto simp: outbound_ok_def terminal_ok_def)
      then have "tc_outbound (ts_conn s) = []" using inv by (auto simp: outbound_ok_def channels_ok_Nil)
      then have "tc_outbound_messages (ts_conn s) = int (length (inflight_records s))"
        using inv none by (simp add: outbound_ok_def counters_ok_def total_of_def pending_terminal_def)
      then show False using tcp_reachable_pending [OF assms(1)] assms(3) short by simp
    qed
  qed
  moreover have "x \<in> range Inl" if "\<not> (\<exists>c. x = Inr c)" for x :: "tcp_connection result"
    using that by (cases x) auto
  ultimately show ?thesis
    using inv assms(2)
    by (auto simp: outbound_ok_def terminal_ok_def tcp_send_def tcp_send_active_def
        tcp_send_terminal_def result_simps)
qed

theorem tcp_terminal_last_witness:
  "last (ts_admitted sample_sending) = sample_record FT_GOAWAY 0
    \<and> tcp_send 64 (sample_request 3) (ts_conn sample_sending) \<in> range Inl"
proof -
  have "tc_terminal_outbound_record (ts_conn sample_sending) = Some (sample_record FT_GOAWAY 0)"
    by code_simp
  moreover have "tc_state (ts_conn sample_sending) \<noteq> CS_CLOSED" by code_simp
  ultimately show ?thesis using tcp_terminal_last [OF sample_sending_reachable] by blast
qed

section \<open>Receiving\<close>

lemma prefix_take: "prefix xs ys \<Longrightarrow> xs = take (length xs) ys"
  by (auto simp: prefix_def)

lemma received_prefix:
  assumes "tcp_reachable s" "list_all one_frame payloads" "prefix (ts_arrived s) (concat payloads)"
  shows "prefix (map tr_payload (ts_received s)) payloads"
proof -
  let ?rs = "map tr_payload (ts_received s)"
  have rs: "list_all one_frame ?rs" "prefix (concat ?rs) (concat payloads)"
    using tcp_reachable_stream [OF assms(1)] assms(3) prefix_order.trans by blast+
  then obtain u where u: "concat ?rs @ u = concat payloads @ []" by (auto simp: prefix_def)
  show ?thesis
  proof (cases "length ?rs \<le> length payloads")
    case True
    then show ?thesis using frames_unique [OF rs(1) assms(2) u] by (auto simp: prefix_def)
  next
    case False
    then obtain more where more: "?rs = payloads @ more"
      using frames_unique [OF assms(2) rs(1) u [symmetric]] by auto
    then have "concat more = []" using u by auto
    moreover have "list_all one_frame more" using rs(1) more by simp
    ultimately have "more = []" by (cases more) (auto simp: one_frame_def)
    with more False show ?thesis by simp
  qed
qed

text \<open>
  C4. Sender to receiver, through two connections and a reliable byte stream: if what arrived at the
  receiving connection is a prefix of the bytes the sending connection gave to its socket, then the
  payloads its callers received are, in order and without a gap, the first of the records written by
  the sender; on each logical channel these are the first of the records admitted on it. This holds
  whatever the batching, the chunks of the stream, the limits, and the closing of either side.
\<close>

theorem tcp_end_to_end:
  assumes "tcp_reachable a" "tcp_reachable b"
    and "list_all one_frame (map tr_payload (ts_written a @ inflight_records a))"
    and "prefix (ts_arrived b) (concat (map tr_payload (ts_written a @ inflight_records a)))"
  shows "\<exists>sent. prefix sent (ts_written a @ inflight_records a)
    \<and> map tr_payload (ts_received b) = map tr_payload sent
    \<and> (\<forall>ch. prefix (on_channel ch sent) (on_channel ch (ts_admitted a)))"
proof -
  let ?given = "ts_written a @ inflight_records a" and ?n = "length (ts_received b)"
  have "map tr_payload (ts_received b) = map tr_payload (take ?n ?given)"
    using prefix_take [OF received_prefix [OF assms(2,3,4)]] by (simp only: take_map length_map)
  moreover have "prefix (on_channel ch (take ?n ?given)) (on_channel ch (ts_admitted a))" for ch
  proof -
    have "prefix (on_channel ch (take ?n ?given)) (on_channel ch ?given)"
      unfolding on_channel_def by (intro filter_mono_prefix take_is_prefix)
    then show ?thesis using tcp_reachable_fifo [OF assms(1), of ch] by (rule prefix_order.trans)
  qed
  ultimately show ?thesis using take_is_prefix by blast
qed

theorem tcp_end_to_end_witness:
  "map tr_payload (ts_received sample_receiving) = [tr_payload (sample_request 1)]
    \<and> (\<exists>sent. prefix sent (ts_written sample_sending @ inflight_records sample_sending)
        \<and> map tr_payload (ts_received sample_receiving) = map tr_payload sent)"
proof -
  have "map tr_payload (ts_received sample_receiving) = [tr_payload (sample_request 1)]" by code_simp
  moreover have "list_all one_frame (map tr_payload (ts_written sample_sending @ inflight_records sample_sending))"
    by code_simp
  moreover have "prefix (ts_arrived sample_receiving)
      (concat (map tr_payload (ts_written sample_sending @ inflight_records sample_sending)))"
    by code_simp
  ultimately show ?thesis
    using tcp_end_to_end [OF sample_sending_reachable sample_receiving_reachable] by blast
qed

text \<open>
  C5. Reassembly composes with the codec: if the bytes that arrived are a prefix of encoded frames
  laid end to end, then decoding the payloads received yields exactly the first of those frames.
\<close>

theorem tcp_frames_reassembled:
  assumes "tcp_reachable s" "list_all (wf_frame nfc) frames"
    and "list_all2 (\<lambda>f data. encode_frame nfc f maximum kind = Inr data) frames payloads"
    and "prefix (ts_arrived s) (concat payloads)"
  shows "map (\<lambda>r. decode_frame nfc (tr_payload r) maximum kind) (ts_received s)
    = map Inr (take (length (ts_received s)) frames)"
proof -
  have "list_all one_frame payloads"
    using assms(3) by (auto simp: list_all_length list_all2_conv_all_nth intro: encoded_one_frame)
  from received_prefix [OF assms(1) this assms(4)]
  have p: "map tr_payload (ts_received s) = take (length (ts_received s)) payloads"
    using prefix_take by force
  have "map (\<lambda>data. decode_frame nfc data maximum kind) payloads = map Inr frames"
    using assms(3,2) by (induction rule: list_all2_induct) (simp_all add: frame_codec_decode_encode)
  from arg_cong [OF this, of "take (length (ts_received s))"] show ?thesis
    using arg_cong [OF p, of "map (\<lambda>data. decode_frame nfc data maximum kind)"]
    by (simp add: take_map comp_def)
qed

definition sample_frame_received :: tcp_system where
  "sample_frame_received = the (tcp_run \<lparr>tl_maximum_record_bytes = 4096, tl_outbound_message_limit = 8,
       tl_outbound_byte_limit = 256, tl_inbound_message_limit = 1, tl_inbound_byte_limit = 4096\<rparr> 7
     [E_Reader, E_Chunk (take 16 sample_frame_bytes), E_Reader, E_Chunk (take 50 (drop 16 sample_frame_bytes)),
      E_Chunk (drop 66 sample_frame_bytes), E_Reader, E_Receive 1])"

lemma sample_frame_reachable: "tcp_reachable sample_frame_received"
  unfolding sample_frame_received_def by (rule sample_reachable) code_simp

theorem tcp_frames_reassembled_witness:
  "length (ts_received sample_frame_received) = 1
    \<and> map (\<lambda>r. decode_frame isascii (tr_payload r) 4096 (Some DELIVERY_LANE)) (ts_received sample_frame_received)
      = [Inr (UserMessage sample_message)]"
proof -
  have n: "length (ts_received sample_frame_received) = 1" by code_simp
  have p: "prefix (ts_arrived sample_frame_received) (concat [sample_frame_bytes])" by code_simp
  show ?thesis
    using n tcp_frames_reassembled [OF sample_frame_reachable _ _ p, of isascii "[UserMessage sample_message]"]
      sample_encoded by simp
qed

text \<open>
  C14. The inbound counters account for every byte held: until the connection closes, the pending
  inbound messages are the queued records and the one being read, and the pending inbound bytes are
  those of the queued records, of the reservation, of a partial header and of what was read ahead.
\<close>

theorem tcp_inbound_accounting:
  assumes "tcp_reachable s" "tc_state (ts_conn s) \<noteq> CS_CLOSED"
  shows "cs_pending_inbound_messages (tcp_snapshot (ts_conn s))
      = int (length (tc_inbound (ts_conn s))) + reserved_count (ts_phase s)
    \<and> cs_pending_inbound_bytes (tcp_snapshot (ts_conn s))
      = records_size (tc_inbound (ts_conn s)) + reserved_size (ts_phase s)
        + tc_reading_header_bytes (ts_conn s) + tc_unassigned_receive_bytes (ts_conn s)
    \<and> 0 \<le> cs_pending_inbound_bytes (tcp_snapshot (ts_conn s))"
proof -
  have acc: "accounts_ok (ts_phase s) (ts_conn s)"
    using tcp_reachable_inbound [OF assms(1)] assms(2) by (simp add: inbound_inv_def)
  moreover have "0 \<le> reserved_size (ts_phase s) \<and> 0 \<le> tc_reading_header_bytes (ts_conn s)"
    using acc by (cases "ts_phase s") (auto simp: accounts_ok_def reserved_size_def)
  ultimately show ?thesis by (auto simp: accounts_ok_def tcp_snapshot_def)
qed

theorem tcp_inbound_accounting_witness:
  "tc_inbound (ts_conn sample_receiving) = []
    \<and> cs_pending_inbound_bytes (tcp_snapshot (ts_conn sample_receiving)) = 16"
proof -
  have "tc_state (ts_conn sample_receiving) \<noteq> CS_CLOSED" by code_simp
  note acc = tcp_inbound_accounting [OF sample_receiving_reachable this]
  have "tc_inbound (ts_conn sample_receiving) = []" by code_simp
  moreover have "reserved_size (ts_phase sample_receiving) = 0" by code_simp
  moreover have "tc_reading_header_bytes (ts_conn sample_receiving) = 16" by code_simp
  moreover have "tc_unassigned_receive_bytes (ts_conn sample_receiving) = 0" by code_simp
  ultimately show ?thesis using acc by simp
qed



text \<open>
  C21. The accounts do not survive closing: a connection closed while its reader waits for room lets
  the reader pass its admission test against the counters that closing reset, and giving the
  reservation back then leaves minus sixteen pending inbound bytes in every later snapshot.
\<close>

theorem tcp_closed_negative_bytes:
  "\<exists>s. tcp_reachable s \<and> cs_state (tcp_snapshot (ts_conn s)) = CS_CLOSED
     \<and> cs_pending_inbound_bytes (tcp_snapshot (ts_conn s)) = - 16"
proof -
  let ?r = "tcp_run sample_limits 7 [E_Reader, E_Chunk (tr_payload (sample_request 1)), E_Reader, E_Reader,
    E_Reader, E_Chunk (tr_payload (sample_request 2)), E_Reader, E_Close, E_Reader, E_Reader]"
  have "?r \<noteq> None" by code_simp
  then have "tcp_reachable (the ?r)" by (rule sample_reachable)
  moreover have "cs_state (tcp_snapshot (ts_conn (the ?r))) = CS_CLOSED" by code_simp
  moreover have "cs_pending_inbound_bytes (tcp_snapshot (ts_conn (the ?r))) = - 16" by code_simp
  ultimately show ?thesis by blast
qed

end
