(* ===== verification/Event_Windows.thy ===== *)
theory Event_Windows
  imports Movie_Prelude "HOL-Library.Sublist"
begin

text \<open>
  The bounded event windows of the runtime: \<^verbatim>\<open>DeadLetterBroker\<close> (\<^verbatim>\<open>movie/actor/dead_letter.py\<close>),
  \<^verbatim>\<open>RemotingHealthEvents\<close> (\<^verbatim>\<open>movie/remoting/observability.py\<close>) and \<^verbatim>\<open>ClusterEvents\<close>
  (\<^verbatim>\<open>movie/cluster/observability.py\<close>). A window keeps the last events published; subscriptions read
  them by a cursor and count what they missed. The three classes share their state and most of their
  operations; they differ in validation and in what closing a subscription does. Every operation
  runs under the window's lock and is one step.
\<close>

section \<open>State and operations\<close>

record subscription =
  su_cursor :: int
  su_dropped :: int
  su_closed :: bool

text \<open>
  Subscriptions are objects: \<open>ew_objects\<close> holds every one created, by number, and
  \<open>ew_subscriptions\<close> the numbers of those registered.
\<close>

record 'e event_window =
  ew_capacity :: int
  ew_max_subscriptions :: int
  ew_entries :: "(int \<times> 'e) list"
  ew_next_sequence :: int
  ew_objects :: "subscription list"
  ew_subscriptions :: "nat list"
  ew_closed :: bool

definition window_init :: "int \<Rightarrow> int \<Rightarrow> 'e event_window result" where
  "window_init capacity max_subscriptions =
     rbind (guard (\<not> (capacity \<le> 0 \<or> max_subscriptions \<le> 0)) ValueError) (\<lambda>_.
       Inr \<lparr>ew_capacity = capacity, ew_max_subscriptions = max_subscriptions, ew_entries = [],
            ew_next_sequence = 0, ew_objects = [], ew_subscriptions = [], ew_closed = False\<rparr>)"

text \<open>Appending to a deque with \<^verbatim>\<open>maxlen\<close> drops from the left.\<close>

definition keep_last :: "nat \<Rightarrow> 'a list \<Rightarrow> 'a list" where
  "keep_last n xs = drop (length xs - n) xs"

definition window_publish :: "'e \<Rightarrow> 'e event_window \<Rightarrow> bool \<times> 'e event_window" where
  "window_publish e w =
     (if ew_closed w then (False, w)
      else (True, w\<lparr>ew_entries := keep_last (nat (ew_capacity w)) (ew_entries w @ [(ew_next_sequence w, e)]),
                    ew_next_sequence := ew_next_sequence w + 1\<rparr>))"

definition window_subscribe :: "'e event_window \<Rightarrow> (nat \<times> 'e event_window) result" where
  "window_subscribe w =
     rbind (guard (\<not> ew_closed w) RuntimeError) (\<lambda>_.
     rbind (guard (\<not> int (length (ew_subscriptions w)) \<ge> ew_max_subscriptions w) RuntimeError) (\<lambda>_.
       let i = length (ew_objects w) in
       Inr (i, w\<lparr>ew_objects := ew_objects w @
                   [\<lparr>su_cursor = ew_next_sequence w, su_dropped = 0, su_closed = False\<rparr>],
                 ew_subscriptions := i # ew_subscriptions w\<rparr>)))"

definition window_close :: "'e event_window \<Rightarrow> 'e event_window" where
  "window_close w = w\<lparr>ew_closed := True\<rparr>"

definition advance_cursor :: "'e event_window \<Rightarrow> subscription \<Rightarrow> subscription" where
  "advance_cursor w s =
     (case ew_entries w of
        [] \<Rightarrow> s
      | (first_sequence, _) # _ \<Rightarrow>
          if su_cursor s < first_sequence
          then s\<lparr>su_dropped := su_dropped s + (first_sequence - su_cursor s), su_cursor := first_sequence\<rparr>
          else s)"

definition set_subscription :: "nat \<Rightarrow> subscription \<Rightarrow> 'e event_window \<Rightarrow> 'e event_window" where
  "set_subscription i s w = w\<lparr>ew_objects := (ew_objects w)[i := s]\<rparr>"

definition window_poll :: "nat \<Rightarrow> 'e event_window \<Rightarrow> 'e option \<times> 'e event_window" where
  "window_poll i w =
     (let s = ew_objects w ! i in
      if su_closed s then (None, w)
      else let s = advance_cursor w s in
        case ew_entries w of
          [] \<Rightarrow> (None, set_subscription i s w)
        | (first_sequence, _) # _ \<Rightarrow>
            let index = su_cursor s - first_sequence in
            if index \<ge> int (length (ew_entries w)) then (None, set_subscription i s w)
            else let (sequence, e) = ew_entries w ! nat index in
              (Some e, set_subscription i (s\<lparr>su_cursor := sequence + 1\<rparr>) w))"

definition window_get_nowait :: "nat \<Rightarrow> 'e event_window \<Rightarrow> 'e result \<times> 'e event_window" where
  "window_get_nowait i w =
     (case window_poll i w of (None, w') \<Rightarrow> (Inl QueueEmpty, w') | (Some e, w') \<Rightarrow> (Inr e, w'))"



text \<open>
  Closing a subscription and reading its count. The dead-letter broker leaves the cursor where it is
  and goes on counting what a closed subscription misses; the other two count what was missed up to
  the moment of closing.
\<close>

definition broker_unsubscribe :: "nat \<Rightarrow> 'e event_window \<Rightarrow> 'e event_window" where
  "broker_unsubscribe i w =
     (let s = ew_objects w ! i in
      if su_closed s then w
      else (set_subscription i (s\<lparr>su_closed := True\<rparr>) w)
             \<lparr>ew_subscriptions := filter (\<lambda>j. j \<noteq> i) (ew_subscriptions w)\<rparr>)"


definition broker_dropped_count :: "nat \<Rightarrow> 'e event_window \<Rightarrow> int \<times> 'e event_window" where
  "broker_dropped_count i w =
     (let s = advance_cursor w (ew_objects w ! i) in (su_dropped s, set_subscription i s w))"


section \<open>The window holds the last events published\<close>

text \<open>\<open>log\<close>: everything ever published, in order.\<close>

definition retained :: "nat \<Rightarrow> 'e list \<Rightarrow> nat" where
  "retained c log = length log - c"

definition window_inv :: "'e list \<Rightarrow> 'e event_window \<Rightarrow> bool" where
  "window_inv log w \<longleftrightarrow> 0 < ew_capacity w \<and> ew_next_sequence w = int (length log)
     \<and> ew_entries w = map (\<lambda>k. (int k, log ! k)) [retained (nat (ew_capacity w)) log..<length log]
     \<and> (\<forall>s \<in> set (ew_objects w). 0 \<le> su_dropped s \<and> su_dropped s \<le> su_cursor s
          \<and> su_cursor s \<le> int (length log))"

lemma keep_last_upt: "keep_last c (map f [a..<n]) = map f [max a (n - c)..<n]"
proof -
  have "a + (n - a - c) = max a (n - c)" if "a \<le> n" using that by arith
  then show ?thesis by (cases "a \<le> n") (auto simp: keep_last_def drop_map)
qed

lemma publish_inv:
  assumes "window_inv log w" "window_publish e w = (published, w')"
  shows "window_inv (if published then log @ [e] else log) w'"
proof (cases "ew_closed w")
  case True
  with assms show ?thesis by (auto simp: window_publish_def)
next
  case False
  let ?c = "nat (ew_capacity w)" and ?n = "length log"
  have w': "published" "w' = w\<lparr>ew_entries := keep_last ?c (ew_entries w @ [(ew_next_sequence w, e)]),
      ew_next_sequence := ew_next_sequence w + 1\<rparr>"
    using assms(2) False by (auto simp: window_publish_def)
  have all: "ew_entries w @ [(ew_next_sequence w, e)]
      = map (\<lambda>k. (int k, (log @ [e]) ! k)) [retained ?c log..<Suc ?n]"
    using assms(1) by (auto simp: window_inv_def retained_def nth_append)
  have "max (retained ?c log) (Suc ?n - ?c) = retained ?c (log @ [e])"
    using assms(1) by (simp add: retained_def window_inv_def)
  then have "ew_entries w' = map (\<lambda>k. (int k, (log @ [e]) ! k)) [retained ?c (log @ [e])..<Suc ?n]"
    unfolding w'(2) all keep_last_upt by simp
  then show ?thesis
    using assms(1) w' by (auto simp: window_inv_def simp del: upt_Suc)
qed

text \<open>What the cursor sees: the oldest event retained.\<close>

lemma advance_cursor_inv:
  assumes "window_inv log w" "s \<in> set (ew_objects w)"
  shows "su_cursor (advance_cursor w s) = max (su_cursor s) (int (retained (nat (ew_capacity w)) log))"
    "su_dropped (advance_cursor w s) - su_cursor (advance_cursor w s) = su_dropped s - su_cursor s"
    "su_closed (advance_cursor w s) = su_closed s"
proof -
  let ?a = "retained (nat (ew_capacity w)) log"
  have "ew_entries w = [] \<and> ?a = 0 \<or> (\<exists>e es. ew_entries w = (int ?a, e) # es)"
    using assms(1) by (cases "?a < length log") (auto simp: window_inv_def retained_def upt_conv_Cons)
  moreover have "0 \<le> su_cursor s" using assms by (fastforce simp: window_inv_def)
  ultimately show "su_cursor (advance_cursor w s) = max (su_cursor s) (int ?a)"
    "su_dropped (advance_cursor w s) - su_cursor (advance_cursor w s) = su_dropped s - su_cursor s"
    "su_closed (advance_cursor w s) = su_closed s"
    by (auto simp: advance_cursor_def split: if_splits)
qed

lemma set_subscription_inv:
  assumes "window_inv log w" "i < length (ew_objects w)"
    "su_dropped s - su_cursor s \<le> su_dropped (ew_objects w ! i) - su_cursor (ew_objects w ! i)"
    "0 \<le> su_dropped s" "su_cursor s \<le> int (length log)"
  shows "window_inv log (set_subscription i s w)"
proof -
  have "su_dropped (ew_objects w ! i) \<le> su_cursor (ew_objects w ! i)"
    using assms(1,2) by (simp add: window_inv_def)
  then have ok: "0 \<le> su_dropped s \<and> su_dropped s \<le> su_cursor s \<and> su_cursor s \<le> int (length log)"
    using assms(3-5) by linarith
  have "\<forall>s' \<in> set ((ew_objects w)[i := s]). 0 \<le> su_dropped s' \<and> su_dropped s' \<le> su_cursor s'
      \<and> su_cursor s' \<le> int (length log)"
    using ok assms(1) set_update_subset_insert [of "ew_objects w" i s] by (auto simp: window_inv_def)
  then show ?thesis using assms(1) by (simp add: window_inv_def set_subscription_def)
qed

lemma poll_inv:
  assumes "window_inv log w" "i < length (ew_objects w)" "window_poll i w = (r, w')"
  defines "s \<equiv> ew_objects w ! i" and "a \<equiv> int (retained (nat (ew_capacity w)) log)"
  obtains (closed) "su_closed s" "r = None" "w' = w"
  | (idle) s' where "r = None" "w' = set_subscription i s' w" "su_cursor s' = int (length log)"
      "su_dropped s' - su_cursor s' = su_dropped s - su_cursor s" "su_cursor s \<le> su_cursor s'"
      "\<not> su_closed s" "su_closed s' = su_closed s"
  | (event) s' k where "r = Some (log ! k)" "k < length log" "int k = max (su_cursor s) a"
      "w' = set_subscription i s' w" "su_cursor s' = int k + 1"
      "su_dropped s' - int k = su_dropped s - su_cursor s" "\<not> su_closed s" "su_closed s' = su_closed s"
proof (cases "su_closed s")
  case True
  then have "window_poll i w = (None, w)" by (simp add: window_poll_def s_def)
  then show ?thesis using assms(3) by (intro that(1) [OF True]) simp_all
next
  case False
  let ?a = "retained (nat (ew_capacity w)) log" and ?s = "advance_cursor w s" and ?n = "length log"
  have mem: "s \<in> set (ew_objects w)" using assms(2) by (simp add: s_def)
  note adv = advance_cursor_inv [OF assms(1) mem]
  have le: "su_cursor s \<le> int ?n" using assms(1) mem by (simp add: window_inv_def)
  have ent: "ew_entries w = map (\<lambda>k. (int k, log ! k)) [?a..<?n]" using assms(1) by (simp add: window_inv_def)
  show ?thesis
  proof (cases "max (su_cursor s) a < int ?n")
    case False
    then have cur: "su_cursor ?s = int ?n" using adv(1) le by (auto simp: a_def retained_def)
    have "window_poll i w = (None, set_subscription i ?s w)"
    proof (cases "?a < ?n")
      case True
      then have "ew_entries w = (int ?a, log ! ?a) # map (\<lambda>k. (int k, log ! k)) [Suc ?a..<?n]"
        by (simp add: ent upt_conv_Cons)
      then show ?thesis
        using \<open>\<not> su_closed s\<close> cur True by (simp add: window_poll_def s_def [symmetric] Let_def)
    next
      case False
      then show ?thesis
        using \<open>\<not> su_closed s\<close> ent by (simp add: window_poll_def s_def [symmetric] Let_def)
    qed
    then show ?thesis
      using assms(3) cur adv(2,3) le \<open>\<not> su_closed s\<close> by (intro that(2) [of ?s]) simp_all
  next
    case True
    define k where "k = nat (su_cursor ?s)"
    have "?a < ?n" using True by (simp add: a_def)
    then have hd: "ew_entries w = (int ?a, log ! ?a) # map (\<lambda>k. (int k, log ! k)) [Suc ?a..<?n]"
      by (simp add: ent upt_conv_Cons)
    have k: "int k = su_cursor ?s" "k < ?n" "?a \<le> k" using True adv(1) by (auto simp: k_def a_def)
    have idx: "nat (su_cursor ?s - int ?a) = k - ?a" using k by linarith
    have "[?a..<?n] ! (k - ?a) = k" using k(2,3) by (subst nth_upt) simp_all
    then have at: "ew_entries w ! (k - ?a) = (int k, log ! k)" using k(2,3) by (simp add: ent)
    have short: "\<not> su_cursor ?s - int ?a \<ge> int (length (ew_entries w))" using k by (simp add: ent)
    have "window_poll i w = (case ew_entries w ! nat (su_cursor ?s - int ?a) of (sequence, e) \<Rightarrow>
        (Some e, set_subscription i (?s\<lparr>su_cursor := sequence + 1\<rparr>) w))"
      using \<open>\<not> su_closed s\<close> short
      by (simp add: window_poll_def s_def [symmetric] Let_def hd del: length_map)
    then have "window_poll i w = (Some (log ! k), set_subscription i (?s\<lparr>su_cursor := int k + 1\<rparr>) w)"
      unfolding idx at by simp
    then show ?thesis
      using assms(3) k adv \<open>\<not> su_closed s\<close> True
      by (intro that(3) [of k "?s\<lparr>su_cursor := int k + 1\<rparr>"]) (auto simp: a_def)
  qed
qed

lemma window_inv_entries:
  assumes "window_inv log w"
  shows "map snd (ew_entries w) = drop (length log - nat (ew_capacity w)) log"
proof -
  have "map snd (ew_entries w) = map ((!) log) [retained (nat (ew_capacity w)) log..<length log]"
    using assms by (simp add: window_inv_def)
  also have "\<dots> = drop (retained (nat (ew_capacity w)) log) (map ((!) log) [0..<length log])"
    by (simp add: drop_map)
  finally show ?thesis by (simp add: retained_def map_nth)
qed

lemma set_subscription_objects [simp]: "ew_objects (set_subscription i s w) = (ew_objects w)[i := s]"
  by (simp add: set_subscription_def)

lemma window_inv_cursor: "window_inv log w \<Longrightarrow> i < length (ew_objects w) \<Longrightarrow>
    0 \<le> su_dropped (ew_objects w ! i) \<and> su_cursor (ew_objects w ! i) \<le> int (length log)"
  by (simp add: window_inv_def)

text \<open>Draining without a limit empties what is left to read.\<close>

lemma set_subscription_fields [simp]:
  "ew_capacity (set_subscription i s w) = ew_capacity w" "ew_entries (set_subscription i s w) = ew_entries w"
  by (simp_all add: set_subscription_def)



section \<open>Delivery\<close>

text \<open>
  A window with its history: everything published, and for every subscription the sequence number
  at which it started and the events it was given. The two operations in which the classes differ
  are arguments.
\<close>

record 'e window_run =
  wr_window :: "'e event_window"
  wr_log :: "'e list"
  wr_starts :: "nat list"
  wr_delivered :: "'e list list"

datatype 'e window_op = Publish 'e | Subscribe | Poll nat | Unsubscribe nat | DroppedCount nat | CloseWindow

type_synonym 'e unsubscribe_op = "nat \<Rightarrow> 'e event_window \<Rightarrow> 'e event_window"
type_synonym 'e dropped_op = "nat \<Rightarrow> 'e event_window \<Rightarrow> int \<times> 'e event_window"

fun window_step :: "'e unsubscribe_op \<Rightarrow> 'e dropped_op \<Rightarrow> 'e window_run \<Rightarrow> 'e window_op \<Rightarrow> 'e window_run" where
  "window_step unsub dropped r (Publish e) =
     (case window_publish e (wr_window r) of (published, w) \<Rightarrow>
        r\<lparr>wr_window := w, wr_log := (if published then wr_log r @ [e] else wr_log r)\<rparr>)"
| "window_step unsub dropped r Subscribe =
     (case window_subscribe (wr_window r) of
        Inl _ \<Rightarrow> r
      | Inr (_, w) \<Rightarrow> r\<lparr>wr_window := w, wr_starts := wr_starts r @ [length (wr_log r)],
                       wr_delivered := wr_delivered r @ [[]]\<rparr>)"
| "window_step unsub dropped r (Poll i) =
     (if i < length (ew_objects (wr_window r))
      then case window_poll i (wr_window r) of
             (None, w) \<Rightarrow> r\<lparr>wr_window := w\<rparr>
           | (Some e, w) \<Rightarrow> r\<lparr>wr_window := w, wr_delivered := (wr_delivered r)[i := wr_delivered r ! i @ [e]]\<rparr>
      else r)"
| "window_step unsub dropped r (Unsubscribe i) =
     (if i < length (ew_objects (wr_window r)) then r\<lparr>wr_window := unsub i (wr_window r)\<rparr> else r)"
| "window_step unsub dropped r (DroppedCount i) =
     (if i < length (ew_objects (wr_window r)) then r\<lparr>wr_window := snd (dropped i (wr_window r))\<rparr> else r)"
| "window_step unsub dropped r CloseWindow = r\<lparr>wr_window := window_close (wr_window r)\<rparr>"

definition window_history ::
  "'e unsubscribe_op \<Rightarrow> 'e dropped_op \<Rightarrow> 'e event_window \<Rightarrow> 'e window_op list \<Rightarrow> 'e window_run"
where
  "window_history unsub dropped w ops =
     foldl (window_step unsub dropped) \<lparr>wr_window = w, wr_log = [], wr_starts = [], wr_delivered = []\<rparr> ops"

text \<open>The events published between two sequence numbers.\<close>

definition published_between :: "'e list \<Rightarrow> nat \<Rightarrow> nat \<Rightarrow> 'e list" where
  "published_between log a b = map ((!) log) [a..<b]"

definition delivery_ok :: "'e list \<Rightarrow> nat \<Rightarrow> 'e list \<Rightarrow> subscription \<Rightarrow> bool" where
  "delivery_ok log start given s \<longleftrightarrow> int start \<le> su_cursor s
     \<and> subseq given (published_between log start (nat (su_cursor s)))
     \<and> su_dropped s + int (length given) = su_cursor s - int start"

definition history_inv :: "'e window_run \<Rightarrow> bool" where
  "history_inv r \<longleftrightarrow> window_inv (wr_log r) (wr_window r)
     \<and> length (wr_starts r) = length (ew_objects (wr_window r))
     \<and> length (wr_delivered r) = length (ew_objects (wr_window r))
     \<and> (\<forall>i < length (ew_objects (wr_window r)).
          delivery_ok (wr_log r) (wr_starts r ! i) (wr_delivered r ! i) (ew_objects (wr_window r) ! i))"

lemma published_between_append:
  assumes "a \<le> b" "b \<le> c"
  shows "published_between log a c = published_between log a b @ published_between log b c"
proof -
  have "[a..<c] = [a..<b] @ [b..<c]" using assms upt_add_eq_append [of a b "c - b"] by simp
  then show ?thesis by (simp add: published_between_def)
qed

lemma published_between_log: "b \<le> length log \<Longrightarrow> published_between (log @ es) a b = published_between log a b"
  by (auto simp: published_between_def nth_append)

lemma delivery_ok_log:
  "delivery_ok log start given s \<Longrightarrow> su_cursor s \<le> int (length log) \<Longrightarrow> delivery_ok (log @ es) start given s"
  by (auto simp: delivery_ok_def published_between_log)

text \<open>Moving the cursor forward while counting what is skipped keeps the delivery correct.\<close>

lemma delivery_ok_skip:
  assumes "delivery_ok log start given s" "su_cursor s \<le> su_cursor s'"
    "su_dropped s' - su_cursor s' = su_dropped s - su_cursor s"
  shows "delivery_ok log start given s'"
proof -
  have "published_between log start (nat (su_cursor s')) = published_between log start (nat (su_cursor s))
      @ published_between log (nat (su_cursor s)) (nat (su_cursor s'))"
    using assms(1,2) by (intro published_between_append) (auto simp: delivery_ok_def)
  then show ?thesis
    using assms by (auto simp: delivery_ok_def intro: list_emb_append2 subseq_order.trans)
qed

lemma delivery_ok_give:
  assumes "delivery_ok log start given s" "su_cursor s \<le> int k" "su_cursor s' = int k + 1"
    "su_dropped s' - int k = su_dropped s - su_cursor s"
  shows "delivery_ok log start (given @ [log ! k]) s'"
proof -
  have k: "delivery_ok log start given (s\<lparr>su_cursor := int k, su_dropped := su_dropped s'\<rparr>)"
    using assms by (intro delivery_ok_skip [OF assms(1)]) simp_all
  moreover have "published_between log start (nat (int k + 1)) = published_between log start k @ [log ! k]"
    using k published_between_append [of start k "Suc k" log]
    by (simp add: delivery_ok_def published_between_def nat_add_distrib)
  ultimately show ?thesis
    using assms(3) by (auto simp: delivery_ok_def intro: list_emb_append_mono)
qed

text \<open>An operation that only moves one subscription's cursor forward, counting what it skips.\<close>

definition moves :: "'e list \<Rightarrow> nat \<Rightarrow> 'e event_window \<Rightarrow> 'e event_window \<Rightarrow> bool" where
  "moves log i w w' \<longleftrightarrow> window_inv log w'
     \<and> (\<exists>s'. ew_objects w' = (ew_objects w)[i := s'] \<and> su_cursor (ew_objects w ! i) \<le> su_cursor s'
          \<and> su_dropped s' - su_cursor s' = su_dropped (ew_objects w ! i) - su_cursor (ew_objects w ! i))"

lemma window_inv_subscriptions:
  "window_inv log (w\<lparr>ew_subscriptions := x\<rparr>) = window_inv log w"
  "window_inv log (w\<lparr>ew_closed := b\<rparr>) = window_inv log w"
  by (simp_all add: window_inv_def)

lemma moves_set:
  assumes "window_inv log w" "i < length (ew_objects w)" "su_cursor (ew_objects w ! i) \<le> su_cursor s"
    "su_dropped s - su_cursor s = su_dropped (ew_objects w ! i) - su_cursor (ew_objects w ! i)"
    "su_cursor s \<le> int (length log)"
  shows "moves log i w (set_subscription i s w)"
    and "moves log i w ((set_subscription i s w)\<lparr>ew_subscriptions := x\<rparr>)"
  using assms set_subscription_inv [OF assms(1,2), of s] window_inv_cursor [OF assms(1,2)]
  by (auto simp: moves_def window_inv_subscriptions)

lemma moves_refl: "window_inv log w \<Longrightarrow> i < length (ew_objects w) \<Longrightarrow> moves log i w w"
  by (auto simp: moves_def intro!: exI [of _ "ew_objects w ! i"])

lemma moves_advance:
  assumes "window_inv log w" "i < length (ew_objects w)"
  shows "su_cursor (ew_objects w ! i) \<le> su_cursor (advance_cursor w (ew_objects w ! i))"
    "su_cursor (advance_cursor w (ew_objects w ! i)) \<le> int (length log)"
    "su_dropped (advance_cursor w (ew_objects w ! i)) - su_cursor (advance_cursor w (ew_objects w ! i))
      = su_dropped (ew_objects w ! i) - su_cursor (ew_objects w ! i)"
  using advance_cursor_inv [OF assms(1), of "ew_objects w ! i"] assms window_inv_cursor [OF assms]
  by (auto simp: retained_def)

lemma history_moves:
  assumes "history_inv r" "i < length (ew_objects (wr_window r))" "moves (wr_log r) i (wr_window r) w"
  shows "history_inv (r\<lparr>wr_window := w\<rparr>)"
proof -
  obtain s' where s': "ew_objects w = (ew_objects (wr_window r))[i := s']"
      "su_cursor (ew_objects (wr_window r) ! i) \<le> su_cursor s'"
      "su_dropped s' - su_cursor s'
        = su_dropped (ew_objects (wr_window r) ! i) - su_cursor (ew_objects (wr_window r) ! i)"
      "window_inv (wr_log r) w"
    using assms(3) by (auto simp: moves_def)
  have "delivery_ok (wr_log r) (wr_starts r ! i) (wr_delivered r ! i) (ew_objects (wr_window r) ! i)"
    using assms(1,2) by (simp add: history_inv_def)
  from delivery_ok_skip [OF this s'(2,3)]
  have "delivery_ok (wr_log r) (wr_starts r ! i) (wr_delivered r ! i) s'" .
  with assms(1,2) s'(1,4) show ?thesis by (auto simp: history_inv_def nth_list_update)
qed

locale event_stream =
  fixes unsub :: "'e unsubscribe_op" and dropped :: "'e dropped_op"
  assumes unsub_moves: "window_inv log w \<Longrightarrow> i < length (ew_objects w) \<Longrightarrow> moves log i w (unsub i w)"
    and dropped_moves:
      "window_inv log w \<Longrightarrow> i < length (ew_objects w) \<Longrightarrow> moves log i w (snd (dropped i w))"
begin

lemma step_poll:
  assumes "history_inv r" "i < length (ew_objects (wr_window r))"
  shows "history_inv (window_step unsub dropped r (Poll i))"
proof -
  obtain e w where poll: "window_poll i (wr_window r) = (e, w)" by fastforce
  have inv: "window_inv (wr_log r) (wr_window r)" using assms(1) by (simp add: history_inv_def)
  from inv assms(2) poll show ?thesis
  proof (cases rule: poll_inv)
    case closed
    then show ?thesis using poll assms by simp
  next
    case (idle s')
    then have "moves (wr_log r) i (wr_window r) w"
      using moves_set(1) [OF inv assms(2), of s'] by simp
    then show ?thesis using idle(1) poll assms history_moves by simp
  next
    case (event s' k)
    let ?s = "ew_objects (wr_window r) ! i"
    have "delivery_ok (wr_log r) (wr_starts r ! i) (wr_delivered r ! i @ [wr_log r ! k]) s'"
      using assms event(3,5,6) by (intro delivery_ok_give [of _ _ _ ?s]) (auto simp: history_inv_def)
    moreover have "window_inv (wr_log r) (set_subscription i s' (wr_window r))"
      using window_inv_cursor [OF inv assms(2)] event(2,3,5,6)
      by (intro set_subscription_inv [OF inv assms(2)]) auto
    ultimately show ?thesis
      using assms event(1,4) poll by (auto simp: history_inv_def nth_list_update)
  qed
qed

lemma step_inv: "history_inv r \<Longrightarrow> history_inv (window_step unsub dropped r op)"
proof (cases op)
  case (Publish e)
  assume inv: "history_inv r"
  obtain p w where w: "window_publish e (wr_window r) = (p, w)" by fastforce
  have "window_inv (if p then wr_log r @ [e] else wr_log r) w"
    using publish_inv [OF _ w] inv by (simp add: history_inv_def)
  moreover have "ew_objects w = ew_objects (wr_window r)"
    using w by (auto simp: window_publish_def split: if_splits)
  moreover have "su_cursor (ew_objects (wr_window r) ! i) \<le> int (length (wr_log r))"
    if "i < length (ew_objects (wr_window r))" for i
    using window_inv_cursor that inv by (auto simp: history_inv_def)
  ultimately show ?thesis
    using inv w Publish by (auto simp: history_inv_def delivery_ok_log)
next
  case Subscribe
  assume inv: "history_inv r"
  have new: "ew_next_sequence (wr_window r) = int (length (wr_log r))"
    using inv by (simp add: history_inv_def window_inv_def)
  then have "delivery_ok (wr_log r) (length (wr_log r)) []
      \<lparr>su_cursor = ew_next_sequence (wr_window r), su_dropped = 0, su_closed = False\<rparr>"
    by (simp add: delivery_ok_def)
  with inv Subscribe new show ?thesis
    by (auto simp: history_inv_def window_subscribe_def window_inv_def nth_append result_simps Let_def
        split: sum.splits)
next
  case CloseWindow
  then show "history_inv r \<Longrightarrow> ?thesis"
    by (simp add: history_inv_def window_close_def window_inv_subscriptions)
next
  case (Poll i)
  assume "history_inv r"
  then show ?thesis
    using Poll step_poll [of r i] by (cases "i < length (ew_objects (wr_window r))") simp_all
next
  case (Unsubscribe i)
  assume "history_inv r"
  then show ?thesis
    using Unsubscribe history_moves [OF _ _ unsub_moves] by (auto simp: history_inv_def)
next
  case (DroppedCount i)
  assume "history_inv r"
  then show ?thesis
    using DroppedCount history_moves [OF _ _ dropped_moves] by (auto simp: history_inv_def)
qed

lemma history_ok:
  assumes "window_init capacity maximum = Inr w"
  shows "history_inv (window_history unsub dropped w ops)"
proof -
  have "history_inv (foldl (window_step unsub dropped) r ops)" if "history_inv r" for r
    using that by (induction ops arbitrary: r) (simp_all add: step_inv)
  moreover have "history_inv \<lparr>wr_window = w, wr_log = [], wr_starts = [], wr_delivered = []\<rparr>"
    using assms by (auto simp: window_init_def history_inv_def window_inv_def retained_def result_simps)
  ultimately show ?thesis by (simp add: window_history_def)
qed

end

interpretation dead_letters: event_stream broker_unsubscribe broker_dropped_count
proof
  fix log :: "'e list" and w :: "'e event_window" and i
  assume inv: "window_inv log w" "i < length (ew_objects w)"
  note adv = moves_advance [OF inv]
  show "moves log i w (snd (broker_dropped_count i w))"
    using adv by (simp add: broker_dropped_count_def Let_def moves_set(1) [OF inv])
  show "moves log i w (broker_unsubscribe i w)"
    using window_inv_cursor [OF inv]
    by (auto simp: broker_unsubscribe_def Let_def moves_refl [OF inv] intro!: moves_set(2) [OF inv])
qed




section \<open>Properties\<close>

definition sample_window :: "nat event_window" where
  "sample_window = projr (window_init 2 4)"

lemma sample_window_init: "window_init 2 4 = Inr sample_window"
  by code_simp

text \<open>
  C24. Dead letters are delivered in order, at most once, and every loss is accounted for: whatever the
  interleaving of publishing, polling, closing and counting, what a subscription was given is a
  subsequence of what was published since it was created up to its cursor, and the events in between
  that it was not given are exactly as many as its dropped count says. The broker retains exactly the
  last \<^verbatim>\<open>capacity\<close> dead letters.
\<close>

theorem dead_letters_delivered:
  assumes "window_init capacity maximum = Inr w" "r = window_history broker_unsubscribe broker_dropped_count w ops"
    and "i < length (ew_objects (wr_window r))" "s = ew_objects (wr_window r) ! i"
  shows "subseq (wr_delivered r ! i) (published_between (wr_log r) (wr_starts r ! i) (nat (su_cursor s)))
    \<and> su_dropped s + int (length (wr_delivered r ! i)) = su_cursor s - int (wr_starts r ! i)
    \<and> su_cursor s \<le> int (length (wr_log r))
    \<and> map snd (ew_entries (wr_window r)) = drop (length (wr_log r) - nat (ew_capacity (wr_window r))) (wr_log r)"
  using dead_letters.history_ok [OF assms(1), of ops] window_inv_cursor assms(2-4)
  by (auto simp: history_inv_def delivery_ok_def window_inv_entries)

theorem dead_letters_delivered_witness:
  "(let r = window_history broker_unsubscribe broker_dropped_count sample_window
          [Publish 10, Subscribe, Publish 11, Publish 12, Publish 13, Poll 0]
    in wr_delivered r ! 0 = [12] \<and> su_dropped (ew_objects (wr_window r) ! 0) = 1
      \<and> subseq [12] (published_between (wr_log r) 1 3))"
proof -
  let ?r = "window_history broker_unsubscribe broker_dropped_count sample_window
    [Publish 10, Subscribe, Publish 11, Publish 12, Publish 13, Poll 0]"
  have "0 < length (ew_objects (wr_window ?r))" by code_simp
  note d = dead_letters_delivered [OF sample_window_init refl this refl]
  moreover have "wr_delivered ?r ! 0 = [12]" by code_simp
  moreover have "wr_starts ?r ! 0 = 1" by code_simp
  moreover have "nat (su_cursor (ew_objects (wr_window ?r) ! 0)) = 3" by code_simp
  moreover have "su_dropped (ew_objects (wr_window ?r) ! 0) = 1" by code_simp
  ultimately show ?thesis by (simp add: Let_def)
qed






end
