(* ===== verification/Effects.thy ===== *)
theory Effects
  imports Movie_Prelude
begin

text \<open>
  Operations that update the state of an object and may raise: state passing with an exception as an
  alternative to the value, so that what was changed before a raise stays changed. \<open>finally_do\<close> and
  \<open>attempt\<close> are \<^verbatim>\<open>try/finally\<close> and \<^verbatim>\<open>try/except\<close>. A Hoare-style predicate \<open>keeps\<close> for what every
  outcome of an action preserves carries the invariant proofs.
\<close>

type_synonym ('s, 'e, 'a) action = "'s \<Rightarrow> ('e + 'a) \<times> 's"

definition ret :: "'a \<Rightarrow> ('s, 'e, 'a) action" where
  "ret x s = (Inr x, s)"

definition raise :: "'e \<Rightarrow> ('s, 'e, 'a) action" where
  "raise e s = (Inl e, s)"

definition abind :: "('s, 'e, 'a) action \<Rightarrow> ('a \<Rightarrow> ('s, 'e, 'b) action) \<Rightarrow> ('s, 'e, 'b) action" where
  "abind m f s = (case m s of (Inl e, s') \<Rightarrow> (Inl e, s') | (Inr x, s') \<Rightarrow> f x s')"

definition modify :: "('s \<Rightarrow> 's) \<Rightarrow> ('s, 'e, unit) action" where
  "modify f s = (Inr (), f s)"

definition gets :: "('s \<Rightarrow> 'a) \<Rightarrow> ('s, 'e, 'a) action" where
  "gets f s = (Inr (f s), s)"

definition ensure :: "('s \<Rightarrow> bool) \<Rightarrow> 'e \<Rightarrow> ('s, 'e, unit) action" where
  "ensure p e s = (if p s then (Inr (), s) else (Inl e, s))"

definition lift_result :: "('f \<Rightarrow> 'e) \<Rightarrow> 'f + 'a \<Rightarrow> ('s, 'e, 'a) action" where
  "lift_result h r s = (case r of Inl f \<Rightarrow> (Inl (h f), s) | Inr x \<Rightarrow> (Inr x, s))"

text \<open>\<^verbatim>\<open>try: m finally: f\<close>: an exception of \<open>f\<close> replaces the outcome of \<open>m\<close>.\<close>

definition finally_do :: "('s, 'e, 'a) action \<Rightarrow> ('s, 'e, unit) action \<Rightarrow> ('s, 'e, 'a) action" where
  "finally_do m f s =
     (case m s of (r, s') \<Rightarrow> case f s' of (Inl e, s'') \<Rightarrow> (Inl e, s'') | (Inr _, s'') \<Rightarrow> (r, s''))"

definition attempt :: "('s, 'e, 'a) action \<Rightarrow> ('e \<Rightarrow> ('s, 'e, 'a) action) \<Rightarrow> ('s, 'e, 'a) action" where
  "attempt m h s = (case m s of (Inl e, s') \<Rightarrow> h e s' | (Inr x, s') \<Rightarrow> (Inr x, s'))"

fun for_each :: "('a \<Rightarrow> ('s, 'e, unit) action) \<Rightarrow> 'a list \<Rightarrow> ('s, 'e, unit) action" where
  "for_each f [] = ret ()"
| "for_each f (x # xs) = abind (f x) (\<lambda>_. for_each f xs)"

lemmas action_defs =
  ret_def raise_def abind_def modify_def gets_def ensure_def lift_result_def finally_do_def attempt_def

lemma abind_Inr: "abind m f s = (Inr y, s') \<longleftrightarrow> (\<exists>x t. m s = (Inr x, t) \<and> f x t = (Inr y, s'))"
  by (auto simp: abind_def split: prod.splits sum.splits)

lemma abind_simps [simp]:
  "m s = (Inr x, t) \<Longrightarrow> abind m f s = f x t" "m s = (Inl e, t) \<Longrightarrow> abind m f s = (Inl e, t)"
  by (simp_all add: abind_def)

section \<open>What every outcome keeps\<close>

named_theorems keeps_intros \<open>composition rules of the predicate keeps\<close>

definition keeps :: "('s \<Rightarrow> bool) \<Rightarrow> ('s, 'e, 'a) action \<Rightarrow> bool" where
  "keeps P m \<longleftrightarrow> (\<forall>s. P s \<longrightarrow> P (snd (m s)))"

lemma keepsD: "keeps P m \<Longrightarrow> P s \<Longrightarrow> m s = (r, s') \<Longrightarrow> P s'"
  unfolding keeps_def by (metis snd_conv)

lemma keeps_ret [keeps_intros]: "keeps P (ret x)"
  by (simp add: keeps_def ret_def)

lemma keeps_raise [keeps_intros]: "keeps P (raise e)"
  by (simp add: keeps_def raise_def)

lemma keeps_gets [keeps_intros]: "keeps P (gets f)"
  by (simp add: keeps_def gets_def)

lemma keeps_ensure [keeps_intros]: "keeps P (ensure p e)"
  by (simp add: keeps_def ensure_def)

lemma keeps_lift [keeps_intros]: "keeps P (lift_result h r)"
  by (simp add: keeps_def lift_result_def split: sum.splits)

lemma keeps_modify [keeps_intros]: "(\<And>s. P s \<Longrightarrow> P (f s)) \<Longrightarrow> keeps P (modify f)"
  by (simp add: keeps_def modify_def)

lemma keeps_abind [keeps_intros]: "keeps P m \<Longrightarrow> (\<And>x. keeps P (f x)) \<Longrightarrow> keeps P (abind m f)"
  by (auto simp: keeps_def abind_def split: prod.splits sum.splits)

lemma keeps_finally [keeps_intros]: "keeps P m \<Longrightarrow> keeps P f \<Longrightarrow> keeps P (finally_do m f)"
  by (auto simp: keeps_def finally_do_def split: prod.splits sum.splits)

lemma keeps_attempt [keeps_intros]: "keeps P m \<Longrightarrow> (\<And>e. keeps P (h e)) \<Longrightarrow> keeps P (attempt m h)"
  by (auto simp: keeps_def attempt_def split: prod.splits sum.splits)

lemma keeps_if [keeps_intros]: "keeps P m \<Longrightarrow> keeps P m' \<Longrightarrow> keeps P (if b then m else m')"
  by simp

lemma keeps_for_each [keeps_intros]: "(\<And>x. x \<in> set xs \<Longrightarrow> keeps P (f x)) \<Longrightarrow> keeps P (for_each f xs)"
  by (induction xs) (auto intro!: keeps_intros)

section \<open>What no outcome changes\<close>

named_theorems preserves_intros \<open>composition rules of the predicate preserves\<close>

definition preserves :: "('s \<Rightarrow> 'x) \<Rightarrow> ('s, 'e, 'a) action \<Rightarrow> bool" where
  "preserves f m \<longleftrightarrow> (\<forall>s. f (snd (m s)) = f s)"

lemma preservesD: "preserves f m \<Longrightarrow> m s = (r, s') \<Longrightarrow> f s' = f s"
  unfolding preserves_def by (metis snd_conv)

lemma preserves_pure [preserves_intros]:
  "preserves f (ret x)" "preserves f (raise e)" "preserves f (gets g)" "preserves f (ensure p e)"
  "preserves f (lift_result h r)"
  by (simp_all add: preserves_def action_defs split: sum.splits)

lemma preserves_modify [preserves_intros]: "(\<And>s. f (g s) = f s) \<Longrightarrow> preserves f (modify g)"
  by (simp add: preserves_def modify_def)

lemma preserves_abind [preserves_intros]:
  "preserves f m \<Longrightarrow> (\<And>x. preserves f (k x)) \<Longrightarrow> preserves f (abind m k)"
  unfolding preserves_def abind_def by (auto split: prod.splits sum.splits) (metis snd_conv)+

lemma preserves_finally [preserves_intros]:
  "preserves f m \<Longrightarrow> preserves f k \<Longrightarrow> preserves f (finally_do m k)"
  unfolding preserves_def finally_do_def by (auto split: prod.splits sum.splits) (metis snd_conv)+

lemma preserves_attempt [preserves_intros]:
  "preserves f m \<Longrightarrow> (\<And>e. preserves f (h e)) \<Longrightarrow> preserves f (attempt m h)"
  unfolding preserves_def attempt_def by (auto split: prod.splits sum.splits) (metis snd_conv)+

lemma preserves_if [preserves_intros]:
  "(b \<Longrightarrow> preserves f m) \<Longrightarrow> (\<not> b \<Longrightarrow> preserves f m') \<Longrightarrow> preserves f (if b then m else m')"
  by simp

lemma preserves_option [preserves_intros]:
  "preserves f m \<Longrightarrow> (\<And>x. preserves f (k x)) \<Longrightarrow> preserves f (case o' of None \<Rightarrow> m | Some x \<Rightarrow> k x)"
  by (cases o') simp_all

lemma preserves_pair [preserves_intros]:
  "(\<And>x y. preserves f (k x y)) \<Longrightarrow> preserves f (case p of (x, y) \<Rightarrow> k x y)"
  by (cases p) simp

lemma preserves_Let [preserves_intros]: "(\<And>x. preserves f (k x)) \<Longrightarrow> preserves f (Let v k)"
  by simp

lemma preserves_keeps: "preserves f m \<Longrightarrow> keeps (\<lambda>s. P (f s)) m"
  by (simp add: preserves_def keeps_def)

end
