(* ===== verification/Decimal.thy ===== *)
theory Decimal
  imports Utf8
begin

text \<open>Decimal numerals as \<^verbatim>\<open>str(int)\<close> and f-strings print them, and as \<^verbatim>\<open>int(str)\<close> reads them.\<close>

function dec_nat :: "nat \<Rightarrow> pystr" where
  "dec_nat n = (if n < 10 then [48 + n] else dec_nat (n div 10) @ [48 + n mod 10])"
  by pat_completeness auto
termination
  by (relation "measure id") auto

declare dec_nat.simps [simp del]

definition dec :: "int \<Rightarrow> pystr" where
  "dec k = (if k < 0 then 45 # dec_nat (nat (- k)) else dec_nat (nat k))"

definition is_digit :: "nat \<Rightarrow> bool" where
  "is_digit c \<longleftrightarrow> 48 \<le> c \<and> c \<le> 57"

fun undec_from :: "nat \<Rightarrow> pystr \<Rightarrow> nat" where
  "undec_from n [] = n"
| "undec_from n (c # cs) = undec_from (10 * n + (c - 48)) cs"

definition undec :: "pystr \<Rightarrow> nat" where
  "undec s = undec_from 0 s"

lemma undec_from_append: "undec_from n (s @ t) = undec_from (undec_from n s) t"
  by (induction s arbitrary: n) simp_all

lemma undec_dec_nat: "undec (dec_nat n) = n"
  unfolding undec_def
proof (induction n rule: dec_nat.induct)
  case (1 n)
  then show ?case by (cases "n < 10") (simp_all add: dec_nat.simps [of n] undec_from_append)
qed

lemma dec_nat_inject: "dec_nat m = dec_nat n \<longleftrightarrow> m = n"
  by (metis undec_dec_nat)

lemma dec_nat_digits: "list_all is_digit (dec_nat n)"
proof (induction n rule: dec_nat.induct)
  case (1 n)
  then show ?case by (cases "n < 10") (simp_all add: dec_nat.simps [of n] is_digit_def)
qed

lemma dec_nat_not_Nil [simp]: "dec_nat n \<noteq> []"
  by (simp add: dec_nat.simps [of n])

lemma dec_nat_leading: "hd (dec_nat n) = 48 \<longleftrightarrow> n = 0"
proof (induction n rule: dec_nat.induct)
  case (1 n)
  then show ?case by (cases "n < 10") (auto simp: dec_nat.simps [of n] hd_append)
qed

lemma dec_nonneg: "0 \<le> k \<Longrightarrow> dec k = dec_nat (nat k)"
  by (simp add: dec_def)

end
