(* ===== verification/Association.thy ===== *)
theory Association
  imports Effects Decimal Tcp_Connection
begin

text \<open>
  The state of \<^verbatim>\<open>Association\<close> (\<^verbatim>\<open>movie/remoting/association.py\<close>) and its operations: the handshake, sending
  and resolving, handling what arrives on an active association, and closing. An association drives a
  \<^verbatim>\<open>TcpConnection\<close>; what it asks of the runtime is recorded in \<open>as_calls\<close>, and the answers of the actor
  system (\<^verbatim>\<open>_admit_remote_message\<close>, \<^verbatim>\<open>_resolve_local_path\<close>) are functions of the calls made so far.
  Exceptions carry no message in the model; \<open>en_exn_text\<close> stands for \<^verbatim>\<open>str(error)\<close>.
\<close>

section \<open>Identities, reasons and configuration\<close>

record actor_identity =
  ai_system_incarnation_uid :: uuid
  ai_actor_uid :: uuid

definition actor_identity_init :: "uuid \<Rightarrow> uuid \<Rightarrow> actor_identity result" where
  "actor_identity_init incarnation actor =
     rbind (guard (incarnation \<noteq> 0) ValueError) (\<lambda>_.
     rbind (guard (actor \<noteq> 0) ValueError) (\<lambda>_.
       Inr \<lparr>ai_system_incarnation_uid = incarnation, ai_actor_uid = actor\<rparr>))"

datatype dead_letter_reason =
    DL_NO_ASSOCIATION | DL_STALE_INCARNATION | DL_ACTOR_NOT_FOUND | DL_ACTOR_STOPPING
  | DL_MAILBOX_FULL | DL_DESERIALIZATION_REJECTED

datatype admission_result = AR_ACCEPTED | AR_ACTOR_NOT_FOUND | AR_ACTOR_STOPPING | AR_MAILBOX_FULL

primrec admission_name :: "admission_result \<Rightarrow> pystr" where
  "admission_name AR_ACCEPTED = str ''ACCEPTED''"
| "admission_name AR_ACTOR_NOT_FOUND = str ''ACTOR_NOT_FOUND''"
| "admission_name AR_ACTOR_STOPPING = str ''ACTOR_STOPPING''"
| "admission_name AR_MAILBOX_FULL = str ''MAILBOX_FULL''"

definition admission_dead_letter_reason :: "admission_result \<Rightarrow> dead_letter_reason result" where
  "admission_dead_letter_reason r =
     (case r of
        AR_ACTOR_NOT_FOUND \<Rightarrow> Inr DL_ACTOR_NOT_FOUND
      | AR_ACTOR_STOPPING \<Rightarrow> Inr DL_ACTOR_STOPPING
      | AR_MAILBOX_FULL \<Rightarrow> Inr DL_MAILBOX_FULL
      | AR_ACCEPTED \<Rightarrow> Inl ValueError)"

record ('t, 'v) remoting_config =
  rc_local :: endpoint
  rc_peers :: "(pystr \<times> endpoint) list"
  rc_serializers :: "('t, 'v) serializer_registry"
  rc_limits :: transport_limits
  rc_lane_count :: int
  rc_pending_association_limit :: int
  rc_association_history_limit :: int

section \<open>State\<close>

datatype association_state = AS_HANDSHAKING | AS_ACTIVE | AS_CLOSING | AS_CLOSED

datatype failure =
    HandshakeFailure reason_code pystr bool
  | ProtocolFailure reason_code pystr
  | Raised exn

record association_metrics =
  am_accepted_delivery_attempts :: int
  am_rejected_delivery_attempts :: int
  am_dead_letter_count :: int
  am_serialization_rejections :: int
  am_deserialization_rejections :: int
  am_sequence_violations :: int

datatype metric = M_accepted | M_rejected | M_dead_letter | M_serialization | M_deserialization | M_sequence

record delivery_metadata =
  dm_association_uid :: uuid
  dm_lane_id :: int
  dm_lane_sequence :: int
  dm_serializer_id :: "int option"
  dm_manifest :: "pystr option"
  dm_payload_byte_length :: "int option"

datatype 'v runtime_call =
    RecordMetrics "(metric \<times> int) list"
  | PublishDeadLetter actor_identity dead_letter_reason delivery_metadata
  | AdmitRemoteMessage actor_identity 'v delivery_metadata admission_result
  | AssociationClosed

text \<open>
  A \<^verbatim>\<open>_PendingResolve\<close> object is shared by the dictionary and the waiting caller: it is a ticket, and
  \<open>as_completed\<close> holds what completed it.
\<close>

record pending_resolve =
  pe_ticket :: nat
  pe_path :: pystr

record 'v association =
  as_initiator :: bool
  as_expected_system_name :: "pystr option"
  as_expected_endpoint :: "endpoint option"
  as_connection :: tcp_connection
  as_state :: association_state
  as_close_reason :: "reason_code option"
  as_close_detail :: "pystr option"
  as_handshake_error :: "pystr option"
  as_stop_requested :: bool
  as_peer_system_name :: "pystr option"
  as_peer_incarnation_uid :: "uuid option"
  as_peer_endpoint :: "endpoint option"
  as_accept :: "hello_accept option"
  as_lane_count :: "int option"
  as_outbound_message_limit :: "int option"
  as_outbound_byte_limit :: "int option"
  as_inbound_message_limit :: "int option"
  as_inbound_byte_limit :: "int option"
  as_send_routes :: "(int \<times> serializer_route) list"
  as_receive_routes :: "(int \<times> serializer_route) list"
  as_serializer_minors :: "(int \<times> int) list"
  as_outbound_sequences :: "int list"
  as_inbound_sequences :: "int list"
  as_violations_by_lane :: "int list"
  as_deferred_records :: "transport_record list"
  as_deferred_bytes :: int
  as_pending :: "(int \<times> pending_resolve) list"
  as_completed :: "(nat \<times> (pystr + frame)) list"
  as_next_ticket :: nat
  as_inbound_requests :: "int list"
  as_next_correlation_id :: int
  as_metrics :: association_metrics
  as_reconnect_count :: int
  as_counts_as_reconnect :: bool
  as_registration_order :: int
  as_closed_notified :: bool
  as_calls :: "'v runtime_call list"

text \<open>A dictionary comprehension: a key that occurs again replaces the earlier entry.\<close>

definition dict_of :: "('k \<times> 'x) list \<Rightarrow> ('k \<times> 'x) list" where
  "dict_of items = foldl (\<lambda>d (k, x). AList.update k x d) [] items"

lemma dict_of_distinct: "distinct (map fst items) \<Longrightarrow> dict_of items = items"
proof -
  have "foldl (\<lambda>d (k, x). AList.update k x d) d items = d @ items"
    if "distinct (map fst (d @ items))" for d
    using that
  proof (induction items arbitrary: d)
    case (Cons item items)
    obtain k x where item: "item = (k, x)" by (cases item)
    have "AList.update k x d = d @ [(k, x)]"
      using Cons.prems by (induction d) (auto simp: item)
    then show ?case using Cons.IH [of "d @ [(k, x)]"] Cons.prems by (simp add: item)
  qed simp
  then show "distinct (map fst items) \<Longrightarrow> dict_of items = items" by (simp add: dict_of_def)
qed

text \<open>The runtime as an association sees it.\<close>

record ('t, 'v) association_env =
  en_nfc :: normalized
  en_exn_text :: "exn \<Rightarrow> pystr"
  en_type_of :: "'v \<Rightarrow> 't"
  en_system_name :: pystr
  en_incarnation_uid :: uuid
  en_endpoint :: endpoint
  en_config :: "('t, 'v) remoting_config"
  en_admit :: "'v runtime_call list \<Rightarrow> actor_identity \<Rightarrow> 'v \<Rightarrow> admission_result"
  en_resolve_local :: "'v runtime_call list \<Rightarrow> pystr \<Rightarrow> admission_result \<times> (uuid \<times> pystr) option"

type_synonym ('v, 'a) association_action = "('v association, failure, 'a) action"

text \<open>\<open>random_bits\<close> is the value of \<^verbatim>\<open>secrets.randbits(64)\<close>.\<close>

definition association_init ::
  "tcp_connection \<Rightarrow> bool \<Rightarrow> pystr option \<Rightarrow> endpoint option \<Rightarrow> int \<Rightarrow> 'v association"
where
  "association_init connection initiator expected_system_name expected_endpoint random_bits =
     \<lparr>as_initiator = initiator, as_expected_system_name = expected_system_name,
      as_expected_endpoint = expected_endpoint, as_connection = connection,
      as_state = AS_HANDSHAKING, as_close_reason = None, as_close_detail = None,
      as_handshake_error = None, as_stop_requested = False, as_peer_system_name = None,
      as_peer_incarnation_uid = None, as_peer_endpoint = None, as_accept = None,
      as_lane_count = None, as_outbound_message_limit = None, as_outbound_byte_limit = None,
      as_inbound_message_limit = None, as_inbound_byte_limit = None, as_send_routes = [],
      as_receive_routes = [], as_serializer_minors = [], as_outbound_sequences = [],
      as_inbound_sequences = [], as_violations_by_lane = [], as_deferred_records = [],
      as_deferred_bytes = 0, as_pending = [], as_completed = [], as_next_ticket = 0,
      as_inbound_requests = [], as_next_correlation_id = (if random_bits = 0 then 1 else random_bits),
      as_metrics = \<lparr>am_accepted_delivery_attempts = 0, am_rejected_delivery_attempts = 0,
        am_dead_letter_count = 0, am_serialization_rejections = 0,
        am_deserialization_rejections = 0, am_sequence_violations = 0\<rparr>,
      as_reconnect_count = 0, as_counts_as_reconnect = False, as_registration_order = 0,
      as_closed_notified = False, as_calls = []\<rparr>"

definition as_uid :: "'v association \<Rightarrow> uuid" where
  "as_uid a = tc_association_uid (as_connection a)"

definition as_maximum_frame_bytes :: "'v association \<Rightarrow> int" where
  "as_maximum_frame_bytes a =
     (case as_accept a of Some accept \<Rightarrow> a_maximum_frame_bytes accept | None \<Rightarrow> BOOTSTRAP_MAX_FRAME_BYTES)"

text \<open>\<^verbatim>\<open>a or b\<close> on optional strings: \<^verbatim>\<open>None\<close> and the empty string are false.\<close>

definition or_else :: "pystr option \<Rightarrow> pystr option \<Rightarrow> pystr option" where
  "or_else a b = (case a of Some (c # cs) \<Rightarrow> Some (c # cs) | _ \<Rightarrow> b)"

definition target_system_name :: "'v association \<Rightarrow> pystr option" where
  "target_system_name a = or_else (as_peer_system_name a) (as_expected_system_name a)"

section \<open>Counters\<close>

fun add_metric :: "metric \<times> int \<Rightarrow> association_metrics \<Rightarrow> association_metrics" where
  "add_metric (M_accepted, n) m = m\<lparr>am_accepted_delivery_attempts := am_accepted_delivery_attempts m + n\<rparr>"
| "add_metric (M_rejected, n) m = m\<lparr>am_rejected_delivery_attempts := am_rejected_delivery_attempts m + n\<rparr>"
| "add_metric (M_dead_letter, n) m = m\<lparr>am_dead_letter_count := am_dead_letter_count m + n\<rparr>"
| "add_metric (M_serialization, n) m = m\<lparr>am_serialization_rejections := am_serialization_rejections m + n\<rparr>"
| "add_metric (M_deserialization, n) m =
     m\<lparr>am_deserialization_rejections := am_deserialization_rejections m + n\<rparr>"
| "add_metric (M_sequence, n) m = m\<lparr>am_sequence_violations := am_sequence_violations m + n\<rparr>"

definition as_call :: "'v runtime_call \<Rightarrow> 'v association \<Rightarrow> 'v association" where
  "as_call call a = a\<lparr>as_calls := as_calls a @ [call]\<rparr>"

definition increment_many :: "bool \<Rightarrow> (metric \<times> int) list \<Rightarrow> 'v association \<Rightarrow> 'v association" where
  "increment_many cumulative increments a =
     (let a' = a\<lparr>as_metrics := fold add_metric increments (as_metrics a)\<rparr> in
      if cumulative then as_call (RecordMetrics increments) a' else a')"

definition increment_sequence_violation :: "int \<Rightarrow> 'v association \<Rightarrow> 'v association" where
  "increment_sequence_violation lane_id a =
     (let i = nat lane_id in
      as_call (RecordMetrics [(M_sequence, 1)])
        (a\<lparr>as_metrics := add_metric (M_sequence, 1) (as_metrics a),
           as_violations_by_lane := (as_violations_by_lane a)[i := as_violations_by_lane a ! i + 1]\<rparr>))"

section \<open>Sending frames\<close>

definition on_connection ::
  "(tcp_connection \<Rightarrow> tcp_connection result) \<Rightarrow> ('v, unit) association_action"
where
  "on_connection f a =
     (case f (as_connection a) of
        Inl e \<Rightarrow> (Inl (Raised e), a)
      | Inr c \<Rightarrow> (Inr (), a\<lparr>as_connection := c\<rparr>))"

abbreviation (input) control_channel_of :: logical_channel where
  "control_channel_of \<equiv> \<lparr>ch_kind = CONTROL, ch_lane_id = CONTROL_LANE_ID\<rparr>"

text \<open>
  \<^verbatim>\<open>TcpConnection\<close> has \<^verbatim>\<open>send_active\<close>, so \<^verbatim>\<open>_send_payload_locked\<close> calls it; \<^verbatim>\<open>send\<close> validates against the limit
  the connection has at that moment.
\<close>

definition send_payload_locked :: "transport_record \<Rightarrow> ('v, unit) association_action" where
  "send_payload_locked r =
     abind (gets (\<lambda>a. as_outbound_message_limit a \<noteq> None \<and> as_outbound_byte_limit a \<noteq> None)) (\<lambda>ok.
     if ok then on_connection (tcp_send_active r) else raise (Raised AssertionError))"

definition connection_send :: "transport_record \<Rightarrow> ('v, unit) association_action" where
  "connection_send r = on_connection (\<lambda>c. tcp_send (tc_maximum_record_bytes c) r c)"

definition send_frame ::
  "('t, 'v) association_env \<Rightarrow> frame \<Rightarrow> bool \<Rightarrow> bool \<Rightarrow> ('v, unit) association_action"
where
  "send_frame env f bootstrap enforce_effective =
     (let kind = (case f of UserMessage _ \<Rightarrow> DELIVERY_LANE | _ \<Rightarrow> CONTROL);
          lane_id = (case f of UserMessage m \<Rightarrow> um_lane_id m | _ \<Rightarrow> CONTROL_LANE_ID) in
      abind (gets (\<lambda>a. if bootstrap then BOOTSTRAP_MAX_FRAME_BYTES else as_maximum_frame_bytes a)) (\<lambda>maximum.
      abind (lift_result Raised (encode_frame (en_nfc env) f maximum (Some kind))) (\<lambda>payload.
      abind (lift_result Raised (logical_channel_init kind lane_id)) (\<lambda>channel.
      abind (gets (\<lambda>a. enforce_effective \<and> as_outbound_message_limit a \<noteq> None)) (\<lambda>active.
        if active then send_payload_locked \<lparr>tr_channel = channel, tr_payload = payload\<rparr>
        else connection_send \<lparr>tr_channel = channel, tr_payload = payload\<rparr>)))))"

text \<open>\<^verbatim>\<open>try: ... except Exception: pass\<close>\<close>

definition best_effort :: "('v, unit) association_action \<Rightarrow> ('v, unit) association_action" where
  "best_effort m = attempt m (\<lambda>_. ret ())"

definition send_bootstrap_best_effort ::
  "('t, 'v) association_env \<Rightarrow> frame \<Rightarrow> ('v, unit) association_action"
where
  "send_bootstrap_best_effort env f = best_effort (send_frame env f True False)"

definition send_control_best_effort ::
  "('t, 'v) association_env \<Rightarrow> frame \<Rightarrow> ('v, unit) association_action"
where
  "send_control_best_effort env f = best_effort (send_frame env f False True)"

definition send_terminal ::
  "('t, 'v) association_env \<Rightarrow> frame \<Rightarrow> ('v, unit) association_action"
where
  "send_terminal env f =
     abind (gets as_maximum_frame_bytes) (\<lambda>maximum.
     abind (lift_result Raised (encode_frame (en_nfc env) f maximum (Some CONTROL))) (\<lambda>payload.
       on_connection (\<lambda>c. tcp_send_terminal (tc_maximum_record_bytes c)
         \<lparr>tr_channel = control_channel_of, tr_payload = payload\<rparr> c)))"

definition send_terminal_best_effort ::
  "('t, 'v) association_env \<Rightarrow> reason_code \<Rightarrow> pystr \<Rightarrow> ('v, unit) association_action"
where
  "send_terminal_best_effort env reason detail =
     attempt (send_terminal env (GoAway reason detail 0)) (\<lambda>e.
       if e = Raised FrameTooLargeError \<and> detail \<noteq> []
       then best_effort (send_terminal env (GoAway reason [] 0))
       else ret ())"

section \<open>Closing\<close>

definition transition_to_closing_locked :: "pystr \<Rightarrow> 'v association \<Rightarrow> 'v association" where
  "transition_to_closing_locked detail a =
     a\<lparr>as_state := AS_CLOSING,
       as_handshake_error := (if as_state a = AS_HANDSHAKING \<and> as_handshake_error a = None
                              then Some detail else as_handshake_error a)\<rparr>"

definition request_close ::
  "('t, 'v) association_env \<Rightarrow> reason_code \<Rightarrow> pystr \<Rightarrow> bool \<Rightarrow> ('v, unit) association_action"
where
  "request_close env reason detail notify_peer =
     abind (gets (\<lambda>a. as_state a \<in> {AS_CLOSING, AS_CLOSED})) (\<lambda>closing.
     if closing then ret ()
     else abind (modify (\<lambda>a. transition_to_closing_locked detail
                   (a\<lparr>as_close_reason := Some reason, as_close_detail := Some detail\<rparr>))) (\<lambda>_.
       abind (if notify_peer then send_terminal_best_effort env reason detail else ret ()) (\<lambda>_.
         modify (\<lambda>a. a\<lparr>as_stop_requested := True\<rparr>))))"

definition set_close_reason :: "reason_code option \<Rightarrow> pystr \<Rightarrow> 'v association \<Rightarrow> 'v association" where
  "set_close_reason reason detail a =
     (let a = (if as_close_detail a = None
               then a\<lparr>as_close_reason := reason, as_close_detail := Some detail\<rparr> else a);
          a = (if as_state a \<noteq> AS_CLOSED then transition_to_closing_locked detail a else a) in
      a\<lparr>as_stop_requested := True\<rparr>)"

text \<open>Every pending resolution is completed with the detail; then the runtime is told, once.\<close>

definition mark_closed :: "'v association \<Rightarrow> 'v association" where
  "mark_closed a =
     (if as_closed_notified a then a
      else let detail = the (or_else (as_close_detail a) (Some (str ''association closed''))) in
        as_call AssociationClosed
          (a\<lparr>as_closed_notified := True, as_pending := [],
             as_completed := as_completed a @ map (\<lambda>(_, p). (pe_ticket p, Inl detail)) (as_pending a),
             as_handshake_error := (if as_state a = AS_HANDSHAKING \<and> as_handshake_error a = None
               then or_else (as_close_detail a) (Some (str ''association closed during handshake''))
               else as_handshake_error a),
             as_state := AS_CLOSED\<rparr>))"

definition require_active :: "uuid option \<Rightarrow> ('v, unit) association_action" where
  "require_active expected =
     abind (ensure (\<lambda>a. as_state a = AS_ACTIVE) (Raised NoAssociationError)) (\<lambda>_.
       ensure (\<lambda>a. expected = None \<or> as_peer_incarnation_uid a = expected) (Raised NoAssociationError))"

end
