(* ===== verification/Handshake.thy ===== *)
theory Handshake
  imports Association
begin

text \<open>
  The handshake of \<^verbatim>\<open>Association\<close>: \<^verbatim>\<open>_handshake\<close> and what it calls, split where it waits for a record. A
  peer sends its \<^verbatim>\<open>HELLO\<close> (the initiator at once, the responder after reading the initiator's), derives
  the negotiated values from both, sends them as \<^verbatim>\<open>HELLO_ACCEPT\<close>, and activates the connection when the
  peer's \<^verbatim>\<open>HELLO_ACCEPT\<close> is the same value. Timeouts are the event \<open>handshake_timed_out\<close>.
\<close>

section \<open>Operations\<close>

definition local_hello :: "('t, 'v) association_env \<Rightarrow> 'v association \<Rightarrow> association_role \<Rightarrow> hello" where
  "local_hello env a role =
     (let limits = rc_limits (en_config env) in
      \<lparr>h_protocol_major = PROTOCOL_MAJOR, h_protocol_minor = PROTOCOL_MINOR, h_role = role,
       h_system_name = en_system_name env, h_system_incarnation_uid = en_incarnation_uid env,
       h_association_uid = as_uid a, h_endpoint_host = ep_host (en_endpoint env),
       h_endpoint_port = ep_port (en_endpoint env),
       h_maximum_frame_bytes = tl_maximum_record_bytes limits,
       h_lane_count = rc_lane_count (en_config env),
       h_outbound_message_limit = tl_outbound_message_limit limits,
       h_outbound_byte_limit = tl_outbound_byte_limit limits,
       h_inbound_message_limit = tl_inbound_message_limit limits,
       h_inbound_byte_limit = tl_inbound_byte_limit limits,
       h_serializers = registry_descriptors (rc_serializers (en_config env)),
       h_capabilities = [], h_correlation_id = 0\<rparr>)"

definition local_role :: "'v association \<Rightarrow> association_role" where
  "local_role a = (if as_initiator a then INITIATOR else RESPONDER)"

primrec frame_class_name :: "frame \<Rightarrow> pystr" where
  "frame_class_name (Hello _) = str ''Hello''"
| "frame_class_name (HelloAccept _) = str ''HelloAccept''"
| "frame_class_name (GoAway _ _ _) = str ''GoAway''"
| "frame_class_name (HelloReject _ _ _) = str ''HelloReject''"
| "frame_class_name (ResolveRequest _ _ _) = str ''ResolveRequest''"
| "frame_class_name (ResolveResponse _ _ _ _) = str ''ResolveResponse''"
| "frame_class_name (ResolveRejected _ _ _) = str ''ResolveRejected''"
| "frame_class_name (UserMessage _) = str ''UserMessage''"
| "frame_class_name (RecipientUnavailable _) = str ''RecipientUnavailable''"
| "frame_class_name (DeserializationRejected _) = str ''DeserializationRejected''"

abbreviation (input) handshake_violation :: "string \<Rightarrow> failure" where
  "handshake_violation detail \<equiv> HandshakeFailure RC_PROTOCOL_VIOLATION (str detail) True"

definition handshake_timed_out :: failure where
  "handshake_timed_out = handshake_violation ''handshake timed out''"

definition defer_delivery_record :: "transport_record \<Rightarrow> ('v, unit) association_action" where
  "defer_delivery_record r =
     abind (gets (\<lambda>a. (as_inbound_message_limit a, as_inbound_byte_limit a))) (\<lambda>limits.
     case limits of
       (Some message_limit, Some byte_limit) \<Rightarrow>
         abind (ensure (\<lambda>a. \<not> (int (length (as_deferred_records a)) \<ge> message_limit
                        \<or> as_deferred_bytes a + record_size r > byte_limit))
                  (Raised TransportFlowControlError)) (\<lambda>_.
           modify (\<lambda>a. a\<lparr>as_deferred_records := as_deferred_records a @ [r],
                         as_deferred_bytes := as_deferred_bytes a + record_size r\<rparr>))
     | _ \<Rightarrow> raise (Raised AssertionError))"

text \<open>One record of \<^verbatim>\<open>_receive_handshake_frame\<close>; \<open>None\<close> when it was deferred and the loop goes on.\<close>

definition decode_handshake_record ::
  "('t, 'v) association_env \<Rightarrow> transport_record \<Rightarrow> ('v, frame) association_action"
where
  "decode_handshake_record env r =
     lift_result (\<lambda>e.
         if e = UnsupportedFrameError
         then HandshakeFailure RC_UNSUPPORTED_FRAME (en_exn_text env e) True
         else if e = UnsupportedHeaderVersionError
         then HandshakeFailure RC_INCOMPATIBLE_VERSION (en_exn_text env e) True
         else if is_wire_codec_error e
         then HandshakeFailure RC_PROTOCOL_VIOLATION (en_exn_text env e) True
         else Raised e)
       (decode_frame (en_nfc env) (tr_payload r) BOOTSTRAP_MAX_FRAME_BYTES
          (Some (ch_kind (tr_channel r))))"

definition receive_handshake_record ::
  "('t, 'v) association_env \<Rightarrow> bool \<Rightarrow> transport_record \<Rightarrow> ('v, frame option) association_action"
where
  "receive_handshake_record env defer_delivery r =
     abind (decode_handshake_record env r) (\<lambda>f.
     case f of
       UserMessage _ \<Rightarrow> if defer_delivery then abind (defer_delivery_record r) (\<lambda>_. ret None) else ret (Some f)
     | _ \<Rightarrow> ret (Some f))"

definition hello_of_frame :: "frame \<Rightarrow> ('v, hello) association_action" where
  "hello_of_frame f =
     (case f of
        Hello h \<Rightarrow> ret h
      | HelloReject reason detail _ \<Rightarrow> raise (HandshakeFailure reason detail False)
      | _ \<Rightarrow> raise (HandshakeFailure RC_PROTOCOL_VIOLATION
                (str ''expected HELLO, got '' @ frame_class_name f) True))"

definition expected_role :: "association_role \<Rightarrow> association_role" where
  "expected_role role = (if role = INITIATOR then RESPONDER else INITIATOR)"

definition validate_peer_hello ::
  "('t, 'v) association_env \<Rightarrow> hello \<Rightarrow> association_role \<Rightarrow> ('v, unit) association_action"
where
  "validate_peer_hello env hello role =
     abind (ensure (\<lambda>_. h_protocol_major hello = PROTOCOL_MAJOR)
              (HandshakeFailure RC_INCOMPATIBLE_VERSION
                (str ''protocol major '' @ dec (h_protocol_major hello) @ str '' is incompatible with ''
                 @ dec PROTOCOL_MAJOR) True)) (\<lambda>_.
     abind (ensure (\<lambda>_. h_role hello = expected_role role)
              (handshake_violation ''peer HELLO has the wrong association role'')) (\<lambda>_.
     abind (ensure (\<lambda>a. h_association_uid hello = as_uid a)
              (handshake_violation ''peer HELLO association UID does not match the transport'')) (\<lambda>_.
     abind (ensure (\<lambda>_. h_system_incarnation_uid hello \<noteq> en_incarnation_uid env)
              (handshake_violation ''peer and local incarnation UIDs must differ'')) (\<lambda>_.
     abind (ensure (\<lambda>_. \<not> list_ex (\<lambda>v. v \<le> 0)
               [h_maximum_frame_bytes hello, h_lane_count hello, h_outbound_message_limit hello,
                h_outbound_byte_limit hello, h_inbound_message_limit hello, h_inbound_byte_limit hello])
              (handshake_violation ''peer HELLO limits must be positive'')) (\<lambda>_.
     abind (ensure (\<lambda>_. \<not> h_maximum_frame_bytes hello < MINIMUM_GOAWAY_FRAME_BYTES)
              (handshake_violation ''peer maximum frame bytes cannot encode the minimum GOAWAY frame'')) (\<lambda>_.
     abind (lift_result (\<lambda>_. HandshakeFailure RC_SYSTEM_NAME_MISMATCH
                (str ''peer advertised an invalid endpoint'') True)
              (endpoint_init (h_endpoint_host hello) (h_endpoint_port hello))) (\<lambda>endpoint.
     abind (ensure (\<lambda>a. map_of (rc_peers (en_config env)) (h_system_name hello) = Some endpoint
                \<and> as_expected_system_name a \<in> {None, Some (h_system_name hello)}
                \<and> as_expected_endpoint a \<in> {None, Some endpoint})
              (HandshakeFailure RC_SYSTEM_NAME_MISMATCH
                (str ''peer actor-system name or advertised endpoint is not allowlisted'') True)) (\<lambda>_.
       modify (\<lambda>a. a\<lparr>as_peer_system_name := Some (h_system_name hello),
                     as_peer_incarnation_uid := Some (h_system_incarnation_uid hello),
                     as_peer_endpoint := Some endpoint\<rparr>)))))))))"

definition accept_of ::
  "bool \<Rightarrow> uuid \<Rightarrow> hello \<Rightarrow> hello \<Rightarrow> serializer_route list \<Rightarrow> pystr list \<Rightarrow> hello_accept"
where
  "accept_of initiating uid local peer routes capabilities =
     (let initiator = (if initiating then local else peer);
          responder = (if initiating then peer else local) in
      \<lparr>a_association_uid = uid,
       a_protocol_minor = min (h_protocol_minor local) (h_protocol_minor peer),
       a_maximum_frame_bytes = min (h_maximum_frame_bytes local) (h_maximum_frame_bytes peer),
       a_lane_count = min (h_lane_count local) (h_lane_count peer),
       a_outbound_message_limit = min (h_outbound_message_limit initiator) (h_inbound_message_limit responder),
       a_outbound_byte_limit = min (h_outbound_byte_limit initiator) (h_inbound_byte_limit responder),
       a_inbound_message_limit = min (h_outbound_message_limit responder) (h_inbound_message_limit initiator),
       a_inbound_byte_limit = min (h_outbound_byte_limit responder) (h_inbound_byte_limit initiator),
       a_serializer_routes = routes, a_capabilities = capabilities, a_correlation_id = 0\<rparr>)"

definition derive_accept ::
  "('t, 'v) association_env \<Rightarrow> hello \<Rightarrow> hello \<Rightarrow> ('v, hello_accept) association_action"
where
  "derive_accept env local peer =
     abind (lift_result (\<lambda>e. if e = SerializerNegotiationError
                then HandshakeFailure RC_PROTOCOL_VIOLATION (en_exn_text env e) True else Raised e)
              (negotiate_serializers (en_nfc env) (h_system_incarnation_uid local) (h_serializers local)
                 (h_system_incarnation_uid peer) (h_serializers peer))) (\<lambda>negotiation.
     abind (modify (\<lambda>a. a\<lparr>as_serializer_minors :=
              dict_of (map (\<lambda>n. (ns_serializer_id n, ns_protocol_minor n)) (sn_serializers negotiation))\<rparr>)) (\<lambda>_.
     abind (lift_result Raised (negotiate_capabilities (en_nfc env) (h_capabilities local)
              (h_capabilities peer))) (\<lambda>capabilities.
       gets (\<lambda>a. accept_of (as_initiator a) (as_uid a) local peer (sn_routes negotiation) capabilities))))"

definition routes_from :: "uuid \<Rightarrow> serializer_route list \<Rightarrow> (int \<times> serializer_route) list" where
  "routes_from uid routes =
     dict_of (map (\<lambda>r. (sr_serializer_id r, r)) [r \<leftarrow> routes. sr_origin_incarnation_uid r = uid])"

definition prepare_negotiated ::
  "('t, 'v) association_env \<Rightarrow> hello_accept \<Rightarrow> ('v, unit) association_action"
where
  "prepare_negotiated env accept =
     abind (gets as_peer_incarnation_uid) (\<lambda>peer.
     case peer of
       None \<Rightarrow> raise (Raised AssertionError)
     | Some peer_uid \<Rightarrow>
         modify (\<lambda>a. let i = as_initiator a; lanes = replicate (nat (a_lane_count accept)) 0 in
           a\<lparr>as_accept := Some accept, as_lane_count := Some (a_lane_count accept),
             as_outbound_message_limit :=
               Some (if i then a_outbound_message_limit accept else a_inbound_message_limit accept),
             as_outbound_byte_limit :=
               Some (if i then a_outbound_byte_limit accept else a_inbound_byte_limit accept),
             as_inbound_message_limit :=
               Some (if i then a_inbound_message_limit accept else a_outbound_message_limit accept),
             as_inbound_byte_limit :=
               Some (if i then a_inbound_byte_limit accept else a_outbound_byte_limit accept),
             as_send_routes := routes_from (en_incarnation_uid env) (a_serializer_routes accept),
             as_receive_routes := routes_from peer_uid (a_serializer_routes accept),
             as_outbound_sequences := lanes, as_inbound_sequences := lanes,
             as_violations_by_lane := lanes\<rparr>))"

definition activate_transport :: "hello_accept \<Rightarrow> ('v, unit) association_action" where
  "activate_transport accept =
     abind (gets (\<lambda>a. (as_outbound_message_limit a, as_outbound_byte_limit a,
                       as_inbound_message_limit a, as_inbound_byte_limit a))) (\<lambda>limits.
     case limits of
       (Some om, Some ob, Some im, Some ib) \<Rightarrow>
         abind (lift_result Raised (transport_limits_init (a_maximum_frame_bytes accept) om ob im ib))
           (\<lambda>l. on_connection (tcp_activate l))
     | _ \<Rightarrow> raise (Raised AssertionError))"

section \<open>The steps of the handshake\<close>

text \<open>Up to waiting for the peer's \<^verbatim>\<open>HELLO\<close>.\<close>

definition handshake_start :: "('t, 'v) association_env \<Rightarrow> ('v, unit) association_action" where
  "handshake_start env =
     abind (gets (\<lambda>a. (as_initiator a, local_hello env a (local_role a)))) (\<lambda>(initiating, hello).
       if initiating then send_frame env (Hello hello) True False else ret ())"

text \<open>
  With the peer's first record; \<open>retained\<close> is the answer of \<^verbatim>\<open>_retain_handshake_candidate\<close>. The result
  is the value the peer must accept too.
\<close>

definition handshake_on_hello ::
  "('t, 'v) association_env \<Rightarrow> ('v association \<Rightarrow> bool) \<Rightarrow> transport_record
     \<Rightarrow> ('v, hello_accept) association_action"
where
  "handshake_on_hello env retained r =
     abind (gets (\<lambda>a. (as_initiator a, local_role a, local_hello env a (local_role a))))
       (\<lambda>(initiating, role, hello).
     abind (decode_handshake_record env r) (\<lambda>f.
     abind (hello_of_frame f) (\<lambda>peer.
     abind (validate_peer_hello env peer role) (\<lambda>_.
     abind (ensure retained (HandshakeFailure RC_DUPLICATE_ASSOCIATION
              (str ''a canonical duplicate association was retained'') True)) (\<lambda>_.
     abind (if initiating then ret () else send_frame env (Hello hello) True False) (\<lambda>_.
     abind (derive_accept env hello peer) (\<lambda>accept.
     abind (prepare_negotiated env accept) (\<lambda>_.
     abind (send_frame env (HelloAccept accept) True False) (\<lambda>_.
       ret accept)))))))))"

text \<open>With a later record, \<open>accept\<close> being what was sent; \<open>False\<close> when the loop goes on waiting.\<close>

definition handshake_on_accept ::
  "('t, 'v) association_env \<Rightarrow> hello_accept \<Rightarrow> transport_record \<Rightarrow> ('v, bool) association_action"
where
  "handshake_on_accept env accept r =
     abind (receive_handshake_record env True r) (\<lambda>received.
     case received of
       None \<Rightarrow> ret False
     | Some (HelloReject reason detail _) \<Rightarrow> raise (HandshakeFailure reason detail False)
     | Some (HelloAccept peer_accept) \<Rightarrow>
         abind (ensure (\<lambda>_. peer_accept = accept)
                  (handshake_violation ''peer HELLO_ACCEPT is not the canonical negotiated value'')) (\<lambda>_.
         abind (activate_transport accept) (\<lambda>_. ret True))
     | Some f \<Rightarrow> raise (HandshakeFailure RC_PROTOCOL_VIOLATION
                    (str ''expected HELLO_ACCEPT, got '' @ frame_class_name f) True))"

section \<open>What the steps do to the state\<close>

text \<open>What a connection keeps while records are queued on it.\<close>

definition fixed_part :: "tcp_connection \<Rightarrow> uuid \<times> connection_state \<times> bool" where
  "fixed_part c = (tc_association_uid c, tc_state c, tc_activated c)"

lemma tcp_fixed [simp]:
  "tcp_send seen r c = Inr c' \<Longrightarrow> fixed_part c' = fixed_part c"
  "tcp_send_active r c = Inr c' \<Longrightarrow> fixed_part c' = fixed_part c"
  by (auto simp: fixed_part_def tcp_send_def tcp_send_active_def
      enqueue_outbound_locked_def Let_def result_simps split: option.splits if_splits)

text \<open>Sending touches nothing but the connection.\<close>

definition same_but_connection :: "'v association \<Rightarrow> 'v association \<Rightarrow> bool" where
  "same_but_connection a a' \<longleftrightarrow>
     (\<exists>c. a' = a\<lparr>as_connection := c\<rparr> \<and> fixed_part c = fixed_part (as_connection a))"

lemma same_but_connection_refl [simp]: "same_but_connection a a"
  by (cases a) (auto simp: same_but_connection_def intro!: exI [of _ "as_connection a"])

lemma on_connection_same:
  assumes "\<And>c c'. f c = Inr c' \<Longrightarrow> fixed_part c' = fixed_part c" "on_connection f a = (r, a')"
  shows "same_but_connection a a'"
proof (cases "f (as_connection a)")
  case (Inl e)
  with assms(2) show ?thesis by (simp add: on_connection_def)
next
  case (Inr c)
  with assms show ?thesis by (auto simp: on_connection_def same_but_connection_def)
qed

lemma send_frame_same:
  assumes "send_frame env f bootstrap enforce a = (r, a')"
  shows "same_but_connection a a'"
proof -
  have active: "on_connection (tcp_send_active x) a = (r, a') \<Longrightarrow> same_but_connection a a'" for x
    by (erule on_connection_same [rotated]) simp
  have send: "connection_send x a = (r, a') \<Longrightarrow> same_but_connection a a'" for x
    unfolding connection_send_def by (erule on_connection_same [rotated]) simp
  have locked: "send_payload_locked x a = (r, a') \<Longrightarrow> same_but_connection a a'" for x
    by (auto simp: send_payload_locked_def action_defs active split: if_splits)
  show ?thesis
    using assms by (auto simp: send_frame_def Let_def action_defs split: sum.splits if_splits
        intro: send locked)
qed

lemma ensure_Inr: "abind (ensure P e) f a = (Inr y, a') \<longleftrightarrow> P a \<and> f () a = (Inr y, a')"
  by (auto simp: action_defs)

lemma lift_Inr: "abind (lift_result h r) f a = (Inr y, a') \<longleftrightarrow> (\<exists>x. r = Inr x \<and> f x a = (Inr y, a'))"
  by (auto simp: action_defs split: sum.splits)

lemma gets_bind: "abind (gets g) f a = f (g a) a"
  by (simp add: action_defs)

lemma modify_bind: "abind (modify g) f a = f () (g a)"
  by (simp add: action_defs)

lemmas action_Inr = ensure_Inr lift_Inr gets_bind modify_bind abind_Inr [of "send_frame env f b e" for env f b e]

definition peer_hello_ok ::
  "('t, 'v) association_env \<Rightarrow> hello \<Rightarrow> association_role \<Rightarrow> 'v association \<Rightarrow> bool"
where
  "peer_hello_ok env hello role a \<longleftrightarrow>
     h_protocol_major hello = PROTOCOL_MAJOR \<and> h_role hello = expected_role role
     \<and> h_association_uid hello = as_uid a \<and> h_system_incarnation_uid hello \<noteq> en_incarnation_uid env
     \<and> MINIMUM_GOAWAY_FRAME_BYTES \<le> h_maximum_frame_bytes hello \<and> 0 < h_lane_count hello
     \<and> 0 < h_outbound_message_limit hello \<and> 0 < h_outbound_byte_limit hello
     \<and> 0 < h_inbound_message_limit hello \<and> 0 < h_inbound_byte_limit hello
     \<and> (\<exists>endpoint. endpoint_init (h_endpoint_host hello) (h_endpoint_port hello) = Inr endpoint
          \<and> map_of (rc_peers (en_config env)) (h_system_name hello) = Some endpoint
          \<and> as_expected_system_name a \<in> {None, Some (h_system_name hello)}
          \<and> as_expected_endpoint a \<in> {None, Some endpoint})"

lemma endpoint_init_Inr: "endpoint_init host port = Inr e \<Longrightarrow> e = \<lparr>ep_host = host, ep_port = port\<rparr>"
  by (auto simp: endpoint_init_def result_simps)

definition with_peer :: "hello \<Rightarrow> 'v association \<Rightarrow> 'v association" where
  "with_peer hello a = a\<lparr>as_peer_system_name := Some (h_system_name hello),
     as_peer_incarnation_uid := Some (h_system_incarnation_uid hello),
     as_peer_endpoint := Some \<lparr>ep_host = h_endpoint_host hello, ep_port = h_endpoint_port hello\<rparr>\<rparr>"

lemma validate_peer_hello_Inr:
  "validate_peer_hello env hello role a = (Inr u, a') \<longleftrightarrow> peer_hello_ok env hello role a \<and> a' = with_peer hello a"
  unfolding validate_peer_hello_def action_Inr peer_hello_ok_def
  by (auto simp: with_peer_def modify_def dest: endpoint_init_Inr)

lemma derive_accept_Inr:
  "derive_accept env local peer a = (Inr accept, a') \<longleftrightarrow>
     (\<exists>n capabilities.
        negotiate_serializers (en_nfc env) (h_system_incarnation_uid local) (h_serializers local)
          (h_system_incarnation_uid peer) (h_serializers peer) = Inr n
        \<and> negotiate_capabilities (en_nfc env) (h_capabilities local) (h_capabilities peer) = Inr capabilities
        \<and> accept = accept_of (as_initiator a) (as_uid a) local peer (sn_routes n) capabilities
        \<and> a' = a\<lparr>as_serializer_minors :=
             dict_of (map (\<lambda>n. (ns_serializer_id n, ns_protocol_minor n)) (sn_serializers n))\<rparr>)"
  unfolding derive_accept_def action_Inr by (auto simp: gets_def as_uid_def)

text \<open>The state an accepted \<^verbatim>\<open>HELLO\<close> leaves behind.\<close>

definition negotiated_state ::
  "('t, 'v) association_env \<Rightarrow> hello \<Rightarrow> serializer_negotiation \<Rightarrow> hello_accept \<Rightarrow> 'v association
     \<Rightarrow> 'v association"
where
  "negotiated_state env peer n accept a =
     snd (prepare_negotiated env accept
       ((with_peer peer a)\<lparr>as_serializer_minors :=
          dict_of (map (\<lambda>n. (ns_serializer_id n, ns_protocol_minor n)) (sn_serializers n))\<rparr>))"

lemma prepare_negotiated_with_peer:
  "as_peer_incarnation_uid a = Some uid \<Longrightarrow> prepare_negotiated env accept a = (Inr (), snd (prepare_negotiated env accept a))"
  by (simp add: prepare_negotiated_def gets_bind modify_def)

lemma prepare_negotiated_connection:
  "prepare_negotiated env accept (a\<lparr>as_connection := c\<rparr>)
     = (fst (prepare_negotiated env accept a), (snd (prepare_negotiated env accept a))\<lparr>as_connection := c\<rparr>)"
  by (simp add: prepare_negotiated_def gets_bind modify_def raise_def Let_def split: option.splits)

lemma handshake_on_hello_Inr:
  assumes "handshake_on_hello env retained r a = (Inr accept, a')"
  obtains peer n capabilities where
    "decode_frame (en_nfc env) (tr_payload r) BOOTSTRAP_MAX_FRAME_BYTES (Some (ch_kind (tr_channel r)))
       = Inr (Hello peer)"
    "peer_hello_ok env peer (local_role a) a"
    "negotiate_serializers (en_nfc env) (en_incarnation_uid env)
       (registry_descriptors (rc_serializers (en_config env)))
       (h_system_incarnation_uid peer) (h_serializers peer) = Inr n"
    "negotiate_capabilities (en_nfc env) [] (h_capabilities peer) = Inr capabilities"
    "accept = accept_of (as_initiator a) (as_uid a) (local_hello env a (local_role a)) peer (sn_routes n) capabilities"
    "same_but_connection (negotiated_state env peer n accept a) a'"
    "encode_frame (en_nfc env) (HelloAccept accept) BOOTSTRAP_MAX_FRAME_BYTES (Some CONTROL) \<in> range Inr"
proof -
  let ?hello = "local_hello env a (local_role a)"
  obtain f peer a0 a1 a2 b d e where steps:
      "decode_handshake_record env r a = (Inr f, a0)" "hello_of_frame f a0 = (Inr peer, a1)"
      "validate_peer_hello env peer (local_role a) a1 = (Inr (), a2)"
      "(if as_initiator a then ret () else send_frame env (Hello ?hello) True False) a2 = (Inr (), b)"
      "derive_accept env ?hello peer b = (Inr accept, d)" "prepare_negotiated env accept d = (Inr (), e)"
      "send_frame env (HelloAccept accept) True False e = (Inr (), a')"
    using assms unfolding handshake_on_hello_def gets_bind
    by (auto simp: abind_Inr ensure_def ret_def split: if_splits)
  have f: "decode_frame (en_nfc env) (tr_payload r) BOOTSTRAP_MAX_FRAME_BYTES (Some (ch_kind (tr_channel r)))
      = Inr (Hello peer)" "a1 = a"
    using steps(1,2)
    by (auto simp: decode_handshake_record_def lift_result_def hello_of_frame_def ret_def raise_def
        split: sum.splits frame.splits)
  have ok: "peer_hello_ok env peer (local_role a) a" "a2 = with_peer peer a"
    using steps(3) f(2) by (simp_all add: validate_peer_hello_Inr)
  have b: "same_but_connection (with_peer peer a) b"
    using steps(4) ok(2) by (auto simp: ret_def split: if_splits dest: send_frame_same)
  then obtain c where c: "b = (with_peer peer a)\<lparr>as_connection := c\<rparr>"
      "fixed_part c = fixed_part (as_connection a)"
    by (auto simp: same_but_connection_def with_peer_def)
  obtain n capabilities where n:
      "negotiate_serializers (en_nfc env) (en_incarnation_uid env)
         (registry_descriptors (rc_serializers (en_config env)))
         (h_system_incarnation_uid peer) (h_serializers peer) = Inr n"
      "negotiate_capabilities (en_nfc env) [] (h_capabilities peer) = Inr capabilities"
      "accept = accept_of (as_initiator b) (as_uid b) ?hello peer (sn_routes n) capabilities"
      "d = b\<lparr>as_serializer_minors :=
             dict_of (map (\<lambda>n. (ns_serializer_id n, ns_protocol_minor n)) (sn_serializers n))\<rparr>"
    using steps(5) by (auto simp: derive_accept_Inr local_hello_def Let_def)
  have d: "d = ((with_peer peer a)\<lparr>as_serializer_minors :=
      dict_of (map (\<lambda>n. (ns_serializer_id n, ns_protocol_minor n)) (sn_serializers n))\<rparr>)\<lparr>as_connection := c\<rparr>"
    by (simp add: n(4) c(1))
  have "e = (negotiated_state env peer n accept a)\<lparr>as_connection := c\<rparr>"
    using steps(6) unfolding d prepare_negotiated_connection negotiated_state_def by simp
  moreover have "fixed_part (as_connection (negotiated_state env peer n accept a))
      = fixed_part (as_connection a)"
    by (simp add: negotiated_state_def prepare_negotiated_def gets_bind modify_def with_peer_def Let_def)
  ultimately have "same_but_connection (negotiated_state env peer n accept a) a'"
    using send_frame_same [OF steps(7)] c(2) by (auto simp: same_but_connection_def)
  moreover have "encode_frame (en_nfc env) (HelloAccept accept) BOOTSTRAP_MAX_FRAME_BYTES (Some CONTROL) \<in> range Inr"
    using steps(7) by (auto simp: send_frame_def Let_def gets_bind lift_Inr)
  moreover have "as_initiator b = as_initiator a" "as_uid b = as_uid a"
    using c by (simp_all add: with_peer_def as_uid_def fixed_part_def)
  ultimately show ?thesis using that f(1) ok(1) n(1-3) by simp
qed

lemma registry_descriptors_all_valid:
  "registry_inv nfc reg \<Longrightarrow> \<forall>d \<in> set (registry_descriptors reg). valid_descriptor nfc d"
  by (auto simp: registry_inv_def registrations_ok_def registry_descriptors_def)

lemma negotiated_fields:
  assumes "same_but_connection (negotiated_state env peer n accept a) a'"
  shows "as_accept a' = Some accept" "as_lane_count a' = Some (a_lane_count accept)"
    "as_outbound_message_limit a'
      = Some (if as_initiator a then a_outbound_message_limit accept else a_inbound_message_limit accept)"
    "as_outbound_byte_limit a'
      = Some (if as_initiator a then a_outbound_byte_limit accept else a_inbound_byte_limit accept)"
    "as_inbound_message_limit a'
      = Some (if as_initiator a then a_inbound_message_limit accept else a_outbound_message_limit accept)"
    "as_inbound_byte_limit a'
      = Some (if as_initiator a then a_inbound_byte_limit accept else a_outbound_byte_limit accept)"
    "as_send_routes a' = routes_from (en_incarnation_uid env) (a_serializer_routes accept)"
    "as_receive_routes a' = routes_from (h_system_incarnation_uid peer) (a_serializer_routes accept)"
    "as_serializer_minors a'
      = dict_of (map (\<lambda>n. (ns_serializer_id n, ns_protocol_minor n)) (sn_serializers n))"
    "as_outbound_sequences a' = replicate (nat (a_lane_count accept)) 0"
    "as_inbound_sequences a' = replicate (nat (a_lane_count accept)) 0"
    "fixed_part (as_connection a') = fixed_part (as_connection a)"
  using assms
  by (auto simp: same_but_connection_def negotiated_state_def prepare_negotiated_def gets_bind modify_def
      with_peer_def Let_def)

lemma accept_of_swap:
  "accept_of False uid peer local routes capabilities = accept_of True uid local peer routes capabilities"
  by (simp add: accept_of_def Let_def min.commute)

lemma negotiate_capabilities_none:
  "negotiate_capabilities nfc [] cs = Inr c \<Longrightarrow> c = []"
  by (auto simp: negotiate_capabilities_def result_simps)

lemma encode_multiplexed:
  "encode_frame nfc f maximum (Some kind) = Inr data \<Longrightarrow> encode_frame nfc f maximum (Some MULTIPLEXED) = Inr data"
  by (auto simp: encode_frame_def validate_stream_def result_simps split: if_splits)

lemma negotiated_limits_ok:
  assumes "limits_ok (rc_limits (en_config env))" "peer_hello_ok env peer (local_role a) a"
    "accept = accept_of i uid (local_hello env a role) peer routes capabilities"
  shows "limits_ok \<lparr>tl_maximum_record_bytes = a_maximum_frame_bytes accept,
    tl_outbound_message_limit = (if i then a_outbound_message_limit accept else a_inbound_message_limit accept),
    tl_outbound_byte_limit = (if i then a_outbound_byte_limit accept else a_inbound_byte_limit accept),
    tl_inbound_message_limit = (if i then a_inbound_message_limit accept else a_outbound_message_limit accept),
    tl_inbound_byte_limit = (if i then a_inbound_byte_limit accept else a_outbound_byte_limit accept)\<rparr>"
  using assms by (auto simp: limits_ok_def peer_hello_ok_def accept_of_def local_hello_def Let_def min_def)

lemma activate_transport_ok:
  assumes "as_outbound_message_limit a = Some om" "as_outbound_byte_limit a = Some ob"
    and "as_inbound_message_limit a = Some im" "as_inbound_byte_limit a = Some ib"
    and "limits_ok \<lparr>tl_maximum_record_bytes = a_maximum_frame_bytes accept, tl_outbound_message_limit = om,
      tl_outbound_byte_limit = ob, tl_inbound_message_limit = im, tl_inbound_byte_limit = ib\<rparr>"
    and "tc_state (as_connection a) \<noteq> CS_CLOSED" "\<not> tc_activated (as_connection a)"
  shows "activate_transport accept a = (Inr (), a\<lparr>as_connection := (as_connection a)\<lparr>
    tc_limits := \<lparr>tl_maximum_record_bytes = a_maximum_frame_bytes accept, tl_outbound_message_limit = om,
      tl_outbound_byte_limit = ob, tl_inbound_message_limit = im, tl_inbound_byte_limit = ib\<rparr>,
    tc_maximum_record_bytes := a_maximum_frame_bytes accept, tc_activated := True\<rparr>\<rparr>)"
proof -
  have "transport_limits_init (a_maximum_frame_bytes accept) om ob im ib
      = Inr \<lparr>tl_maximum_record_bytes = a_maximum_frame_bytes accept, tl_outbound_message_limit = om,
          tl_outbound_byte_limit = ob, tl_inbound_message_limit = im, tl_inbound_byte_limit = ib\<rparr>"
    using assms(5) by (simp add: transport_limits_init_Inr)
  then show ?thesis using assms
    by (simp add: activate_transport_def gets_bind lift_result_def on_connection_def tcp_activate_def guard_def
        split: prod.splits)
qed

lemma handshake_mirror:
  assumes "en_nfc ea = en_nfc eb" "as_initiator a" "\<not> as_initiator b" "as_uid a = as_uid b"
    and "registry_inv (en_nfc ea) (rc_serializers (en_config ea))"
    and "registry_inv (en_nfc eb) (rc_serializers (en_config eb))"
    and "handshake_on_hello ea retained_a from_b a = (Inr accept, a')"
    and "handshake_on_hello eb retained_b from_a b = (Inr accept', b')"
    and "decode_frame (en_nfc ea) (tr_payload from_b) BOOTSTRAP_MAX_FRAME_BYTES (Some (ch_kind (tr_channel from_b)))
           = Inr (Hello (local_hello eb b RESPONDER))"
    and "decode_frame (en_nfc eb) (tr_payload from_a) BOOTSTRAP_MAX_FRAME_BYTES (Some (ch_kind (tr_channel from_a)))
           = Inr (Hello (local_hello ea a INITIATOR))"
  shows "accept = accept' \<and> as_accept a' = as_accept b' \<and> as_lane_count a' = as_lane_count b'
    \<and> as_outbound_message_limit a' = as_inbound_message_limit b'
    \<and> as_outbound_byte_limit a' = as_inbound_byte_limit b'
    \<and> as_inbound_message_limit a' = as_outbound_message_limit b'
    \<and> as_inbound_byte_limit a' = as_outbound_byte_limit b'
    \<and> as_send_routes a' = as_receive_routes b' \<and> as_receive_routes a' = as_send_routes b'
    \<and> as_serializer_minors a' = as_serializer_minors b'
    \<and> as_outbound_sequences a' = as_inbound_sequences b'"
proof -
  let ?ha = "local_hello ea a INITIATOR" and ?hb = "local_hello eb b RESPONDER"
  have hello: "h_system_incarnation_uid (local_hello e x r) = en_incarnation_uid e"
    "h_serializers (local_hello e x r) = registry_descriptors (rc_serializers (en_config e))"
    "h_capabilities (local_hello e x r) = []" for e :: "('x, 'y) association_env" and x r
    by (simp_all add: local_hello_def Let_def)
  obtain pa n ca where a0: "decode_frame (en_nfc ea) (tr_payload from_b) BOOTSTRAP_MAX_FRAME_BYTES
        (Some (ch_kind (tr_channel from_b))) = Inr (Hello pa)"
      "negotiate_serializers (en_nfc ea) (en_incarnation_uid ea)
        (registry_descriptors (rc_serializers (en_config ea))) (h_system_incarnation_uid pa) (h_serializers pa) = Inr n"
      "negotiate_capabilities (en_nfc ea) [] (h_capabilities pa) = Inr ca"
      "accept = accept_of (as_initiator a) (as_uid a) (local_hello ea a (local_role a)) pa (sn_routes n) ca"
      "same_but_connection (negotiated_state ea pa n accept a) a'"
    using handshake_on_hello_Inr [OF assms(7)] by blast
  obtain pb m cb where b0: "decode_frame (en_nfc eb) (tr_payload from_a) BOOTSTRAP_MAX_FRAME_BYTES
        (Some (ch_kind (tr_channel from_a))) = Inr (Hello pb)"
      "negotiate_serializers (en_nfc eb) (en_incarnation_uid eb)
        (registry_descriptors (rc_serializers (en_config eb))) (h_system_incarnation_uid pb) (h_serializers pb) = Inr m"
      "negotiate_capabilities (en_nfc eb) [] (h_capabilities pb) = Inr cb"
      "accept' = accept_of (as_initiator b) (as_uid b) (local_hello eb b (local_role b)) pb (sn_routes m) cb"
      "same_but_connection (negotiated_state eb pb m accept' b) b'"
    using handshake_on_hello_Inr [OF assms(8)] by blast
  have "pa = ?hb" "pb = ?ha" "ca = []" "cb = []"
    using a0(1,3) b0(1,3) assms(9,10) by (auto dest: negotiate_capabilities_none)
  note a = a0(2,4,5) [unfolded this] and b = b0(2,4,5) [unfolded this]
  have "n = m"
    using a(1) b(1) assms(1) negotiate_serializers_commute [OF registry_descriptors_all_valid [OF assms(5)]
        registry_descriptors_all_valid [OF assms(6) [folded assms(1)]]] by (simp add: hello)
  moreover have "accept = accept'"
    using a(2) b(2) assms(2-4) calculation by (simp add: accept_of_swap local_role_def)
  ultimately show ?thesis
    using negotiated_fields [OF a(3)] negotiated_fields [OF b(3)] assms(2,3) by (simp add: hello)
qed

section \<open>Properties\<close>

text \<open>
  C22. Agreement: if initiator and responder each accept the \<^verbatim>\<open>HELLO\<close> the other sent, they derive the same
  \<^verbatim>\<open>HELLO_ACCEPT\<close> value, and the two states they prepare mirror each other: what one may send the other may
  receive, in messages, bytes, serializer routes and versions, with the same lanes and the same
  sequence numbers to start from.
\<close>

theorem handshake_agreement:
  assumes "en_nfc ea = en_nfc eb" "as_initiator a" "\<not> as_initiator b" "as_uid a = as_uid b"
    and "registry_inv (en_nfc ea) (rc_serializers (en_config ea))"
    and "registry_inv (en_nfc eb) (rc_serializers (en_config eb))"
    and "handshake_on_hello ea retained_a from_b a = (Inr accept, a')"
    and "handshake_on_hello eb retained_b from_a b = (Inr accept', b')"
    and "decode_frame (en_nfc ea) (tr_payload from_b) BOOTSTRAP_MAX_FRAME_BYTES (Some (ch_kind (tr_channel from_b)))
           = Inr (Hello (local_hello eb b RESPONDER))"
    and "decode_frame (en_nfc eb) (tr_payload from_a) BOOTSTRAP_MAX_FRAME_BYTES (Some (ch_kind (tr_channel from_a)))
           = Inr (Hello (local_hello ea a INITIATOR))"
  shows "accept = accept' \<and> as_accept a' = as_accept b' \<and> as_lane_count a' = as_lane_count b'
    \<and> as_outbound_message_limit a' = as_inbound_message_limit b'
    \<and> as_outbound_byte_limit a' = as_inbound_byte_limit b'
    \<and> as_inbound_message_limit a' = as_outbound_message_limit b'
    \<and> as_inbound_byte_limit a' = as_outbound_byte_limit b'
    \<and> as_send_routes a' = as_receive_routes b' \<and> as_receive_routes a' = as_send_routes b'
    \<and> as_serializer_minors a' = as_serializer_minors b'
    \<and> as_outbound_sequences a' = as_inbound_sequences b'"
  using assms by (rule handshake_mirror)

definition sample_env :: "string \<Rightarrow> uuid \<Rightarrow> int \<Rightarrow> string \<Rightarrow> int \<Rightarrow> serializer_descriptor
    \<Rightarrow> (unit, nat) association_env" where
  "sample_env name uid port peer_name peer_port descriptor =
     \<lparr>en_nfc = isascii, en_exn_text = (\<lambda>_. str ''error''), en_type_of = (\<lambda>_. ()),
      en_system_name = str name, en_incarnation_uid = uid,
      en_endpoint = \<lparr>ep_host = str ''localhost'', ep_port = port\<rparr>,
      en_config = \<lparr>rc_local = \<lparr>ep_host = str ''localhost'', ep_port = port\<rparr>,
        rc_peers = [(str peer_name, \<lparr>ep_host = str ''localhost'', ep_port = peer_port\<rparr>)],
        rc_serializers = \<lparr>rg_registrations = [(1, \<lparr>rn_descriptor = descriptor,
            rn_serialize = (\<lambda>v _ _. SerializeBytes [of_nat v]),
            rn_deserialize = (\<lambda>bs _ _. case bs of [b] \<Rightarrow> Some (unat b) | _ \<Rightarrow> None)\<rparr>)],
          rg_bindings = (if str ''order/1'' |\<in>| sd_writable_manifests descriptor
            then [((), \<lparr>sb_message_type = (), sb_serializer_id = 1, sb_manifest = str ''order/1''\<rparr>)] else [])\<rparr>,
        rc_limits = \<lparr>tl_maximum_record_bytes = 4096 + port, tl_outbound_message_limit = 8,
          tl_outbound_byte_limit = 8192, tl_inbound_message_limit = 6, tl_inbound_byte_limit = 9000\<rparr>,
        rc_lane_count = 2 + port, rc_pending_association_limit = 4, rc_association_history_limit = 4\<rparr>,
      en_admit = (\<lambda>_ _ _. AR_ACCEPTED), en_resolve_local = (\<lambda>_ _. (AR_ACTOR_NOT_FOUND, None))\<rparr>"

definition env_a :: "(unit, nat) association_env" where
  "env_a = sample_env ''alpha'' 7 1 ''beta'' 2 sample_descriptor"

definition env_b :: "(unit, nat) association_env" where
  "env_b = sample_env ''beta'' 9 2 ''alpha'' 1 sample_peer_descriptor"

definition sample_connection :: tcp_connection where
  "sample_connection = projr (tcp_connection_init \<lparr>tl_maximum_record_bytes = BOOTSTRAP_MAX_FRAME_BYTES,
     tl_outbound_message_limit = 8, tl_outbound_byte_limit = 2097152, tl_inbound_message_limit = 8,
     tl_inbound_byte_limit = 2097152\<rparr> 5)"

definition association_a :: "nat association" where
  "association_a = association_init sample_connection True (Some (str ''beta''))
     (Some \<lparr>ep_host = str ''localhost'', ep_port = 2\<rparr>) 3"

definition association_b :: "nat association" where
  "association_b = association_init sample_connection False None None 4"

definition frame_record :: "frame \<Rightarrow> transport_record" where
  "frame_record f = \<lparr>tr_channel = \<lparr>ch_kind = MULTIPLEXED, ch_lane_id = CONTROL_LANE_ID\<rparr>,
     tr_payload = projr (encode_frame isascii f BOOTSTRAP_MAX_FRAME_BYTES (Some MULTIPLEXED))\<rparr>"

abbreviation hello_a :: frame where "hello_a \<equiv> Hello (local_hello env_a association_a INITIATOR)"
abbreviation hello_b :: frame where "hello_b \<equiv> Hello (local_hello env_b association_b RESPONDER)"

definition negotiated_a :: "(failure + hello_accept) \<times> nat association" where
  "negotiated_a = handshake_on_hello env_a (\<lambda>_. True) (frame_record hello_b) association_a"

definition negotiated_b :: "(failure + hello_accept) \<times> nat association" where
  "negotiated_b = handshake_on_hello env_b (\<lambda>_. True) (frame_record hello_a) association_b"

lemma frame_record_decodes:
  assumes "wf_frame isascii f" "\<not> isl (encode_frame isascii f BOOTSTRAP_MAX_FRAME_BYTES (Some MULTIPLEXED))"
  shows "decode_frame isascii (tr_payload (frame_record f)) BOOTSTRAP_MAX_FRAME_BYTES
    (Some (ch_kind (tr_channel (frame_record f)))) = Inr f"
  using assms frame_codec_decode_encode [OF assms(1)]
  by (cases "encode_frame isascii f BOOTSTRAP_MAX_FRAME_BYTES (Some MULTIPLEXED)") (auto simp: frame_record_def)

lemma sample_registry_inv:
  "registry_inv isascii (rc_serializers (en_config env_a))"
  "registry_inv isascii (rc_serializers (en_config env_b))"
  using sample_descriptor_valid sample_peer_descriptor_valid
  by (auto simp: env_a_def env_b_def sample_env_def registry_inv_def registrations_ok_def bindings_ok_def
      sample_descriptor_def sample_peer_descriptor_def)

lemma sample_nfc: "en_nfc env_a = isascii" "en_nfc env_b = isascii"
  by (simp_all add: env_a_def env_b_def sample_env_def)

lemma sample_hellos_wf: "wf_frame isascii hello_a" "wf_frame isascii hello_b"
  using registry_descriptors_all_valid [OF sample_registry_inv(1)] registry_descriptors_all_valid [OF sample_registry_inv(2)]
  by (auto simp: local_hello_def Let_def list_all_iff)

lemma sample_hellos:
  "decode_frame isascii (tr_payload (frame_record hello_a)) BOOTSTRAP_MAX_FRAME_BYTES
    (Some (ch_kind (tr_channel (frame_record hello_a)))) = Inr hello_a"
  "decode_frame isascii (tr_payload (frame_record hello_b)) BOOTSTRAP_MAX_FRAME_BYTES
    (Some (ch_kind (tr_channel (frame_record hello_b)))) = Inr hello_b"
proof -
  note sample_hellos_wf
  moreover have "\<not> isl (encode_frame isascii hello_a BOOTSTRAP_MAX_FRAME_BYTES (Some MULTIPLEXED))" by code_simp
  moreover have "\<not> isl (encode_frame isascii hello_b BOOTSTRAP_MAX_FRAME_BYTES (Some MULTIPLEXED))" by code_simp
  ultimately show
    "decode_frame isascii (tr_payload (frame_record hello_a)) BOOTSTRAP_MAX_FRAME_BYTES
      (Some (ch_kind (tr_channel (frame_record hello_a)))) = Inr hello_a"
    "decode_frame isascii (tr_payload (frame_record hello_b)) BOOTSTRAP_MAX_FRAME_BYTES
      (Some (ch_kind (tr_channel (frame_record hello_b)))) = Inr hello_b"
    by (blast intro: frame_record_decodes)+
qed

lemma sample_negotiated_ok: "\<not> isl (fst negotiated_a)" "\<not> isl (fst negotiated_b)"
  by code_simp+

lemma completed_run: "\<not> isl (fst x) \<Longrightarrow> x = (Inr (projr (fst x)), snd x)"
  by (cases x) simp

theorem handshake_agreement_witness:
  "\<not> isl (fst negotiated_a) \<and> fst negotiated_a = fst negotiated_b
    \<and> as_send_routes (snd negotiated_a) = as_receive_routes (snd negotiated_b)
    \<and> as_outbound_message_limit (snd negotiated_a) = as_inbound_message_limit (snd negotiated_b)"
proof -
  have uid: "as_initiator association_a" "\<not> as_initiator association_b" "as_uid association_a = as_uid association_b"
    by (simp_all add: association_a_def association_b_def association_init_def as_uid_def)
  note runs = trans [OF negotiated_a_def [symmetric] completed_run [OF sample_negotiated_ok(1)]]
    trans [OF negotiated_b_def [symmetric] completed_run [OF sample_negotiated_ok(2)]]
  have agree: "projr (fst negotiated_a) = projr (fst negotiated_b)
      \<and> as_send_routes (snd negotiated_a) = as_receive_routes (snd negotiated_b)
      \<and> as_outbound_message_limit (snd negotiated_a) = as_inbound_message_limit (snd negotiated_b)"
    using handshake_agreement [OF _ uid _ _ runs, unfolded sample_nfc] sample_hellos sample_registry_inv by blast
  then have "Inr (projr (fst negotiated_a)) = (Inr (projr (fst negotiated_b)) :: failure + hello_accept)" by simp
  then have "fst negotiated_a = fst negotiated_b" unfolding sum.collapse(2) [OF sample_negotiated_ok(1)]
      sum.collapse(2) [OF sample_negotiated_ok(2)] .
  then show ?thesis using agree sample_negotiated_ok(1) by blast
qed

text \<open>
  C23. Completion: after accepting the peer's \<^verbatim>\<open>HELLO\<close>, a handshake succeeds when the peer's
  \<^verbatim>\<open>HELLO_ACCEPT\<close> is the frame it sent itself, which by agreement is what the peer sends. The frame could
  be encoded, it decodes to the same value, the negotiated limits are legal, and the connection ends
  up activated with exactly the limits of this side.
\<close>

theorem handshake_completes:
  assumes "handshake_on_hello env retained hello_record a = (Inr accept, a')"
    and "decode_frame (en_nfc env) (tr_payload hello_record) BOOTSTRAP_MAX_FRAME_BYTES
           (Some (ch_kind (tr_channel hello_record))) = Inr (Hello peer)"
    and "registry_inv (en_nfc env) (rc_serializers (en_config env))" "wf_frame (en_nfc env) (Hello peer)"
    and "limits_ok (rc_limits (en_config env))"
    and "tc_state (as_connection a) \<noteq> CS_CLOSED" "\<not> tc_activated (as_connection a)"
  shows "\<exists>payload c. encode_frame (en_nfc env) (HelloAccept accept) BOOTSTRAP_MAX_FRAME_BYTES (Some CONTROL) = Inr payload
    \<and> handshake_on_accept env accept
        \<lparr>tr_channel = \<lparr>ch_kind = MULTIPLEXED, ch_lane_id = CONTROL_LANE_ID\<rparr>, tr_payload = payload\<rparr> a'
      = (Inr True, a'\<lparr>as_connection := c\<rparr>)
    \<and> tc_activated c
    \<and> Some (tl_outbound_message_limit (tc_limits c)) = as_outbound_message_limit a'
    \<and> Some (tl_outbound_byte_limit (tc_limits c)) = as_outbound_byte_limit a'
    \<and> Some (tl_inbound_message_limit (tc_limits c)) = as_inbound_message_limit a'
    \<and> Some (tl_inbound_byte_limit (tc_limits c)) = as_inbound_byte_limit a'
    \<and> tc_maximum_record_bytes c = a_maximum_frame_bytes accept"
proof -
  obtain n capabilities where h:
      "peer_hello_ok env peer (local_role a) a"
      "negotiate_serializers (en_nfc env) (en_incarnation_uid env)
         (registry_descriptors (rc_serializers (en_config env)))
         (h_system_incarnation_uid peer) (h_serializers peer) = Inr n"
      "accept = accept_of (as_initiator a) (as_uid a) (local_hello env a (local_role a)) peer (sn_routes n) capabilities"
      "same_but_connection (negotiated_state env peer n accept a) a'"
      "encode_frame (en_nfc env) (HelloAccept accept) BOOTSTRAP_MAX_FRAME_BYTES (Some CONTROL) \<in> range Inr"
    using handshake_on_hello_Inr [OF assms(1)] assms(2) by (metis Inr_inject frame.inject(1))
  then obtain payload where p: "encode_frame (en_nfc env) (HelloAccept accept) BOOTSTRAP_MAX_FRAME_BYTES (Some CONTROL) = Inr payload"
    by auto
  have "list_all (valid_route (en_nfc env)) (sn_routes n)"
    using negotiated_routes_canonical(2) [OF registry_descriptors_all_valid [OF assms(3)] _ h(2)] assms(4)
    by (auto simp: list_all_iff)
  then have wf: "wf_frame (en_nfc env) (HelloAccept accept)" by (simp add: h(3) accept_of_def Let_def)
  have dec: "decode_frame (en_nfc env) payload BOOTSTRAP_MAX_FRAME_BYTES (Some MULTIPLEXED) = Inr (HelloAccept accept)"
    using frame_codec_decode_encode [OF wf encode_multiplexed [OF p]] .
  note fields = negotiated_fields [OF h(4)]
  obtain om ob im ib where limits: "as_outbound_message_limit a' = Some om" "as_outbound_byte_limit a' = Some ob"
      "as_inbound_message_limit a' = Some im" "as_inbound_byte_limit a' = Some ib"
      "limits_ok \<lparr>tl_maximum_record_bytes = a_maximum_frame_bytes accept, tl_outbound_message_limit = om,
        tl_outbound_byte_limit = ob, tl_inbound_message_limit = im, tl_inbound_byte_limit = ib\<rparr>"
    by (rule that [OF fields(3-6) negotiated_limits_ok [OF assms(5) h(1,3)]])
  moreover have "tc_state (as_connection a') \<noteq> CS_CLOSED" "\<not> tc_activated (as_connection a')"
    using assms(6,7) fields(12) by (simp_all add: fixed_part_def)
  ultimately show ?thesis using p dec activate_transport_ok [OF limits]
    by (simp add: handshake_on_accept_def receive_handshake_record_def decode_handshake_record_def
         lift_result_def abind_def ret_def ensure_def)
       (rule exI, rule conjI [OF refl], simp)
qed

theorem handshake_completes_witness:
  "\<exists>payload c. handshake_on_accept env_a (projr (fst negotiated_a))
      \<lparr>tr_channel = \<lparr>ch_kind = MULTIPLEXED, ch_lane_id = CONTROL_LANE_ID\<rparr>, tr_payload = payload\<rparr> (snd negotiated_a)
    = (Inr True, (snd negotiated_a)\<lparr>as_connection := c\<rparr>) \<and> tc_activated c"
proof -
  have "limits_ok (rc_limits (en_config env_a))" by code_simp
  moreover have "tc_state (as_connection association_a) \<noteq> CS_CLOSED" "\<not> tc_activated (as_connection association_a)"
    by code_simp+
  ultimately show ?thesis
    using handshake_completes [OF trans [OF negotiated_a_def [symmetric] completed_run [OF sample_negotiated_ok(1)]],
        unfolded sample_nfc, OF sample_hellos(2) sample_registry_inv(1) sample_hellos_wf(2)] by blast
qed

end
