(* ===== verification/Association_Active.thy ===== *)
theory Association_Active
  imports Handshake
begin

text \<open>
  An active association (\<^verbatim>\<open>movie/remoting/association.py\<close>): sending user messages, resolving actor paths,
  handling the records that arrive, and what ends it. Waiting is outside the definitions: \<^verbatim>\<open>resolve\<close> is
  split where it releases its lock or waits (\<open>resolve_reserve\<close>, \<open>resolve_send\<close>, \<open>resolve_timeout\<close>,
  \<open>resolve_result\<close>), and \<open>active_iteration\<close> is one pass of the receive loop.
\<close>

section \<open>Sending user messages\<close>

definition serialize_outbound ::
  "('t, 'v) association_env \<Rightarrow> 'v \<Rightarrow> 'v association \<Rightarrow> serialized_payload result"
where
  "serialize_outbound env message a =
     (let registry = rc_serializers (en_config env) in
      rbind (binding_for registry (en_type_of env message)) (\<lambda>binding.
      case map_of (as_send_routes a) (sb_serializer_id binding) of
        None \<Rightarrow> Inl UnsupportedManifestError
      | Some route \<Rightarrow>
          rbind (guard (sb_manifest binding \<in> set (sr_manifests route)) UnsupportedManifestError) (\<lambda>_.
          case map_of (as_serializer_minors a) (sb_serializer_id binding) of
            None \<Rightarrow> Inl KeyError
          | Some minor \<Rightarrow> serialize_for_route (en_type_of env) registry message route minor)))"

text \<open>\<^verbatim>\<open>int.from_bytes(incarnation.bytes + actor.bytes, "big") % lane_count\<close>\<close>

definition lane_of :: "actor_identity \<Rightarrow> int \<Rightarrow> int" where
  "lane_of recipient lane_count =
     (uint (ai_system_incarnation_uid recipient) * 2 ^ 128 + uint (ai_actor_uid recipient)) mod lane_count"

definition user_message_for ::
  "('t, 'v) association_env \<Rightarrow> actor_identity \<Rightarrow> serialized_payload \<Rightarrow> int \<Rightarrow> int \<Rightarrow> 'v association
     \<Rightarrow> user_message"
where
  "user_message_for env recipient serialized lane_id lane_sequence a =
     \<lparr>um_association_uid = as_uid a, um_lane_id = lane_id, um_lane_sequence = lane_sequence,
      um_sender_incarnation_uid = en_incarnation_uid env,
      um_recipient_incarnation_uid = ai_system_incarnation_uid recipient,
      um_recipient_actor_uid = ai_actor_uid recipient,
      um_serializer_id = sp_serializer_id serialized, um_manifest = sp_manifest serialized,
      um_payload = sp_payload serialized, um_correlation_id = 0\<rparr>"

text \<open>
  \<open>current\<close> is what the checks of \<^verbatim>\<open>RemotingRuntime._send_if_current\<close> say before it calls
  \<^verbatim>\<open>_send_payload_locked\<close>.
\<close>

definition send_if_current :: "unit result \<Rightarrow> transport_record \<Rightarrow> ('v, unit) association_action" where
  "send_if_current current r = abind (lift_result Raised current) (\<lambda>_. send_payload_locked r)"

definition admit_outbound ::
  "unit result \<Rightarrow> int \<Rightarrow> bytes \<Rightarrow> ('v, unit) association_action"
where
  "admit_outbound current lane_id payload =
     attempt
       (abind (ensure (\<lambda>a. as_peer_system_name a \<noteq> None) (Raised AssertionError)) (\<lambda>_.
        abind (lift_result Raised (logical_channel_init DELIVERY_LANE lane_id)) (\<lambda>channel.
          send_if_current current \<lparr>tr_channel = channel, tr_payload = payload\<rparr>)))
       (\<lambda>e. if e = Raised TransportCapacityError \<or> e = Raised RemotingCapacityError
            then abind (modify (increment_many True [(M_rejected, 1)])) (\<lambda>_. raise (Raised RemotingCapacityError))
            else if e = Raised TransportClosedError
            then abind (modify (increment_many False [(M_rejected, 1)])) (\<lambda>_. raise (Raised NoAssociationError))
            else raise e)"

definition send_user_message ::
  "('t, 'v) association_env \<Rightarrow> unit result \<Rightarrow> actor_identity \<Rightarrow> 'v \<Rightarrow> ('v, unit) association_action"
where
  "send_user_message env current recipient message =
     abind (attempt
       (abind (gets (serialize_outbound env message)) (lift_result Raised))
       (\<lambda>e. abind (modify (increment_many True [(M_serialization, 1), (M_rejected, 1)])) (\<lambda>_. raise e))) (\<lambda>serialized.
     abind (require_active (Some (ai_system_incarnation_uid recipient))) (\<lambda>_.
     abind (gets (\<lambda>a. (as_lane_count a, as_outbound_sequences a))) (\<lambda>(lanes, sequences).
     case lanes of
       None \<Rightarrow> raise (Raised AssertionError)
     | Some lane_count \<Rightarrow>
        (let lane_id = lane_of recipient lane_count in
         if length sequences \<le> nat lane_id then raise (Raised IndexError)
         else let lane_sequence = sequences ! nat lane_id in
         if lane_sequence > MAX_U64
         then abind (modify (increment_many True [(M_rejected, 1)])) (\<lambda>_.
              abind (request_close env RC_PROTOCOL_VIOLATION
                       (str ''delivery lane '' @ dec lane_id @ str '' sequence is exhausted'') True) (\<lambda>_.
                raise (Raised RemotingCapacityError)))
         else abind (gets (\<lambda>a. encode_frame (en_nfc env)
                  (UserMessage (user_message_for env recipient serialized lane_id lane_sequence a))
                  (as_maximum_frame_bytes a) (Some DELIVERY_LANE))) (\<lambda>encoded.
              abind (attempt (lift_result Raised encoded) (\<lambda>e.
                if e = Raised FrameTooLargeError
                then abind (modify (increment_many True [(M_rejected, 1)])) (\<lambda>_. raise e)
                else raise e)) (\<lambda>payload.
              abind (admit_outbound current lane_id payload) (\<lambda>_.
              abind (modify (\<lambda>a. a\<lparr>as_outbound_sequences :=
                       (as_outbound_sequences a)[nat lane_id := lane_sequence + 1]\<rparr>)) (\<lambda>_.
                modify (increment_many True [(M_accepted, 1)]))))))))) "

section \<open>Resolving actor paths\<close>

text \<open>
  The loop of \<^verbatim>\<open>_new_correlation_id_locked\<close>, with the number of passes left.
\<close>

function correlation_loop :: "int \<Rightarrow> int \<Rightarrow> (int \<times> 'x) list \<Rightarrow> int option \<times> int" where
  "correlation_loop passes candidate pending =
     (if passes \<le> 0 then (None, candidate)
      else let next_candidate = (if candidate = MAX_U64 then 1 else candidate + 1) in
        if candidate \<noteq> 0 \<and> map_of pending candidate = None then (Some candidate, next_candidate)
        else correlation_loop (passes - 1) next_candidate pending)"
  by pat_completeness auto
termination by (relation "measure (\<lambda>(passes, _). nat passes)") auto

declare correlation_loop.simps [simp del]

definition new_correlation_id_locked :: "('v, int) association_action" where
  "new_correlation_id_locked a =
     (case correlation_loop MAX_U64 (as_next_correlation_id a) (as_pending a) of
        (None, n) \<Rightarrow> (Inl (Raised RemotingCapacityError), a\<lparr>as_next_correlation_id := n\<rparr>)
      | (Some i, n) \<Rightarrow> (Inr i, a\<lparr>as_next_correlation_id := n\<rparr>))"

definition resolve_reserve :: "pystr \<Rightarrow> ('v, nat \<times> int) association_action" where
  "resolve_reserve path =
     abind (gets as_outbound_message_limit) (\<lambda>limit.
     case limit of
       None \<Rightarrow> raise (Raised AssertionError)
     | Some limit \<Rightarrow>
         abind (ensure (\<lambda>a. int (length (as_pending a)) < limit) (Raised RemotingCapacityError)) (\<lambda>_.
         abind new_correlation_id_locked (\<lambda>i.
         abind (gets as_next_ticket) (\<lambda>ticket.
         abind (modify (\<lambda>a. a\<lparr>as_pending := AList.update i \<lparr>pe_ticket = ticket, pe_path = path\<rparr> (as_pending a),
                  as_next_ticket := ticket + 1\<rparr>)) (\<lambda>_.
           ret (ticket, i))))))"

definition peer_system_name_or_raise :: "('v, pystr) association_action" where
  "peer_system_name_or_raise =
     abind (gets as_peer_system_name) (\<lambda>name.
       case name of None \<Rightarrow> raise (Raised NoAssociationError) | Some n \<Rightarrow> ret n)"

definition drop_pending :: "int \<Rightarrow> 'v association \<Rightarrow> 'v association" where
  "drop_pending i a = a\<lparr>as_pending := AList.delete i (as_pending a)\<rparr>"

definition resolve_send ::
  "('t, 'v) association_env \<Rightarrow> int \<Rightarrow> pystr \<Rightarrow> ('v, unit) association_action"
where
  "resolve_send env i path =
     attempt
       (abind peer_system_name_or_raise (\<lambda>name. send_frame env (ResolveRequest i name path) False True))
       (\<lambda>e. abind (modify (drop_pending i)) (\<lambda>_. raise e))"

definition resolve_begin ::
  "('t, 'v) association_env \<Rightarrow> pystr \<Rightarrow> ('v, nat \<times> int) association_action"
where
  "resolve_begin env path =
     abind (require_active None) (\<lambda>_.
     abind (resolve_reserve path) (\<lambda>(ticket, i).
     abind (resolve_send env i path) (\<lambda>_. ret (ticket, i))))"

text \<open>The wait ran into its timeout; \<open>ret ()\<close> when the answer came in just before, and the caller waits for it.\<close>

definition resolve_timeout ::
  "('t, 'v) association_env \<Rightarrow> nat \<Rightarrow> int \<Rightarrow> ('v, unit) association_action"
where
  "resolve_timeout env ticket i =
     abind (gets (\<lambda>a. map_of (as_pending a) i)) (\<lambda>popped.
     abind (modify (drop_pending i)) (\<lambda>_.
     if (case popped of Some p \<Rightarrow> pe_ticket p = ticket | None \<Rightarrow> False)
     then abind (request_close env RC_PROTOCOL_VIOLATION
                   (str ''resolution timed out with a live correlation ID'') True) (\<lambda>_.
            raise (Raised ResolutionError))
     else ret ()))"

text \<open>What \<^verbatim>\<open>resolve\<close> returns once its event is set; \<open>None\<close> while it is not.\<close>

definition resolve_result :: "nat \<Rightarrow> 'v association \<Rightarrow> frame result option" where
  "resolve_result ticket a =
     (case map_of (as_completed a) ticket of
        None \<Rightarrow> None
      | Some (Inl detail) \<Rightarrow> Some (Inl ResolutionError)
      | Some (Inr response) \<Rightarrow> Some (Inr response))"

section \<open>Handling control frames\<close>

primrec reason_name :: "reason_code \<Rightarrow> pystr" where
  "reason_name RC_NORMAL_SHUTDOWN = str ''NORMAL_SHUTDOWN''"
| "reason_name RC_INCOMPATIBLE_VERSION = str ''INCOMPATIBLE_VERSION''"
| "reason_name RC_SYSTEM_NAME_MISMATCH = str ''SYSTEM_NAME_MISMATCH''"
| "reason_name RC_DUPLICATE_ASSOCIATION = str ''DUPLICATE_ASSOCIATION''"
| "reason_name RC_UNSUPPORTED_FRAME = str ''UNSUPPORTED_FRAME''"
| "reason_name RC_PROTOCOL_VIOLATION = str ''PROTOCOL_VIOLATION''"
| "reason_name RC_FLOW_CONTROL_VIOLATION = str ''FLOW_CONTROL_VIOLATION''"
| "reason_name RC_ACTOR_NOT_FOUND = str ''ACTOR_NOT_FOUND''"
| "reason_name RC_ACTOR_STOPPING = str ''ACTOR_STOPPING''"
| "reason_name RC_MAILBOX_FULL = str ''MAILBOX_FULL''"
| "reason_name RC_INVALID_PATH = str ''INVALID_PATH''"
| "reason_name RC_UNKNOWN_SERIALIZER = str ''UNKNOWN_SERIALIZER''"
| "reason_name RC_UNSUPPORTED_MANIFEST = str ''UNSUPPORTED_MANIFEST''"
| "reason_name RC_MALFORMED_PAYLOAD = str ''MALFORMED_PAYLOAD''"

abbreviation (input) violation :: "string \<Rightarrow> failure" where
  "violation detail \<equiv> ProtocolFailure RC_PROTOCOL_VIOLATION (str detail)"

definition resolve_response ::
  "('t, 'v) association_env \<Rightarrow> int \<Rightarrow> pystr \<Rightarrow> pystr \<Rightarrow> ('v, frame) association_action"
where
  "resolve_response env i system path =
     (if system \<noteq> en_system_name env
      then ret (ResolveRejected i RC_SYSTEM_NAME_MISMATCH (str ''resolution actor-system name does not match''))
      else abind (gets (\<lambda>a. en_resolve_local env (as_calls a) path)) (\<lambda>(result, actor).
        if result = AR_ACCEPTED
        then (case actor of
                None \<Rightarrow> raise (Raised AssertionError)
              | Some (uid, remote_path) \<Rightarrow>
                  ret (ResolveResponse i (en_incarnation_uid env) uid remote_path))
        else ret (ResolveRejected i
               (if result = AR_ACTOR_NOT_FOUND then RC_ACTOR_NOT_FOUND
                else if result = AR_ACTOR_STOPPING then RC_ACTOR_STOPPING else RC_INVALID_PATH)
               (admission_name result))))"

definition handle_resolve_request ::
  "('t, 'v) association_env \<Rightarrow> int \<Rightarrow> pystr \<Rightarrow> pystr \<Rightarrow> ('v, unit) association_action"
where
  "handle_resolve_request env i system path =
     abind (ensure (\<lambda>a. i \<notin> set (as_inbound_requests a)) (violation ''peer reused a live correlation ID'')) (\<lambda>_.
     abind (modify (\<lambda>a. a\<lparr>as_inbound_requests := i # as_inbound_requests a\<rparr>)) (\<lambda>_.
       finally_do
         (abind (resolve_response env i system path) (\<lambda>response. send_frame env response False True))
         (modify (\<lambda>a. a\<lparr>as_inbound_requests := removeAll i (as_inbound_requests a)\<rparr>))))"

definition complete :: "nat \<Rightarrow> pystr + frame \<Rightarrow> 'v association \<Rightarrow> 'v association" where
  "complete ticket outcome a = a\<lparr>as_completed := as_completed a @ [(ticket, outcome)]\<rparr>"

definition handle_resolve_result :: "frame \<Rightarrow> ('v, unit) association_action" where
  "handle_resolve_result f =
     abind (gets (\<lambda>a. map_of (as_pending a) (correlation_id f))) (\<lambda>popped.
     abind (modify (drop_pending (correlation_id f))) (\<lambda>_.
     case popped of
       None \<Rightarrow> raise (violation ''peer responded with an unknown correlation ID'')
     | Some p \<Rightarrow>
        (case f of
           ResolveResponse _ incarnation _ path \<Rightarrow>
             abind (gets as_peer_incarnation_uid) (\<lambda>peer.
             if peer \<noteq> Some incarnation \<or> path \<noteq> pe_path p
             then abind (modify (complete (pe_ticket p)
                      (Inl (str ''resolution response identity or path does not match its request'')))) (\<lambda>_.
                    raise (violation ''resolution response identity or path does not match its request''))
             else modify (complete (pe_ticket p) (Inr f)))
         | ResolveRejected _ reason detail \<Rightarrow>
             modify (complete (pe_ticket p) (Inl (str ''remote actor resolution was rejected: ''
               @ reason_name reason @ str '': '' @ detail)))
         | _ \<Rightarrow> raise (Raised TypeError))))"

definition advisory_reason :: "reason_code \<Rightarrow> dead_letter_reason result" where
  "advisory_reason reason =
     (if reason = RC_ACTOR_NOT_FOUND then Inr DL_ACTOR_NOT_FOUND
      else if reason = RC_ACTOR_STOPPING then Inr DL_ACTOR_STOPPING
      else if reason = RC_MAILBOX_FULL then Inr DL_MAILBOX_FULL
      else Inl KeyError)"

text \<open>\<open>unavailable\<close> tells \<^verbatim>\<open>RecipientUnavailable\<close> from \<^verbatim>\<open>DeserializationRejected\<close>.\<close>

definition handle_advisory :: "bool \<Rightarrow> advisory \<Rightarrow> ('v, unit) association_action" where
  "handle_advisory unavailable v =
     abind (gets (\<lambda>a. (as_lane_count a, as_peer_incarnation_uid a))) (\<lambda>known.
     case known of
       (Some lane_count, Some peer_uid) \<Rightarrow>
         abind (ensure (\<lambda>a. av_association_uid v = as_uid a \<and> av_lane_id v < lane_count)
                  (violation ''advisory association or lane does not match the active association'')) (\<lambda>_.
         abind (lift_result Raised (actor_identity_init peer_uid (av_recipient_actor_uid v))) (\<lambda>identity.
         abind (lift_result Raised
                  (if unavailable then advisory_reason (av_reason v) else Inr DL_DESERIALIZATION_REJECTED)) (\<lambda>reason.
         abind (modify (increment_many True [(M_dead_letter, 1)])) (\<lambda>_.
           modify (\<lambda>a. as_call (PublishDeadLetter identity reason
             \<lparr>dm_association_uid = as_uid a, dm_lane_id = av_lane_id v, dm_lane_sequence = av_lane_sequence v,
              dm_serializer_id = None, dm_manifest = None, dm_payload_byte_length = None\<rparr>) a)))))
     | _ \<Rightarrow> raise (Raised AssertionError))"

section \<open>Handling user messages\<close>

definition metadata_of :: "user_message \<Rightarrow> 'v association \<Rightarrow> delivery_metadata" where
  "metadata_of m a =
     \<lparr>dm_association_uid = as_uid a, dm_lane_id = um_lane_id m, dm_lane_sequence = um_lane_sequence m,
      dm_serializer_id = Some (um_serializer_id m), dm_manifest = Some (um_manifest m),
      dm_payload_byte_length = Some (int (length (um_payload m)))\<rparr>"

definition advisory_for :: "user_message \<Rightarrow> reason_code \<Rightarrow> pystr \<Rightarrow> 'v association \<Rightarrow> advisory" where
  "advisory_for m reason detail a =
     \<lparr>av_association_uid = as_uid a, av_lane_id = um_lane_id m, av_lane_sequence = um_lane_sequence m,
      av_recipient_actor_uid = um_recipient_actor_uid m, av_reason = reason, av_detail = detail,
      av_correlation_id = 0\<rparr>"

text \<open>The three checks that come before the sequence number of the lane is consumed.\<close>

definition check_user_message ::
  "('t, 'v) association_env \<Rightarrow> user_message \<Rightarrow> logical_channel \<Rightarrow> ('v, unit) association_action"
where
  "check_user_message env m channel =
     abind (gets (\<lambda>a. (as_lane_count a, as_peer_incarnation_uid a))) (\<lambda>known.
     case known of
       (Some lane_count, Some peer_uid) \<Rightarrow>
         abind (ensure (\<lambda>a. um_association_uid m = as_uid a \<and> um_lane_id m < lane_count
                      \<and> \<not> (ch_kind channel = DELIVERY_LANE \<and> ch_lane_id channel \<noteq> um_lane_id m)
                      \<and> um_sender_incarnation_uid m = peer_uid
                      \<and> um_recipient_incarnation_uid m = en_incarnation_uid env)
                  (violation ''user-message association, lane, or incarnation is invalid'')) (\<lambda>_.
         abind (ensure (\<lambda>a. nat (um_lane_id m) < length (as_inbound_sequences a)) (Raised IndexError)) (\<lambda>_.
         abind (gets (\<lambda>a. as_inbound_sequences a ! nat (um_lane_id m))) (\<lambda>expected.
         abind (if um_lane_sequence m \<noteq> expected
                then abind (modify (increment_sequence_violation (um_lane_id m))) (\<lambda>_.
                       raise (ProtocolFailure RC_PROTOCOL_VIOLATION
                         (str ''delivery lane '' @ dec (um_lane_id m) @ str '' expected sequence ''
                          @ dec expected @ str '', got '' @ dec (um_lane_sequence m))))
                else ret ()) (\<lambda>_.
           ensure (\<lambda>a. case map_of (as_receive_routes a) (um_serializer_id m) of
                         None \<Rightarrow> False | Some route \<Rightarrow> um_manifest m \<in> set (sr_manifests route))
             (violation ''user-message serializer route was not negotiated'')))))
     | _ \<Rightarrow> raise (Raised AssertionError))"

definition consume_sequence :: "user_message \<Rightarrow> 'v association \<Rightarrow> 'v association" where
  "consume_sequence m a =
     a\<lparr>as_inbound_sequences := (as_inbound_sequences a)[nat (um_lane_id m) := um_lane_sequence m + 1]\<rparr>"

definition deserialize_inbound ::
  "('t, 'v) association_env \<Rightarrow> user_message \<Rightarrow> 'v association \<Rightarrow> 'v result"
where
  "deserialize_inbound env m a =
     (case map_of (as_serializer_minors a) (um_serializer_id m) of
        None \<Rightarrow> Inl KeyError
      | Some minor \<Rightarrow> registry_deserialize (rc_serializers (en_config env)) (um_serializer_id m)
                        (um_manifest m) (um_payload m) (Some minor))"

definition reject_payload ::
  "('t, 'v) association_env \<Rightarrow> actor_identity \<Rightarrow> user_message \<Rightarrow> exn \<Rightarrow> ('v, unit) association_action"
where
  "reject_payload env identity m e =
     abind (modify (increment_many True [(M_deserialization, 1), (M_rejected, 1), (M_dead_letter, 1)])) (\<lambda>_.
     abind (modify (\<lambda>a. as_call (PublishDeadLetter identity DL_DESERIALIZATION_REJECTED (metadata_of m a)) a)) (\<lambda>_.
     abind (gets (advisory_for m
              (if e = UnknownSerializerError then RC_UNKNOWN_SERIALIZER
               else if e = UnsupportedManifestError then RC_UNSUPPORTED_MANIFEST else RC_MALFORMED_PAYLOAD)
              (en_exn_text env e))) (\<lambda>v.
       send_control_best_effort env (DeserializationRejected v))))"

type_synonym 'v prepared = "actor_identity \<times> 'v \<times> delivery_metadata \<times> user_message"

definition prepare_user_message ::
  "('t, 'v) association_env \<Rightarrow> user_message \<Rightarrow> logical_channel \<Rightarrow> ('v, 'v prepared option) association_action"
where
  "prepare_user_message env m channel =
     abind (check_user_message env m channel) (\<lambda>_.
     abind (modify (consume_sequence m)) (\<lambda>_.
     abind (lift_result Raised (actor_identity_init (en_incarnation_uid env) (um_recipient_actor_uid m))) (\<lambda>identity.
     abind (gets (deserialize_inbound env m)) (\<lambda>message.
     case message of
       Inl e \<Rightarrow>
         if e \<in> {UnknownSerializerError, UnsupportedManifestError, DeserializationError}
         then abind (reject_payload env identity m e) (\<lambda>_. ret None)
         else raise (Raised e)
     | Inr v \<Rightarrow> gets (\<lambda>a. Some (identity, v, metadata_of m a, m))))))"

text \<open>
  \<^verbatim>\<open>_handle_user_messages\<close> collects what was prepared and admits it also when a later message raises:
  the loop returns its outcome beside the list.
\<close>

fun prepare_all ::
  "('t, 'v) association_env \<Rightarrow> (user_message \<times> logical_channel) list \<Rightarrow> 'v association
     \<Rightarrow> (failure + unit) \<times> 'v prepared list \<times> 'v association"
where
  "prepare_all env [] a = (Inr (), [], a)"
| "prepare_all env ((m, channel) # frames) a =
     (case prepare_user_message env m channel a of
        (Inl e, a') \<Rightarrow> (Inl e, [], a')
      | (Inr p, a') \<Rightarrow>
          (case prepare_all env frames a' of (r, ps, a'') \<Rightarrow>
             (r, (case p of None \<Rightarrow> ps | Some x \<Rightarrow> x # ps), a'')))"

primrec admission_reason :: "admission_result \<Rightarrow> reason_code" where
  "admission_reason AR_ACTOR_NOT_FOUND = RC_ACTOR_NOT_FOUND"
| "admission_reason AR_ACTOR_STOPPING = RC_ACTOR_STOPPING"
| "admission_reason AR_MAILBOX_FULL = RC_MAILBOX_FULL"
| "admission_reason AR_ACCEPTED = RC_NORMAL_SHUTDOWN"

definition admit_one ::
  "('t, 'v) association_env \<Rightarrow> 'v prepared \<Rightarrow> ('v, nat) association_action"
where
  "admit_one env p =
     (case p of (identity, v, metadata, m) \<Rightarrow>
       abind (gets (\<lambda>a. en_admit env (as_calls a) identity v)) (\<lambda>result.
       abind (modify (as_call (AdmitRemoteMessage identity v metadata result))) (\<lambda>_.
       if result = AR_ACCEPTED then ret 1
       else abind (modify (increment_many True [(M_rejected, 1), (M_dead_letter, 1)])) (\<lambda>_.
            abind (gets (advisory_for m (admission_reason result) (admission_name result))) (\<lambda>v.
            abind (send_control_best_effort env (RecipientUnavailable v)) (\<lambda>_. ret 0))))))"

fun admit_each :: "('t, 'v) association_env \<Rightarrow> 'v prepared list \<Rightarrow> nat \<Rightarrow> ('v, nat) association_action" where
  "admit_each env [] accepted = ret accepted"
| "admit_each env (p # ps) accepted = abind (admit_one env p) (\<lambda>n. admit_each env ps (accepted + n))"

definition admit_prepared_user_messages ::
  "('t, 'v) association_env \<Rightarrow> 'v prepared list \<Rightarrow> ('v, unit) association_action"
where
  "admit_prepared_user_messages env prepared =
     abind (admit_each env prepared 0) (\<lambda>accepted.
       if accepted \<noteq> 0 then modify (increment_many True [(M_accepted, int accepted)]) else ret ())"

definition handle_user_messages ::
  "('t, 'v) association_env \<Rightarrow> (user_message \<times> logical_channel) list \<Rightarrow> ('v, unit) association_action"
where
  "handle_user_messages env frames a =
     (case prepare_all env frames a of (r, prepared, a') \<Rightarrow>
      case admit_prepared_user_messages env prepared a' of
        (Inl e, a'') \<Rightarrow> (Inl e, a'')
      | (Inr _, a'') \<Rightarrow> (r, a''))"

section \<open>The receive loop\<close>

definition flush_users ::
  "('t, 'v) association_env \<Rightarrow> (user_message \<times> logical_channel) list \<Rightarrow> ('v, unit) association_action"
where
  "flush_users env users = (if users = [] then ret () else handle_user_messages env users)"

text \<open>A frame other than a user message; the result says whether the loop returns.\<close>

definition handle_control :: "('t, 'v) association_env \<Rightarrow> frame \<Rightarrow> ('v, bool) association_action" where
  "handle_control env f =
     (case f of
        ResolveRequest i system path \<Rightarrow> abind (handle_resolve_request env i system path) (\<lambda>_. ret False)
      | ResolveResponse _ _ _ _ \<Rightarrow> abind (handle_resolve_result f) (\<lambda>_. ret False)
      | ResolveRejected _ _ _ \<Rightarrow> abind (handle_resolve_result f) (\<lambda>_. ret False)
      | RecipientUnavailable v \<Rightarrow> abind (handle_advisory True v) (\<lambda>_. ret False)
      | DeserializationRejected v \<Rightarrow> abind (handle_advisory False v) (\<lambda>_. ret False)
      | GoAway reason detail _ \<Rightarrow> abind (modify (set_close_reason (Some reason) detail)) (\<lambda>_. ret True)
      | _ \<Rightarrow> raise (ProtocolFailure RC_PROTOCOL_VIOLATION
               (frame_class_name f @ str '' is not valid on an active association'')))"

text \<open>
  The \<^verbatim>\<open>for\<close> loop over a batch, with \<open>users\<close> the list \<^verbatim>\<open>pending_users\<close> as the code leaves it: a flush
  that raises does not clear it.
\<close>

definition user_message_of :: "frame \<Rightarrow> user_message option" where
  "user_message_of f = (case f of UserMessage m \<Rightarrow> Some m | _ \<Rightarrow> None)"

fun dispatch_records ::
  "('t, 'v) association_env \<Rightarrow> (user_message \<times> logical_channel) list \<Rightarrow> transport_record list
     \<Rightarrow> 'v association \<Rightarrow> (failure + bool) \<times> (user_message \<times> logical_channel) list \<times> 'v association"
where
  "dispatch_records env users [] a = (Inr False, users, a)"
| "dispatch_records env users (r # rs) a =
     (case decode_frame (en_nfc env) (tr_payload r) (as_maximum_frame_bytes a) (Some (ch_kind (tr_channel r))) of
        Inl e \<Rightarrow> (Inl (Raised e), users, a)
      | Inr f \<Rightarrow>
          (case user_message_of f of
             Some m \<Rightarrow> dispatch_records env (users @ [(m, tr_channel r)]) rs a
           | None \<Rightarrow>
               (case flush_users env users a of
                  (Inl e, a') \<Rightarrow> (Inl e, users, a')
                | (Inr _, a') \<Rightarrow>
                    (case handle_control env f a' of
                       (Inl e, a'') \<Rightarrow> (Inl e, [], a'')
                     | (Inr finished, a'') \<Rightarrow>
                         if finished then (Inr True, [], a'') else dispatch_records env [] rs a''))))"

definition active_batch ::
  "('t, 'v) association_env \<Rightarrow> transport_record list \<Rightarrow> ('v, bool) association_action"
where
  "active_batch env records a =
     (case dispatch_records env [] records a of (r, users, a') \<Rightarrow>
      case flush_users env users a' of
        (Inl e, a'') \<Rightarrow> (Inl e, a'')
      | (Inr _, a'') \<Rightarrow> (r, a''))"

abbreviation (input) ACTIVE_RECEIVE_BATCH :: nat where "ACTIVE_RECEIVE_BATCH \<equiv> 128"

definition next_records :: "('v, transport_record list) association_action" where
  "next_records a =
     (if as_deferred_records a \<noteq> []
      then let count = min ACTIVE_RECEIVE_BATCH (length (as_deferred_records a));
               records = take count (as_deferred_records a) in
        (Inr records, a\<lparr>as_deferred_records := drop count (as_deferred_records a),
                        as_deferred_bytes := as_deferred_bytes a - records_size records\<rparr>)
      else case tcp_receive_many (int ACTIVE_RECEIVE_BATCH) (as_connection a) of
             Inl e \<Rightarrow> (Inl (Raised e), a)
           | Inr (records, c) \<Rightarrow> (Inr records, a\<lparr>as_connection := c\<rparr>))"

text \<open>One pass; \<open>True\<close> when the loop ends. No records means that the wait timed out.\<close>

definition active_iteration :: "('t, 'v) association_env \<Rightarrow> ('v, bool) association_action" where
  "active_iteration env =
     abind (gets as_stop_requested) (\<lambda>stop.
     if stop then ret True
     else abind next_records (\<lambda>records. if records = [] then ret False else active_batch env records))"

section \<open>The end of an association\<close>

text \<open>The \<^verbatim>\<open>except\<close> clauses of \<^verbatim>\<open>_run\<close>.\<close>

definition close_with ::
  "('t, 'v) association_env \<Rightarrow> reason_code \<Rightarrow> pystr \<Rightarrow> ('v, unit) association_action"
where
  "close_with env reason detail =
     abind (send_terminal_best_effort env reason detail) (\<lambda>_. modify (set_close_reason (Some reason) detail))"

definition run_failed :: "('t, 'v) association_env \<Rightarrow> failure \<Rightarrow> ('v, unit) association_action" where
  "run_failed env failure =
     (case failure of
        HandshakeFailure reason detail reply \<Rightarrow>
          abind (gets as_accept) (\<lambda>accept.
          abind (if \<not> reply then ret ()
                 else if reason = RC_DUPLICATE_ASSOCIATION \<and> accept \<noteq> None
                 then send_terminal_best_effort env reason detail
                 else send_bootstrap_best_effort env (HelloReject reason detail 0)) (\<lambda>_.
            modify (set_close_reason (Some reason) detail)))
      | ProtocolFailure reason detail \<Rightarrow> close_with env reason detail
      | Raised e \<Rightarrow>
          (let detail = en_exn_text env e in
           if e = TransportFlowControlError then close_with env RC_FLOW_CONTROL_VIOLATION detail
           else if e = UnsupportedFrameError then close_with env RC_UNSUPPORTED_FRAME detail
           else if e = TransportProtocolError then close_with env RC_PROTOCOL_VIOLATION detail
           else if e = TransportClosedError \<or> e = TimeoutError then modify (set_close_reason None detail)
           else if is_wire_codec_error e \<or> e = ProtocolValidationError
           then close_with env RC_PROTOCOL_VIOLATION detail
           else modify (set_close_reason (Some RC_PROTOCOL_VIOLATION) detail)))"

text \<open>
  The \<^verbatim>\<open>finally\<close> clause: \<open>closed_in_time\<close> says whether the connection could be closed before the
  deadline; otherwise it is left to the runtime.
\<close>

definition run_finally :: "bool \<Rightarrow> 'v association \<Rightarrow> 'v association" where
  "run_finally closed_in_time a =
     (let a = a\<lparr>as_stop_requested := True\<rparr> in
      mark_closed (if closed_in_time
        then a\<lparr>as_connection := snd (tcp_terminate None (as_connection a))\<rparr> else a))"

text \<open>
  From a finished handshake to the receive loop: \<open>activated\<close> is the answer of
  \<^verbatim>\<open>RemotingRuntime._activate_association\<close>.
\<close>

definition become_active :: "('v association \<Rightarrow> bool) \<Rightarrow> ('v, bool) association_action" where
  "become_active activated =
     abind (ensure (\<lambda>a. cs_state (tcp_snapshot (as_connection a)) = CS_OPEN)
              (HandshakeFailure RC_PROTOCOL_VIOLATION
                (str ''transport failed before association activation'') False)) (\<lambda>_.
     abind (ensure activated
              (HandshakeFailure RC_DUPLICATE_ASSOCIATION
                (str ''a canonical duplicate association was retained'') True)) (\<lambda>_.
     abind (gets as_state) (\<lambda>state.
       if state \<noteq> AS_HANDSHAKING then ret False
       else abind (modify (\<lambda>a. a\<lparr>as_state := AS_ACTIVE\<rparr>)) (\<lambda>_. ret True))))"

record association_snapshot =
  sn_association_uid :: uuid
  sn_state :: association_state
  sn_close_reason :: "reason_code option"
  sn_close_detail :: "pystr option"
  sn_peer_system_name :: "pystr option"
  sn_peer_incarnation_uid :: "uuid option"
  sn_peer_endpoint :: "endpoint option"
  sn_lane_count :: "int option"
  sn_maximum_frame_bytes :: "int option"
  sn_sequence_violations_by_lane :: "int list option"
  sn_outbound_message_limit :: "int option"
  sn_outbound_byte_limit :: "int option"
  sn_inbound_message_limit :: "int option"
  sn_inbound_byte_limit :: "int option"
  sn_pending_outbound_messages :: int
  sn_pending_outbound_bytes :: int
  sn_pending_inbound_messages :: int
  sn_pending_inbound_bytes :: int
  sn_metrics :: association_metrics
  sn_reconnect_count :: int

definition as_snapshot :: "'v association \<Rightarrow> association_snapshot" where
  "as_snapshot a =
     (let transport = tcp_snapshot (as_connection a) in
      \<lparr>sn_association_uid = as_uid a, sn_state = as_state a, sn_close_reason = as_close_reason a,
       sn_close_detail = as_close_detail a, sn_peer_system_name = as_peer_system_name a,
       sn_peer_incarnation_uid = as_peer_incarnation_uid a, sn_peer_endpoint = as_peer_endpoint a,
       sn_lane_count = as_lane_count a,
       sn_maximum_frame_bytes = map_option a_maximum_frame_bytes (as_accept a),
       sn_sequence_violations_by_lane =
         (if as_accept a \<noteq> None then Some (as_violations_by_lane a) else None),
       sn_outbound_message_limit = as_outbound_message_limit a,
       sn_outbound_byte_limit = as_outbound_byte_limit a,
       sn_inbound_message_limit = as_inbound_message_limit a,
       sn_inbound_byte_limit = as_inbound_byte_limit a,
       sn_pending_outbound_messages = cs_pending_outbound_messages transport,
       sn_pending_outbound_bytes = cs_pending_outbound_bytes transport,
       sn_pending_inbound_messages = cs_pending_inbound_messages transport,
       sn_pending_inbound_bytes = cs_pending_inbound_bytes transport,
       sn_metrics = as_metrics a, sn_reconnect_count = as_reconnect_count a\<rparr>)"

end
