(* ===== verification/Association_Steps.thy ===== *)
theory Association_Steps
  imports Association_Active
begin

text \<open>
  An association as a system of interleaved steps: callers send and resolve, its own thread receives
  and closes, the threads of the connection work underneath. The step relation keeps a history of the
  resolution requests; the lemmas say which parts of the state each operation leaves alone and what
  invariants the steps keep.
\<close>

section \<open>Operations on the connection\<close>

definition ignores_connection :: "('v association \<Rightarrow> 'x) \<Rightarrow> bool" where
  "ignores_connection f \<longleftrightarrow> (\<forall>a c. f (a\<lparr>as_connection := c\<rparr>) = f a)"

lemma preserves_on_connection [preserves_intros]: "ignores_connection f \<Longrightarrow> preserves f (on_connection g)"
  by (auto simp: preserves_def ignores_connection_def on_connection_def split: sum.splits)

lemma preserves_send [preserves_intros]:
  assumes "ignores_connection f"
  shows "preserves f (send_payload_locked r)" "preserves f (connection_send r)"
    "preserves f (send_frame env x b e)" "preserves f (send_terminal env x)"
    "preserves f (send_control_best_effort env x)" "preserves f (send_bootstrap_best_effort env x)"
    "preserves f (send_terminal_best_effort env reason detail)"
  unfolding send_payload_locked_def connection_send_def send_frame_def send_terminal_def best_effort_def
    send_control_best_effort_def send_bootstrap_best_effort_def send_terminal_best_effort_def
  using assms by (intro preserves_intros; simp)+

text \<open>Functions of the state that the counters, the runtime calls and the connection do not affect.\<close>

definition core_view ::
  "'v association \<Rightarrow> (int list \<times> (int \<times> serializer_route) list \<times> (int \<times> int) list \<times> int option \<times> uuid option)"
where
  "core_view a = (as_inbound_sequences a, as_receive_routes a, as_serializer_minors a, as_lane_count a,
     as_peer_incarnation_uid a)"

definition pending_view ::
  "'v association \<Rightarrow> (int \<times> pending_resolve) list \<times> (nat \<times> (pystr + frame)) list \<times> nat \<times> int \<times> uuid option"
where
  "pending_view a = (as_pending a, as_completed a, as_next_ticket a, as_next_correlation_id a,
     as_peer_incarnation_uid a)"

definition close_view ::
  "'v association \<Rightarrow> association_state \<times> reason_code option \<times> pystr option \<times> pystr option \<times> bool"
where
  "close_view a = (as_state a, as_close_reason a, as_close_detail a, as_handshake_error a, as_closed_notified a)"

lemma views_ignore_connection [simp]:
  "ignores_connection core_view" "ignores_connection pending_view" "ignores_connection close_view"
  "ignores_connection as_calls"
  by (simp_all add: ignores_connection_def core_view_def pending_view_def close_view_def)

lemma increment_many_views [simp]:
  "core_view (increment_many b ms a) = core_view a" "pending_view (increment_many b ms a) = pending_view a"
  "close_view (increment_many b ms a) = close_view a"
  "core_view (increment_sequence_violation l a) = core_view a"
  "pending_view (increment_sequence_violation l a) = pending_view a"
  "close_view (increment_sequence_violation l a) = close_view a"
  "core_view (as_call c a) = core_view a" "pending_view (as_call c a) = pending_view a"
  "close_view (as_call c a) = close_view a"
  by (simp_all add: increment_many_def increment_sequence_violation_def as_call_def core_view_def
      pending_view_def close_view_def Let_def)

lemma view_updates [simp]:
  "core_view (a\<lparr>as_outbound_sequences := x\<rparr>) = core_view a"
  "pending_view (a\<lparr>as_outbound_sequences := x\<rparr>) = pending_view a"
  "close_view (a\<lparr>as_outbound_sequences := x\<rparr>) = close_view a"
  "core_view (a\<lparr>as_stop_requested := b\<rparr>) = core_view a"
  "pending_view (a\<lparr>as_stop_requested := b\<rparr>) = pending_view a"
  "close_view (a\<lparr>as_stop_requested := b\<rparr>) = close_view a"
  "core_view (a\<lparr>as_next_correlation_id := n\<rparr>) = core_view a"
  "close_view (a\<lparr>as_next_correlation_id := n\<rparr>) = close_view a"
  "core_view (a\<lparr>as_pending := p, as_next_ticket := t\<rparr>) = core_view a"
  "close_view (a\<lparr>as_pending := p, as_next_ticket := t\<rparr>) = close_view a"
  "core_view (drop_pending i a) = core_view a" "close_view (drop_pending i a) = close_view a"
  "as_calls (drop_pending i a) = as_calls a"
  "core_view (a\<lparr>as_inbound_requests := q\<rparr>) = core_view a"
  "pending_view (a\<lparr>as_inbound_requests := q\<rparr>) = pending_view a"
  "close_view (a\<lparr>as_inbound_requests := q\<rparr>) = close_view a"
  "pending_view (consume_sequence m a) = pending_view a" "close_view (consume_sequence m a) = close_view a"
  "as_calls (consume_sequence m a) = as_calls a"
  "core_view (complete t r a) = core_view a" "close_view (complete t r a) = close_view a"
  "as_calls (complete t r a) = as_calls a"
  "core_view (transition_to_closing_locked d a) = core_view a"
  "pending_view (transition_to_closing_locked d a) = pending_view a"
  "as_calls (transition_to_closing_locked d a) = as_calls a"
  "core_view (a\<lparr>as_close_reason := r', as_close_detail := e\<rparr>) = core_view a"
  "pending_view (a\<lparr>as_close_reason := r', as_close_detail := e\<rparr>) = pending_view a"
  "core_view (set_close_reason o' d' a) = core_view a" "pending_view (set_close_reason o' d' a) = pending_view a"
  "as_calls (set_close_reason o' d' a) = as_calls a"
  by (simp_all add: core_view_def pending_view_def close_view_def drop_pending_def consume_sequence_def
      complete_def transition_to_closing_locked_def set_close_reason_def Let_def)

section \<open>What the operations leave alone\<close>

lemma require_active_preserves [preserves_intros]: "preserves f (require_active e)"
  unfolding require_active_def by (intro preserves_intros)

lemma request_close_preserves [preserves_intros]:
  "preserves core_view (request_close env reason detail n)"
  "preserves pending_view (request_close env reason detail n)"
  "preserves as_calls (request_close env reason detail n)"
  unfolding request_close_def
  by (intro preserves_intros; simp)+

lemma admit_outbound_preserves [preserves_intros]:
  "preserves core_view (admit_outbound current l payload)"
  "preserves pending_view (admit_outbound current l payload)"
  "preserves close_view (admit_outbound current l payload)"
  unfolding admit_outbound_def send_if_current_def by (intro preserves_intros; simp)+

lemma send_user_message_preserves [preserves_intros]:
  "preserves core_view (send_user_message env current recipient message)"
  "preserves pending_view (send_user_message env current recipient message)"
  unfolding send_user_message_def
  by (intro preserves_intros; simp)+

lemma resolve_preserves [preserves_intros]:
  "preserves core_view (resolve_reserve path)" "preserves close_view (resolve_reserve path)"
  "preserves as_calls (resolve_reserve path)"
  "preserves core_view (resolve_send env i path)" "preserves close_view (resolve_send env i path)"
  "preserves as_calls (resolve_send env i path)"
  "preserves core_view (resolve_timeout env t i)" "preserves as_calls (resolve_timeout env t i)"
proof -
  have new_id: "(\<And>a n. f (a\<lparr>as_next_correlation_id := n\<rparr>) = f a) \<Longrightarrow> preserves f new_correlation_id_locked"
    for f :: "'v association \<Rightarrow> 'x"
    by (simp add: preserves_def new_correlation_id_locked_def split: prod.splits option.splits)
  show "preserves core_view (resolve_reserve path)" "preserves close_view (resolve_reserve path)"
    "preserves as_calls (resolve_reserve path)"
    unfolding resolve_reserve_def
    by (intro preserves_intros new_id; simp)+
qed (unfold resolve_send_def resolve_timeout_def peer_system_name_or_raise_def,
    (intro preserves_intros; simp)+)

section \<open>The inbound sequence numbers that were dealt with\<close>

text \<open>
  A user message is dealt with when it is offered to the actor system or published as a dead letter
  with its payload's metadata; advisories of the peer carry no such metadata.
\<close>

definition place :: "delivery_metadata \<Rightarrow> int \<times> int" where
  "place md = (dm_lane_id md, dm_lane_sequence md)"

fun offered :: "'v runtime_call list \<Rightarrow> (int \<times> int) list" where
  "offered [] = []"
| "offered (AdmitRemoteMessage _ _ md _ # calls) = place md # offered calls"
| "offered (_ # calls) = offered calls"

fun rejected :: "'v runtime_call list \<Rightarrow> (int \<times> int) list" where
  "rejected [] = []"
| "rejected (PublishDeadLetter _ _ md # calls) =
     (if dm_serializer_id md = None then rejected calls else place md # rejected calls)"
| "rejected (_ # calls) = rejected calls"

lemma offered_append [simp]: "offered (xs @ ys) = offered xs @ offered ys"
  by (induction xs rule: offered.induct) simp_all

lemma rejected_append [simp]: "rejected (xs @ ys) = rejected xs @ rejected ys"
  by (induction xs rule: rejected.induct) simp_all

definition on_lane :: "int \<Rightarrow> (int \<times> int) list \<Rightarrow> int list" where
  "on_lane l places = [s. (k, s) \<leftarrow> places, k = l]"

lemma on_lane_simps [simp]:
  "on_lane l [] = []" "on_lane l (xs @ ys) = on_lane l xs @ on_lane l ys"
  "on_lane l ((k, s) # xs) = (if k = l then s # on_lane l xs else on_lane l xs)"
  by (simp_all add: on_lane_def)

definition delivery_view :: "'v association \<Rightarrow> (int \<times> int) list \<times> (int \<times> int) list" where
  "delivery_view a = (offered (as_calls a), rejected (as_calls a))"

lemma delivery_view_simps [simp]:
  "ignores_connection delivery_view"
  "delivery_view (increment_many b ms a) = delivery_view a"
  "delivery_view (increment_sequence_violation l a) = delivery_view a"
  "delivery_view (a\<lparr>as_outbound_sequences := x\<rparr>) = delivery_view a"
  "delivery_view (a\<lparr>as_inbound_requests := q\<rparr>) = delivery_view a"
  "delivery_view (consume_sequence m a) = delivery_view a"
  by (simp_all add: delivery_view_def ignores_connection_def increment_many_def increment_sequence_violation_def
      as_call_def consume_sequence_def Let_def)

lemma preserves_delivery_of_calls: "preserves as_calls m \<Longrightarrow> preserves delivery_view m"
  by (simp add: preserves_def delivery_view_def)

lemma admit_outbound_delivery [preserves_intros]: "preserves delivery_view (admit_outbound current l payload)"
  unfolding admit_outbound_def send_if_current_def by (intro preserves_intros; simp)

lemma request_close_delivery [preserves_intros]: "preserves delivery_view (request_close env reason detail n)"
  by (intro preserves_delivery_of_calls preserves_intros)

lemma send_user_message_delivery: "preserves delivery_view (send_user_message env current recipient message)"
  unfolding send_user_message_def by (intro preserves_intros; simp)

section \<open>Preparing one user message\<close>

text \<open>What negotiation leaves behind, so that no unforeseen exception escapes from deserialization.\<close>

definition receive_ready :: "('t, 'v) association_env \<Rightarrow> 'v association \<Rightarrow> bool" where
  "receive_ready env a \<longleftrightarrow> en_incarnation_uid env \<noteq> 0
     \<and> (\<forall>sid \<in> fst ` set (as_receive_routes a). \<exists>minor. map_of (as_serializer_minors a) sid = Some minor
          \<and> (\<forall>r. map_of (rg_registrations (rc_serializers (en_config env))) sid = Some r
               \<longrightarrow> registry_uint minor (sd_protocol_minor (rn_descriptor r)) False \<in> range Inr))"

lemma receive_ready_core: "core_view a = core_view a' \<Longrightarrow> receive_ready env a = receive_ready env a'"
  by (simp add: receive_ready_def core_view_def)

lemma deserialize_inbound_exn:
  assumes "receive_ready env a" "map_of (as_receive_routes a) (um_serializer_id m) = Some route"
    and "deserialize_inbound env m a = Inl e"
  shows "e \<in> {UnknownSerializerError, UnsupportedManifestError, DeserializationError}"
proof -
  have "um_serializer_id m \<in> fst ` set (as_receive_routes a)" using map_of_SomeD [OF assms(2)] by force
  then obtain minor where "map_of (as_serializer_minors a) (um_serializer_id m) = Some minor"
      "\<And>r. map_of (rg_registrations (rc_serializers (en_config env))) (um_serializer_id m) = Some r
        \<Longrightarrow> registry_uint minor (sd_protocol_minor (rn_descriptor r)) False \<in> range Inr"
    using assms(1) unfolding receive_ready_def by blast
  then show ?thesis using assms(3)
    by (auto simp: deserialize_inbound_def registry_deserialize_def result_simps Let_def
        split: option.splits)
qed

lemma check_user_message_cases:
  assumes "check_user_message env m channel a = (r, a')"
  shows "core_view a' = core_view a \<and> delivery_view a' = delivery_view a"
    and "r = Inr u \<Longrightarrow> a' = a \<and> um_association_uid m = as_uid a
      \<and> nat (um_lane_id m) < length (as_inbound_sequences a)
      \<and> um_lane_sequence m = as_inbound_sequences a ! nat (um_lane_id m)
      \<and> map_of (as_receive_routes a) (um_serializer_id m) \<noteq> None"
  using assms unfolding check_user_message_def
  by (auto simp: gets_bind action_defs split: option.splits if_splits prod.splits)

lemma control_best_effort:
  assumes "send_control_best_effort env f a = (r, a')"
  shows "r = Inr ()" "ignores_connection g \<Longrightarrow> g a' = g a"
proof -
  show "r = Inr ()" using assms
    by (auto simp: send_control_best_effort_def best_effort_def attempt_def ret_def split: prod.splits sum.splits)
  show "ignores_connection g \<Longrightarrow> g a' = g a" using preservesD [OF preserves_send(5) assms] .
qed

lemma reject_payload_effect:
  assumes "reject_payload env identity m e a = (r, a')"
  shows "r = Inr ()" "core_view a' = core_view a"
    "offered (as_calls a') = offered (as_calls a)"
    "rejected (as_calls a') = rejected (as_calls a) @ [(um_lane_id m, um_lane_sequence m)]"
proof -
  obtain v b where b: "send_control_best_effort env (DeserializationRejected v) b = (r, a')"
      "core_view b = core_view a" "offered (as_calls b) = offered (as_calls a)"
      "rejected (as_calls b) = rejected (as_calls a) @ [(um_lane_id m, um_lane_sequence m)]"
    using assms by (auto simp: reject_payload_def modify_bind gets_bind increment_many_def as_call_def
        metadata_of_def place_def core_view_def)
  note effect = control_best_effort [OF b(1)]
  show "r = Inr ()" "core_view a' = core_view a" "offered (as_calls a') = offered (as_calls a)"
    "rejected (as_calls a') = rejected (as_calls a) @ [(um_lane_id m, um_lane_sequence m)]"
    using effect(1) effect(2) [of core_view] effect(2) [of as_calls] b by simp_all
qed

definition prepared_place :: "'v prepared \<Rightarrow> int \<times> int" where
  "prepared_place p = place (fst (snd (snd p)))"

lemma prepare_user_message_cases:
  assumes "prepare_user_message env m channel a = (r, a')" "receive_ready env a" "um_recipient_actor_uid m \<noteq> 0"
  obtains (failed) e where "r = Inl e" "core_view a' = core_view a" "delivery_view a' = delivery_view a"
  | (dropped) "r = Inr None" "core_view a' = core_view (consume_sequence m a)"
      "offered (as_calls a') = offered (as_calls a)"
      "rejected (as_calls a') = rejected (as_calls a) @ [(um_lane_id m, um_lane_sequence m)]"
      "nat (um_lane_id m) < length (as_inbound_sequences a)"
      "um_lane_sequence m = as_inbound_sequences a ! nat (um_lane_id m)"
  | (ready) p where "r = Inr (Some p)" "prepared_place p = (um_lane_id m, um_lane_sequence m)"
      "core_view a' = core_view (consume_sequence m a)" "delivery_view a' = delivery_view a"
      "nat (um_lane_id m) < length (as_inbound_sequences a)"
      "um_lane_sequence m = as_inbound_sequences a ! nat (um_lane_id m)"
proof -
  obtain c b where check: "check_user_message env m channel a = (c, b)" by fastforce
  show thesis
  proof (cases c)
    case (Inl e)
    then show thesis using assms(1) check check_user_message_cases(1) [OF check] failed
      by (auto simp: prepare_user_message_def)
  next
    case (Inr u)
    note facts = check_user_message_cases(2) [OF check Inr]
    have "actor_identity_init (en_incarnation_uid env) (um_recipient_actor_uid m)
        = Inr \<lparr>ai_system_incarnation_uid = en_incarnation_uid env, ai_actor_uid = um_recipient_actor_uid m\<rparr>"
      (is "_ = Inr ?identity")
      using assms(2,3) by (simp add: actor_identity_init_def receive_ready_def)
    then have run: "prepare_user_message env m channel a =
        (case deserialize_inbound env m (consume_sequence m a) of
           Inl e \<Rightarrow> if e \<in> {UnknownSerializerError, UnsupportedManifestError, DeserializationError}
             then abind (reject_payload env ?identity m e) (\<lambda>_. ret None) else raise (Raised e)
         | Inr v \<Rightarrow> gets (\<lambda>a. Some (?identity, v, metadata_of m a, m))) (consume_sequence m a)"
      using check Inr facts by (simp add: prepare_user_message_def modify_bind gets_bind lift_result_def split: sum.splits)
    show thesis
    proof (cases "deserialize_inbound env m (consume_sequence m a)")
      case (Inl e)
      have "receive_ready env (consume_sequence m a)"
          "map_of (as_receive_routes (consume_sequence m a)) (um_serializer_id m) \<noteq> None"
        using assms(2) facts by (simp_all add: receive_ready_def consume_sequence_def)
      then have "e \<in> {UnknownSerializerError, UnsupportedManifestError, DeserializationError}"
        using deserialize_inbound_exn Inl by blast
      moreover obtain x t where reject: "reject_payload env ?identity m e (consume_sequence m a) = (x, t)" by fastforce
      ultimately have "r = Inr None" "a' = t"
        using assms(1) run Inl reject_payload_effect(1) [OF reject] reject by (auto simp: ret_def)
      then show thesis using dropped reject_payload_effect [OF reject] facts by simp
    next
      case (Inr v)
      then have result: "r = Inr (Some (?identity, v, metadata_of m (consume_sequence m a), m))"
          "a' = consume_sequence m a"
        using assms(1) run by (auto simp: gets_def)
      show thesis
        by (rule ready [OF result(1)])
           (use facts result(2) in \<open>simp_all add: prepared_place_def metadata_of_def place_def\<close>)
    qed
  qed
qed

section \<open>Every message once, in order\<close>

text \<open>
  \<open>accounted sequences offered rejected\<close>: the messages dealt with on a lane are exactly those below the
  lane's counter, each once, and those offered to the actor system came in order.
\<close>

definition accounted :: "int list \<Rightarrow> (int \<times> int) list \<Rightarrow> (int \<times> int) list \<Rightarrow> bool" where
  "accounted sequences off rej \<longleftrightarrow>
     (\<forall>l < length sequences. 0 \<le> sequences ! l
        \<and> mset (on_lane (int l) off) + mset (on_lane (int l) rej) = mset [0..sequences ! l - 1]
        \<and> sorted_wrt (<) (on_lane (int l) off))"

lemma accounted_below:
  assumes "accounted sequences off rej" "l < length sequences" "s \<in> set (on_lane (int l) off)"
  shows "s < sequences ! l"
proof -
  have "s \<in># mset [0..sequences ! l - 1]"
    using assms unfolding accounted_def by (metis in_multiset_in_set union_iff)
  then show ?thesis by simp
qed

lemma accounted_next:
  assumes "accounted sequences off rej" "nat k < length sequences" "0 \<le> k" "s = sequences ! nat k"
  shows "accounted (sequences[nat k := s + 1]) (off @ [(k, s)]) rej"
    and "accounted (sequences[nat k := s + 1]) off (rej @ [(k, s)])"
proof -
  have upto: "mset [0..s] = add_mset s (mset [0..s - 1])"
    using assms unfolding accounted_def by (simp add: upto_rec2)
  have lane: "int l = k \<longleftrightarrow> l = nat k" for l using assms(3) by auto
  show "accounted (sequences[nat k := s + 1]) off (rej @ [(k, s)])"
    using assms upto unfolding accounted_def by (auto simp: nth_list_update lane)
  have "sorted_wrt (<) (on_lane k off @ [s])"
    using assms accounted_below [OF assms(1,2)] unfolding accounted_def by (auto simp: sorted_wrt_append)
  then show "accounted (sequences[nat k := s + 1]) (off @ [(k, s)]) rej"
    using assms upto unfolding accounted_def by (auto simp: nth_list_update lane)
qed

abbreviation (input) places_of :: "'v prepared list \<Rightarrow> (int \<times> int) list" where
  "places_of ps \<equiv> map prepared_place ps"

definition wire_user_message :: "user_message \<Rightarrow> bool" where
  "wire_user_message m \<longleftrightarrow> 0 \<le> um_lane_id m \<and> um_recipient_actor_uid m \<noteq> 0"

text \<open>The invariant while \<open>waiting\<close> messages are prepared and not yet offered.\<close>

definition receive_inv :: "('t, 'v) association_env \<Rightarrow> (int \<times> int) list \<Rightarrow> 'v association \<Rightarrow> bool" where
  "receive_inv env waiting a \<longleftrightarrow> receive_ready env a
     \<and> accounted (as_inbound_sequences a) (offered (as_calls a) @ waiting) (rejected (as_calls a))"

lemma receive_inv_views:
  "core_view a = core_view a' \<Longrightarrow> delivery_view a = delivery_view a' \<Longrightarrow> receive_inv env w a = receive_inv env w a'"
  using receive_ready_core [of a a' env] by (simp add: receive_inv_def core_view_def delivery_view_def)

lemma consume_core:
  assumes "core_view a' = core_view (consume_sequence m a)"
  shows "as_inbound_sequences a' = (as_inbound_sequences a)[nat (um_lane_id m) := um_lane_sequence m + 1]"
    "receive_ready env a' = receive_ready env a"
  using assms by (simp_all add: core_view_def consume_sequence_def receive_ready_def)

lemma prepare_all_inv:
  assumes "prepare_all env frames a = (r, ps, a')" "receive_inv env waiting a"
    and "\<forall>(m, c) \<in> set frames. wire_user_message m"
  shows "receive_inv env (waiting @ places_of ps) a'"
  using assms
proof (induction frames arbitrary: waiting a r ps)
  case (Cons frame frames)
  obtain m channel where frame: "frame = (m, channel)" by (cases frame)
  have m: "wire_user_message m" and rest: "\<forall>(m, c) \<in> set frames. wire_user_message m"
    using Cons.prems(3) by (simp_all add: frame)
  obtain q b where q: "prepare_user_message env m channel a = (q, b)" by fastforce
  have ready: "receive_ready env a"
      "accounted (as_inbound_sequences a) (offered (as_calls a) @ waiting) (rejected (as_calls a))"
    using Cons.prems(2) by (simp_all add: receive_inv_def)
  note next' = accounted_next [OF ready(2), of "um_lane_id m" "um_lane_sequence m"]
  have "um_recipient_actor_uid m \<noteq> 0" "0 \<le> um_lane_id m" using m by (simp_all add: wire_user_message_def)
  from q ready(1) this(1) show ?case
  proof (cases rule: prepare_user_message_cases)
    case (failed e)
    then have "receive_inv env waiting b" using Cons.prems(2) receive_inv_views by metis
    then show ?thesis using Cons.prems(1) q failed(1) by (simp add: frame)
  next
    case dropped
    then have "receive_inv env waiting b"
      using next'(2) \<open>0 \<le> um_lane_id m\<close> ready(1) by (simp add: receive_inv_def consume_core)
    then show ?thesis using Cons.IH [OF _ _ rest] Cons.prems(1) q dropped(1)
      by (auto simp: frame split: prod.splits)
  next
    case (ready p)
    then have "receive_inv env (waiting @ [prepared_place p]) b"
      using next'(1) \<open>0 \<le> um_lane_id m\<close> Cons.prems(2)
      by (simp add: receive_inv_def consume_core delivery_view_def)
    then show ?thesis using Cons.IH [of b _ _ "waiting @ [prepared_place p]", OF _ _ rest] Cons.prems(1) q ready(1)
      by (auto simp: frame split: prod.splits)
  qed
qed simp

lemma decoded_user_message:
  assumes "decode_frame nfc data maximum kind = Inr (UserMessage m)"
  shows "wire_user_message m"
  using frame_codec_encode_decode(2) [OF assms]
  by (auto simp: encode_frame_Inr encode_generic_Inr encode_user_message_body_Inr
      user_message_ok_def wire_user_message_def result_simps)

lemma admit_one_effect:
  assumes "admit_one env p a = (r, a')"
  shows "r \<in> range Inr" "core_view a' = core_view a"
    "offered (as_calls a') = offered (as_calls a) @ [prepared_place p]" "rejected (as_calls a') = rejected (as_calls a)"
proof -
  obtain identity v md m where p: "p = (identity, v, md, m)" by (cases p)
  let ?result = "en_admit env (as_calls a) identity v"
  let ?b = "as_call (AdmitRemoteMessage identity v md ?result) a"
  have b: "core_view ?b = core_view a" "offered (as_calls ?b) = offered (as_calls a) @ [prepared_place p]"
      "rejected (as_calls ?b) = rejected (as_calls a)"
    by (simp_all add: as_call_def p prepared_place_def core_view_def)
  have "r \<in> range Inr \<and> core_view a' = core_view ?b \<and> delivery_view a' = delivery_view ?b"
  proof (cases "?result = AR_ACCEPTED")
    case True
    then show ?thesis using assms by (auto simp: admit_one_def p gets_bind modify_bind ret_def)
  next
    case False
    then obtain w c where c: "abind (send_control_best_effort env (RecipientUnavailable w)) (\<lambda>_. ret 0) c = (r, a')"
        "core_view c = core_view ?b" "delivery_view c = delivery_view ?b"
      using assms by (auto simp: admit_one_def p gets_bind modify_bind)
    obtain x t where t: "send_control_best_effort env (RecipientUnavailable w) c = (x, t)" by fastforce
    then have "r = Inr 0" "a' = t" using c(1) control_best_effort(1) [OF t] by (auto simp: ret_def)
    then show ?thesis using control_best_effort(2) [OF t, of core_view] control_best_effort(2) [OF t, of delivery_view] c
      by simp
  qed
  then show "r \<in> range Inr" "core_view a' = core_view a"
    "offered (as_calls a') = offered (as_calls a) @ [prepared_place p]" "rejected (as_calls a') = rejected (as_calls a)"
    using b by (simp_all add: delivery_view_def)
qed

lemma admit_each_effect:
  assumes "admit_each env ps n a = (r, a')"
  shows "r \<in> range Inr \<and> core_view a' = core_view a
    \<and> offered (as_calls a') = offered (as_calls a) @ places_of ps \<and> rejected (as_calls a') = rejected (as_calls a)"
  using assms
proof (induction ps arbitrary: n a)
  case (Cons p ps)
  obtain x b where b: "admit_one env p a = (x, b)" by fastforce
  note effect = admit_one_effect [OF b]
  then show ?case using Cons.IH [of _ b] Cons.prems b by auto
qed (auto simp: ret_def)

lemma admit_prepared_effect:
  assumes "admit_prepared_user_messages env ps a = (r, a')"
  shows "r = Inr ()" "core_view a' = core_view a"
    "offered (as_calls a') = offered (as_calls a) @ places_of ps" "rejected (as_calls a') = rejected (as_calls a)"
proof -
  obtain x b where b: "admit_each env ps 0 a = (x, b)" by fastforce
  note effect = admit_each_effect [OF b]
  then obtain n where x: "x = Inr n" by auto
  have calls: "offered (as_calls (increment_many True ms b)) = offered (as_calls b)"
    "rejected (as_calls (increment_many True ms b)) = rejected (as_calls b)" for ms
    using delivery_view_simps(2) [of True ms b] by (simp_all add: delivery_view_def)
  show "r = Inr ()" "core_view a' = core_view a"
    "offered (as_calls a') = offered (as_calls a) @ places_of ps" "rejected (as_calls a') = rejected (as_calls a)"
    using assms b x effect calls
    by (auto simp: admit_prepared_user_messages_def ret_def modify_def split: if_splits)
qed

abbreviation (input) wire_users :: "(user_message \<times> logical_channel) list \<Rightarrow> bool" where
  "wire_users users \<equiv> \<forall>(m, c) \<in> set users. wire_user_message m"

lemma handle_user_messages_inv:
  assumes "handle_user_messages env frames a = (r, a')" "receive_inv env [] a" "wire_users frames"
  shows "receive_inv env [] a'"
proof -
  obtain x ps b where b: "prepare_all env frames a = (x, ps, b)" by (metis prod.exhaust)
  obtain y c where c: "admit_prepared_user_messages env ps b = (y, c)" by fastforce
  have "receive_inv env (places_of ps) b" using prepare_all_inv [OF b assms(2,3)] by simp
  then have "receive_inv env [] c"
    using admit_prepared_effect [OF c] receive_ready_core [of c b env]
    by (simp add: receive_inv_def core_view_def)
  then show ?thesis using assms(1) b c admit_prepared_effect(1) [OF c] by (simp add: handle_user_messages_def)
qed

lemma flush_users_inv:
  "flush_users env users a = (r, a') \<Longrightarrow> receive_inv env [] a \<Longrightarrow> wire_users users \<Longrightarrow> receive_inv env [] a'"
  by (auto simp: flush_users_def ret_def handle_user_messages_inv split: if_splits)

section \<open>The receive loop keeps the account\<close>

lemma control_handlers_preserve [preserves_intros]:
  "preserves core_view (handle_resolve_request env i system path)"
  "preserves delivery_view (handle_resolve_request env i system path)"
  "preserves close_view (handle_resolve_request env i system path)"
  "preserves pending_view (handle_resolve_request env i system path)"
  "preserves core_view (handle_resolve_result f)" "preserves as_calls (handle_resolve_result f)"
  "preserves close_view (handle_resolve_result f)"
  "preserves core_view (handle_advisory u v)" "preserves delivery_view (handle_advisory u v)"
  "preserves close_view (handle_advisory u v)" "preserves pending_view (handle_advisory u v)"
proof -
  have dead: "delivery_view (as_call (PublishDeadLetter i' reason \<lparr>dm_association_uid = u', dm_lane_id = l,
      dm_lane_sequence = s, dm_serializer_id = None, dm_manifest = None, dm_payload_byte_length = None\<rparr>) a)
      = delivery_view a" for i' reason u' l s and a :: "'v association"
    by (simp add: delivery_view_def as_call_def)
  show "preserves core_view (handle_advisory u v)" "preserves delivery_view (handle_advisory u v)"
    "preserves close_view (handle_advisory u v)" "preserves pending_view (handle_advisory u v)"
    unfolding handle_advisory_def by (intro preserves_intros; simp add: dead)+
  show "preserves core_view (handle_resolve_request env i system path)"
    "preserves delivery_view (handle_resolve_request env i system path)"
    "preserves close_view (handle_resolve_request env i system path)"
    "preserves pending_view (handle_resolve_request env i system path)"
    unfolding handle_resolve_request_def resolve_response_def by (intro preserves_intros; simp)+
  show "preserves core_view (handle_resolve_result f)" "preserves as_calls (handle_resolve_result f)"
    "preserves close_view (handle_resolve_result f)"
    unfolding handle_resolve_result_def
    by (cases f; simp; intro preserves_intros; simp)+
qed

lemma handle_control_inv:
  assumes "handle_control env f a = (r, a')" "receive_inv env [] a"
  shows "receive_inv env [] a'"
proof -
  have "preserves core_view (handle_control env f)" "preserves delivery_view (handle_control env f)"
    unfolding handle_control_def
    by (cases f; simp; intro preserves_intros preserves_delivery_of_calls; simp add: delivery_view_def)+
  then show ?thesis using assms receive_inv_views [of a' a env "[]"] preservesD by metis
qed

lemma dispatch_records_inv:
  assumes "dispatch_records env users records a = (r, users', a')" "receive_inv env [] a" "wire_users users"
  shows "receive_inv env [] a' \<and> wire_users users'"
  using assms
proof (induction env users records a rule: dispatch_records.induct)
  case (2 env users r rs a)
  show ?case
  proof (cases "decode_frame (en_nfc env) (tr_payload r) (as_maximum_frame_bytes a) (Some (ch_kind (tr_channel r)))")
    case (Inl e)
    then show ?thesis using 2 by simp
  next
    case (Inr f)
    show ?thesis
    proof (cases "user_message_of f")
      case (Some m)
      then have "f = UserMessage m" by (simp add: user_message_of_def split: frame.splits)
      then have "wire_user_message m" using decoded_user_message Inr by blast
      then show ?thesis using "2.IH"(2) [OF Inr Some] "2.prems" Inr Some by simp
    next
      case None
      obtain x b where b: "flush_users env users a = (x, b)" by fastforce
      then have inv: "receive_inv env [] b" using flush_users_inv "2.prems" by blast
      obtain y c where c: "handle_control env f b = (y, c)" by fastforce
      have inv': "receive_inv env [] c" using handle_control_inv [OF c inv] .
      note run = "2.prems"(1) [unfolded dispatch_records.simps Inr sum.case None option.case b prod.case]
      show ?thesis
      proof (cases x)
        case (Inl e)
        then show ?thesis using run inv "2.prems"(3) by simp
      next
        case x: (Inr u)
        note run' = run [unfolded x sum.case c prod.case]
        show ?thesis
        proof (cases y)
          case (Inl e)
          then show ?thesis using run' inv' by simp
        next
          case y: (Inr finished)
          then show ?thesis using run' inv' "2.IH"(1) [OF Inr None b [symmetric] x c [symmetric] y]
            by (cases finished) simp_all
        qed
      qed
    qed
  qed
qed simp

lemma active_iteration_inv:
  assumes "active_iteration env a = (r, a')" "receive_inv env [] a"
  shows "receive_inv env [] a'"
proof -
  have batch: "receive_inv env [] c" if run: "active_batch env records b = (x, c)" "receive_inv env [] b" for records b x c
  proof -
    obtain y users d where d: "dispatch_records env [] records b = (y, users, d)" by (metis prod.exhaust)
    have inv: "receive_inv env [] d" "wire_users users" using dispatch_records_inv [OF d run(2)] by simp_all
    obtain z e where e: "flush_users env users d = (z, e)" by fastforce
    have "receive_inv env [] e" using flush_users_inv [OF e inv] .
    then show ?thesis using run(1) d e by (cases z) (simp_all add: active_batch_def)
  qed
  obtain x b where b: "next_records a = (x, b)" by fastforce
  then have "core_view b = core_view a" "delivery_view b = delivery_view a"
    by (auto simp: next_records_def core_view_def delivery_view_def Let_def split: if_splits sum.splits prod.splits)
  then have "receive_inv env [] b" using receive_inv_views assms(2) by blast
  then show ?thesis using assms b batch
    by (cases x) (auto simp: active_iteration_def gets_bind ret_def split: if_splits)
qed

end
