(* ===== verification/Association_System.thy ===== *)
theory Association_System
  imports Association_Steps
begin

text \<open>
  An association between its handshake and its end as a system of interleaved steps: callers send
  and resolve, its own thread receives and closes, the threads of the connection work underneath. A
  history of the resolution requests is kept beside the state. The invariants: every inbound message
  is dealt with once and in lane order, the first reason to close stands, every resolution request is
  waiting, answered or given up by its caller.
\<close>

section \<open>What a handshake leaves behind\<close>

lemma r_many_each:
  "r_many n m bs = Inr (xs, rest) \<Longrightarrow> x \<in> set xs \<Longrightarrow> \<exists>b r. m b = Inr (x, r)"
  by (induction n arbitrary: bs xs) (fastforce simp: r_return_def r_bind_Inr)+

lemma decoded_hello_descriptors:
  assumes "decode_frame nfc data maximum kind = Inr (Hello h)"
  shows "\<forall>d \<in> set (h_serializers h). valid_descriptor nfc d"
proof
  fix d assume d: "d \<in> set (h_serializers h)"
  obtain t n c body where "decode_body nfc (header_of t n c) body = Inr (Hello h)"
    using assms by (auto simp: decode_frame_Inr)
  moreover from this have "t = FT_HELLO" using encode_body_decode_body(1) by fastforce
  ultimately obtain bs rest c' where "decode_hello nfc c' bs = Inr (h, rest)"
    by (auto simp: decode_body_Inr_iff r_bind_Inr r_return_def)
  then obtain bs' rest' where "read_descriptors nfc bs' = Inr (h_serializers h, rest')"
    by (auto simp: decode_hello_def r_bind_Inr r_return_def)
  then show "valid_descriptor nfc d"
    using d r_many_each read_descriptor_valid by (fastforce simp: read_descriptors_def r_bind_Inr)
qed

lemma dict_of_keys: "fst ` set (dict_of items) = fst ` set items"
proof -
  have "fst ` set (foldl (\<lambda>d (k, x). AList.update k x d) d items) = fst ` set d \<union> fst ` set items" for d
    by (induction items arbitrary: d) (simp_all add: dom_update case_prod_beta)
  then show ?thesis by (simp add: dict_of_def)
qed

lemma accept_of_routes: "a_serializer_routes (accept_of i uid local peer routes capabilities) = routes"
  by (simp add: accept_of_def Let_def)

lemma negotiated_route_minor:
  assumes "\<forall>d \<in> set A. valid_descriptor nfc d" "\<forall>d \<in> set B. valid_descriptor nfc d"
    and "negotiate_serializers nfc u A v B = Inr n" "r \<in> set (sn_routes n)"
  obtains a b where "a \<in> set A" "b \<in> set B" "sd_serializer_id a = sr_serializer_id r"
    "map_of (dict_of (map (\<lambda>n. (ns_serializer_id n, ns_protocol_minor n)) (sn_serializers n))) (sr_serializer_id r)
       = Some (min (sd_protocol_minor a) (sd_protocol_minor b))"
proof -
  obtain ids parts where *: "list_all2 (part_ok nfc u A v B) ids parts" "sorted_wrt (<) ids"
      "n = \<lparr>sn_routes = sort_key route_key (concat (map fst parts)), sn_serializers = map snd parts\<rparr>"
    by (rule negotiation_parts [OF assms(1-3)])
  then obtain p where p: "p \<in> set parts" "r \<in> set (fst p)" using assms(4) by auto
  then obtain sid where "sid \<in> set ids" "part_ok nfc u A v B sid p" using list_all2_in2 *(1) by metis
  then obtain a b where ab: "a \<in> set A" "b \<in> set B" "pair_ok nfc u a v b sid p" by (auto simp: part_ok_def)
  have "map (\<lambda>p. ns_serializer_id (snd p)) parts = ids"
    using *(1) by (induction rule: list_all2_induct) (auto simp: part_ok_def pair_ok_def)
  then have "distinct (map (\<lambda>n. ns_serializer_id n) (sn_serializers n))"
    using *(2,3) by (simp add: comp_def strict_sorted_iff)
  then have "map_of (dict_of (map (\<lambda>n. (ns_serializer_id n, ns_protocol_minor n)) (sn_serializers n)))
      (ns_serializer_id (snd p)) = Some (ns_protocol_minor (snd p))"
    using p(1) *(3) by (subst dict_of_distinct) (auto simp: comp_def intro!: map_of_is_SomeI)
  moreover have "ns_serializer_id (snd p) = sr_serializer_id r" "sd_serializer_id a = sr_serializer_id r"
      "ns_protocol_minor (snd p) = min (sd_protocol_minor a) (sd_protocol_minor b)"
    using ab(3) p(2) by (auto simp: pair_ok_def)
  ultimately show thesis using that ab(1,2) by simp
qed

text \<open>What a side may receive it can read: the negotiated routes are served by its own serializers.\<close>

definition routes_readable :: "('t, 'v) association_env \<Rightarrow> 'v association \<Rightarrow> bool" where
  "routes_readable env a \<longleftrightarrow> (\<forall>(sid, route) \<in> set (as_receive_routes a). \<exists>reg minor.
     map_of (rg_registrations (rc_serializers (en_config env))) sid = Some reg
     \<and> map_of (as_serializer_minors a) sid = Some minor
     \<and> registry_uint minor (sd_protocol_minor (rn_descriptor reg)) False \<in> range Inr
     \<and> (\<forall>manifest \<in> set (sr_manifests route). manifest |\<in>| sd_readable_manifests (rn_descriptor reg)))"

lemma routes_readable_ready: "routes_readable env a \<Longrightarrow> en_incarnation_uid env \<noteq> 0 \<Longrightarrow> receive_ready env a"
  unfolding routes_readable_def receive_ready_def by fastforce

lemma dict_of_members: "(k, x) \<in> set (dict_of items) \<Longrightarrow> (k, x) \<in> set items"
proof -
  have "(k, x) \<in> set (foldl (\<lambda>d (k, x). AList.update k x d) d items) \<Longrightarrow> (k, x) \<in> set d \<union> set items" for d
  proof (induction items arbitrary: d)
    case (Cons y items)
    have "set (AList.update (fst y) (snd y) d) \<subseteq> insert y (set d)" by (induction d) auto
    then show ?case using Cons.IH [of "AList.update (fst y) (snd y) d"] Cons.prems by (auto simp: case_prod_beta)
  qed simp
  from this [of "[]"] show "(k, x) \<in> set (dict_of items) \<Longrightarrow> (k, x) \<in> set items" by (simp add: dict_of_def)
qed

lemma registry_descriptor_lookup:
  assumes "registry_inv nfc registry" "d \<in> set (registry_descriptors registry)"
  obtains reg where "map_of (rg_registrations registry) (sd_serializer_id d) = Some reg" "d = rn_descriptor reg"
proof -
  obtain k reg where reg: "(k, reg) \<in> set (rg_registrations registry)" "d = rn_descriptor reg"
    using assms(2) by (auto simp: registry_descriptors_def)
  moreover have "k = sd_serializer_id d" using assms(1) reg by (auto simp: registry_inv_def registrations_ok_def)
  ultimately show thesis using that registry_lookup [OF assms(1)] by simp
qed

lemma handshake_routes_readable:
  assumes "handshake_on_hello env retained r a = (Inr accept, a')"
    and "registry_inv (en_nfc env) (rc_serializers (en_config env))"
  shows "routes_readable env a'"
proof -
  let ?registry = "rc_serializers (en_config env)"
  obtain peer n capabilities where h:
      "decode_frame (en_nfc env) (tr_payload r) BOOTSTRAP_MAX_FRAME_BYTES (Some (ch_kind (tr_channel r))) = Inr (Hello peer)"
      "negotiate_serializers (en_nfc env) (en_incarnation_uid env) (registry_descriptors ?registry)
         (h_system_incarnation_uid peer) (h_serializers peer) = Inr n"
      "a_serializer_routes accept = sn_routes n" "same_but_connection (negotiated_state env peer n accept a) a'"
    using handshake_on_hello_Inr [OF assms(1)] by (metis accept_of_routes)
  note valid = decoded_hello_descriptors [OF h(1)] registry_descriptors_all_valid [OF assms(2)]
  note swapped = h(2) [unfolded negotiate_serializers_commute [OF valid(2,1)]]
  show ?thesis unfolding routes_readable_def
  proof (intro ballI, clarify)
    fix sid route assume "(sid, route) \<in> set (as_receive_routes a')"
    then have route: "route \<in> set (sn_routes n)" "sid = sr_serializer_id route"
        "sr_origin_incarnation_uid route = h_system_incarnation_uid peer"
      by (auto simp: negotiated_fields(8) [OF h(4)] routes_from_def h(3) dest!: dict_of_members)
    obtain d d' where d: "d \<in> set (registry_descriptors ?registry)" "d' \<in> set (h_serializers peer)"
        "sd_serializer_id d = sid" "map_of (as_serializer_minors a') sid = Some (min (sd_protocol_minor d) (sd_protocol_minor d'))"
      using negotiated_route_minor [OF valid(2,1) h(2) route(1)] negotiated_fields(9) [OF h(4)] route(2) by metis
    obtain reg where reg: "map_of (rg_registrations ?registry) sid = Some reg" "d = rn_descriptor reg"
      using registry_descriptor_lookup [OF assms(2) d(1)] d(3) by metis
    have "0 \<le> sd_protocol_minor d" "0 \<le> sd_protocol_minor d'"
      using valid d(1,2) by (auto simp: valid_descriptor_def)
    then have "registry_uint (min (sd_protocol_minor d) (sd_protocol_minor d')) (sd_protocol_minor d) False \<in> range Inr"
      by (simp add: registry_uint_def guard_def)
    moreover have "manifest |\<in>| sd_readable_manifests d" if manifest: "manifest \<in> set (sr_manifests route)" for manifest
    proof -
      obtain e where e: "e \<in> set (registry_descriptors ?registry)" "sd_serializer_id e = sid"
          "manifest |\<in>| sd_readable_manifests e"
        using negotiated_routes_iff [OF valid swapped, of sid manifest] route manifest by metis
      obtain reg' where "map_of (rg_registrations ?registry) sid = Some reg'" "e = rn_descriptor reg'"
        using registry_descriptor_lookup [OF assms(2) e(1)] e(2) by metis
      then show ?thesis using e(3) reg by simp
    qed
    ultimately show "\<exists>reg minor. map_of (rg_registrations ?registry) sid = Some reg
        \<and> map_of (as_serializer_minors a') sid = Some minor
        \<and> registry_uint minor (sd_protocol_minor (rn_descriptor reg)) False \<in> range Inr
        \<and> (\<forall>manifest \<in> set (sr_manifests route). manifest |\<in>| sd_readable_manifests (rn_descriptor reg))"
      using reg d(4) by metis
  qed
qed

definition association_start :: "('t, 'v) association_env \<Rightarrow> 'v association \<Rightarrow> bool" where
  "association_start env a \<longleftrightarrow> receive_ready env a \<and> as_calls a = []
     \<and> set (as_inbound_sequences a) \<subseteq> {0}
     \<and> as_pending a = [] \<and> as_completed a = [] \<and> as_next_ticket a = 0
     \<and> 1 \<le> as_next_correlation_id a \<and> as_next_correlation_id a \<le> MAX_U64
     \<and> as_state a = AS_HANDSHAKING \<and> as_close_reason a = None \<and> as_close_detail a = None"

lemma handshake_start_state:
  assumes "handshake_on_hello env retained r (association_init connection initiator name endpoint bits) = (Inr accept, a)"
    and "registry_inv (en_nfc env) (rc_serializers (en_config env))" "en_incarnation_uid env \<noteq> 0"
    and "0 \<le> bits" "bits \<le> MAX_U64"
  shows "association_start env a"
proof -
  obtain peer n where h: "same_but_connection (negotiated_state env peer n accept
      (association_init connection initiator name endpoint bits)) a"
    using handshake_on_hello_Inr [OF assms(1)] by metis
  have "receive_ready env a"
    using routes_readable_ready [OF handshake_routes_readable [OF assms(1,2)] assms(3)] .
  then show ?thesis
    using h negotiated_fields(11) [OF h] assms(4,5)
    by (auto simp: association_start_def same_but_connection_def negotiated_state_def prepare_negotiated_def
        gets_bind modify_def with_peer_def Let_def association_init_def)
qed

section \<open>Steps\<close>

record 'v association_run =
  ar_association :: "'v association"
  ar_requests :: "(nat \<times> int \<times> pystr) list"
  ar_abandoned :: "nat list"

abbreviation (input) with_association :: "'v association_run \<Rightarrow> 'v association \<Rightarrow> 'v association_run" where
  "with_association s a \<equiv> s\<lparr>ar_association := a\<rparr>"

definition give_up :: "nat \<Rightarrow> failure + 'x \<Rightarrow> 'v association_run \<Rightarrow> 'v association_run" where
  "give_up t r s = (if isl r then s\<lparr>ar_abandoned := t # ar_abandoned s\<rparr> else s)"

inductive association_step ::
  "('t, 'v) association_env \<Rightarrow> 'v association_run \<Rightarrow> 'v association_run \<Rightarrow> bool"
  for env
where
  connection_moves: "tc_association_uid c = as_uid (ar_association s)
    \<Longrightarrow> association_step env s (with_association s ((ar_association s)\<lparr>as_connection := c\<rparr>))"
| accept_received: "handshake_on_accept env accept record (ar_association s) = (r, a)
    \<Longrightarrow> association_step env s (with_association s a)"
| activate: "become_active activated (ar_association s) = (r, a)
    \<Longrightarrow> association_step env s (with_association s a)"
| send: "send_user_message env current recipient message (ar_association s) = (r, a)
    \<Longrightarrow> association_step env s (with_association s a)"
| reserve: "resolve_reserve path (ar_association s) = (Inr (t, i), a)
    \<Longrightarrow> association_step env s (s\<lparr>ar_association := a, ar_requests := ar_requests s @ [(t, i, path)]\<rparr>)"
| reserve_failed: "resolve_reserve path (ar_association s) = (Inl e, a)
    \<Longrightarrow> association_step env s (with_association s a)"
| request_sent: "(t, i, path) \<in> set (ar_requests s) \<Longrightarrow> resolve_send env i path (ar_association s) = (r, a)
    \<Longrightarrow> association_step env s (give_up t r (with_association s a))"
| timed_out: "(t, i, path) \<in> set (ar_requests s) \<Longrightarrow> resolve_timeout env t i (ar_association s) = (r, a)
    \<Longrightarrow> association_step env s (give_up t r (with_association s a))"
| close_requested: "request_close env reason detail notify (ar_association s) = (r, a)
    \<Longrightarrow> association_step env s (with_association s a)"
| iteration: "active_iteration env (ar_association s) = (r, a)
    \<Longrightarrow> association_step env s (with_association s a)"
| failed: "run_failed env failure (ar_association s) = (r, a)
    \<Longrightarrow> association_step env s (with_association s a)"
| finished: "association_step env s (with_association s (run_finally in_time (ar_association s)))"

inductive association_reachable ::
  "('t, 'v) association_env \<Rightarrow> 'v association \<Rightarrow> 'v association_run \<Rightarrow> bool"
  for env a0
where
  start: "association_reachable env a0 \<lparr>ar_association = a0, ar_requests = [], ar_abandoned = []\<rparr>"
| step: "association_reachable env a0 s \<Longrightarrow> association_step env s s' \<Longrightarrow> association_reachable env a0 s'"

lemma give_up_association [simp]: "ar_association (give_up t r s) = ar_association s"
  "ar_requests (give_up t r s) = ar_requests s"
  by (simp_all add: give_up_def)

section \<open>Inbound messages\<close>

lemma preserves_frame [preserves_intros]:
  assumes "\<And>a. preserves g (k1 a)" "\<And>a. preserves g (k2 a)" "\<And>a b c. preserves g (k3 a b c)"
    "\<And>a b c. preserves g (k4 a b c)" "\<And>a b c. preserves g (k5 a b c)" "\<And>a b c d. preserves g (k6 a b c d)"
    "\<And>a b c. preserves g (k7 a b c)" "\<And>a. preserves g (k8 a)" "\<And>a. preserves g (k9 a)" "\<And>a. preserves g (k10 a)"
  shows "preserves g (case_frame k1 k2 k3 k4 k5 k6 k7 k8 k9 k10 f)"
  using assms by (cases f) simp_all

lemma closing_preserves [preserves_intros]:
  "preserves core_view (run_failed env failure)" "preserves pending_view (run_failed env failure)"
  "preserves as_calls (run_failed env failure)"
  unfolding run_failed_def close_with_def
  by (cases failure; simp; intro preserves_intros; simp)+

lemma handshake_end_preserves [preserves_intros]:
  "preserves core_view (handshake_on_accept env accept record)"
  "preserves pending_view (handshake_on_accept env accept record)"
  "preserves close_view (handshake_on_accept env accept record)"
  "preserves as_calls (handshake_on_accept env accept record)"
  "preserves core_view (become_active activated)" "preserves pending_view (become_active activated)"
  "preserves as_calls (become_active activated)"
  unfolding handshake_on_accept_def receive_handshake_record_def decode_handshake_record_def
    defer_delivery_record_def activate_transport_def become_active_def
  by (intro preserves_intros; simp add: core_view_def pending_view_def close_view_def)+

lemma mark_closed_views [simp]:
  "core_view (mark_closed a) = core_view a" "delivery_view (mark_closed a) = delivery_view a"
  by (simp_all add: mark_closed_def core_view_def delivery_view_def as_call_def Let_def)

lemma run_finally_views [simp]:
  "core_view (run_finally b a) = core_view a" "delivery_view (run_finally b a) = delivery_view a"
  using views_ignore_connection(1) delivery_view_simps(1)
  by (simp_all add: run_finally_def Let_def core_view_def delivery_view_def ignores_connection_def mark_closed_def
      as_call_def)

lemma association_step_receive:
  fixes env :: "('t, 'v) association_env"
  assumes "association_step env s s'" "receive_inv env [] (ar_association s)"
  shows "receive_inv env [] (ar_association s')"
proof -
  have views: "receive_inv env [] a" if "core_view a = core_view (ar_association s)"
      "delivery_view a = delivery_view (ar_association s)" for a
    by (rule iffD2 [OF receive_inv_views [OF that] assms(2)])
  have action: "receive_inv env [] a" if "m (ar_association s) = (r, a)" "preserves core_view m" "preserves delivery_view m"
    for m :: "('v, 'x) association_action" and r a
    using views preservesD that by metis
  note quiet = action [OF _ _ preserves_delivery_of_calls]
  from assms(1) show ?thesis
  proof cases
    case (iteration r a)
    then show ?thesis using active_iteration_inv assms(2) by auto
  next
    case (connection_moves c)
    then show ?thesis by (auto intro!: views simp: core_view_def delivery_view_def)
  next
    case (send current recipient message r a)
    then show ?thesis using action [OF send(2) send_user_message_preserves(1) send_user_message_delivery] by simp
  qed (auto intro: views dest: quiet [OF _ handshake_end_preserves(1,4)] quiet [OF _ handshake_end_preserves(5,7)]
      quiet [OF _ resolve_preserves(1,3)] quiet [OF _ resolve_preserves(4,6)] quiet [OF _ resolve_preserves(7,8)]
      quiet [OF _ request_close_preserves(1,3)] quiet [OF _ closing_preserves(1,3)])
qed

lemma association_start_receive: "association_start env a \<Longrightarrow> receive_inv env [] a"
  by (force simp: association_start_def receive_inv_def accounted_def dest: nth_mem)

lemma association_reachable_receive:
  "association_reachable env a0 s \<Longrightarrow> association_start env a0 \<Longrightarrow> receive_inv env [] (ar_association s)"
  by (induction rule: association_reachable.induct)
     (simp_all add: association_start_receive association_step_receive)

section \<open>Handling messages is bookkeeping\<close>

definition bookkeeping :: "('v association \<Rightarrow> 'x) \<Rightarrow> bool" where
  "bookkeeping f \<longleftrightarrow> ignores_connection f
     \<and> (\<forall>b ms a. f (increment_many b ms a) = f a) \<and> (\<forall>l a. f (increment_sequence_violation l a) = f a)
     \<and> (\<forall>c a. f (as_call c a) = f a) \<and> (\<forall>m a. f (consume_sequence m a) = f a)"

lemma bookkeeping_views [simp]: "bookkeeping close_view" "bookkeeping pending_view"
  by (simp_all add: bookkeeping_def)

lemma preserves_sum [preserves_intros]:
  "(\<And>x. preserves f (k x)) \<Longrightarrow> (\<And>x. preserves f (h x)) \<Longrightarrow> preserves f (case_sum k h x)"
  by (cases x) simp_all






section \<open>Closing\<close>

lemma keeps_cases [keeps_intros]:
  "keeps P m \<Longrightarrow> (\<And>x. keeps P (k x)) \<Longrightarrow> keeps P (case o' of None \<Rightarrow> m | Some x \<Rightarrow> k x)"
  "(\<And>x y. keeps P (h x y)) \<Longrightarrow> keeps P (case p of (x, y) \<Rightarrow> h x y)"
  "(\<And>x. keeps P (l x)) \<Longrightarrow> keeps P (Let v l)"
  by (cases o'; simp) (cases p; simp)+












section \<open>Properties\<close>

text \<open>
  C29. What a handshake leaves behind is a state in which an association can start to work: no message
  was handled, every sequence counter is zero, and every negotiated inbound route has a protocol minor
  that the local serializer supports, so deserialization cannot escape with an unforeseen exception.
\<close>

theorem handshake_starts:
  assumes "handshake_on_hello env retained r (association_init connection initiator name endpoint bits) = (Inr accept, a)"
    and "registry_inv (en_nfc env) (rc_serializers (en_config env))" "en_incarnation_uid env \<noteq> 0"
    and "0 \<le> bits" "bits \<le> MAX_U64"
  shows "association_start env a"
  using handshake_start_state [OF assms] .

theorem handshake_starts_witness: "association_start env_a (snd negotiated_a)"
proof -
  have "negotiated_a = (Inr (projr (fst negotiated_a)), snd negotiated_a)"
    by (rule completed_run [OF sample_negotiated_ok(1)])
  then have "handshake_on_hello env_a (\<lambda>_. True) (frame_record hello_b) (association_init sample_connection True
      (Some (str ''beta'')) (Some \<lparr>ep_host = str ''localhost'', ep_port = 2\<rparr>) 3)
      = (Inr (projr (fst negotiated_a)), snd negotiated_a)"
    by (metis negotiated_a_def association_a_def)
  then show ?thesis
    by (rule handshake_starts) (use sample_registry_inv sample_nfc in \<open>simp_all add: env_a_def sample_env_def\<close>)
qed

definition sample_delivery :: "int \<Rightarrow> nat \<Rightarrow> user_message" where
  "sample_delivery sequence v = \<lparr>um_association_uid = 5, um_lane_id = 1, um_lane_sequence = sequence,
     um_sender_incarnation_uid = 7, um_recipient_incarnation_uid = 9, um_recipient_actor_uid = 17,
     um_serializer_id = 1, um_manifest = str ''order/1'', um_payload = [of_nat v], um_correlation_id = 0\<rparr>"

definition sample_receiver :: "frame list \<Rightarrow> nat association" where
  "sample_receiver frames = (association_init sample_connection False None None 4)\<lparr>
     as_peer_system_name := Some (str ''alpha''), as_peer_incarnation_uid := Some 7, as_lane_count := Some 2,
     as_outbound_message_limit := Some 4, as_outbound_byte_limit := Some 4096,
     as_receive_routes := [(1, \<lparr>sr_origin_incarnation_uid = 7, sr_serializer_id = 1, sr_manifests = [str ''order/1'']\<rparr>)],
     as_serializer_minors := [(1, 2)], as_outbound_sequences := [0, 0], as_inbound_sequences := [0, 0],
     as_violations_by_lane := [0, 0], as_deferred_records := map frame_record frames\<rparr>"

lemma sample_receiver_start: "association_start env_b (sample_receiver frames)"
  by (auto simp: association_start_def sample_receiver_def association_init_def receive_ready_def env_b_def
      sample_env_def registry_uint_def sample_peer_descriptor_def sample_descriptor_def guard_def)

abbreviation (input) sample_arrivals :: "frame list" where
  "sample_arrivals \<equiv> [UserMessage (sample_delivery 0 3), UserMessage (sample_delivery 1 4)]"

definition sample_run :: "nat association_run" where
  "sample_run = \<lparr>ar_association = snd (active_iteration env_b (sample_receiver sample_arrivals)),
     ar_requests = [], ar_abandoned = []\<rparr>"

lemma sample_run_reachable: "association_reachable env_b (sample_receiver sample_arrivals) sample_run"
proof -
  let ?s = "\<lparr>ar_association = sample_receiver sample_arrivals, ar_requests = [], ar_abandoned = []\<rparr>"
  have "association_step env_b ?s (?s\<lparr>ar_association := snd (active_iteration env_b (sample_receiver sample_arrivals))\<rparr>)"
    by (rule association_step.iteration [of _ _ "fst (active_iteration env_b (sample_receiver sample_arrivals))"]) simp
  then show ?thesis using association_reachable.intros by (fastforce simp: sample_run_def)
qed

text \<open>
  C9. Every inbound user message is dealt with exactly once: whatever the peer sends and whichever
  threads act in between, the messages an association has offered to the actor system or rejected as
  undecodable on a lane are those with the sequence numbers below the lane's counter, each once, and
  the offers were made in increasing order.
\<close>

theorem user_messages_exactly_once:
  assumes "association_start env a0" "association_reachable env a0 s"
    and "l < length (as_inbound_sequences (ar_association s))"
  shows "mset (on_lane (int l) (offered (as_calls (ar_association s))))
      + mset (on_lane (int l) (rejected (as_calls (ar_association s))))
      = mset [0..as_inbound_sequences (ar_association s) ! l - 1]
    \<and> sorted_wrt (<) (on_lane (int l) (offered (as_calls (ar_association s))))"
  using association_reachable_receive [OF assms(2,1)] assms(3) by (auto simp: receive_inv_def accounted_def)

theorem user_messages_exactly_once_witness:
  "association_reachable env_b (sample_receiver sample_arrivals) sample_run
    \<and> as_inbound_sequences (ar_association sample_run) = [0, 2]
    \<and> mset (on_lane 1 (offered (as_calls (ar_association sample_run))))
      + mset (on_lane 1 (rejected (as_calls (ar_association sample_run)))) = {#0, 1#}"
proof -
  have sequences: "as_inbound_sequences (ar_association sample_run) = [0, 2]" by code_simp
  show ?thesis
    using user_messages_exactly_once [OF sample_receiver_start sample_run_reachable, of 1] sequences sample_run_reachable
    by (simp add: upto_rec1)
qed





end
