(* ===== verification/Association_Delivery.thy ===== *)
theory Association_Delivery
  imports Association_System "HOL-Library.Sublist"
begin

text \<open>
  From one end of an association to the other: the messages that \<^verbatim>\<open>send_user_message\<close> accepts are
  numbered per lane; if the peer receives, on every lane, an initial part of them, its receive loop
  offers every actor an initial part of what was sent to that actor, in the order of sending.
\<close>

section \<open>Numbered messages\<close>

fun numbered :: "int list \<Rightarrow> user_message list \<Rightarrow> bool" where
  "numbered sequences [] = True"
| "numbered sequences (m # ms) \<longleftrightarrow> um_lane_sequence m = sequences ! nat (um_lane_id m)
     \<and> numbered (sequences[nat (um_lane_id m) := um_lane_sequence m + 1]) ms"

definition of_lane :: "int \<Rightarrow> user_message list \<Rightarrow> user_message list" where
  "of_lane l ms = [m \<leftarrow> ms. um_lane_id m = l]"

lemma of_lane_simps [simp]:
  "of_lane l [] = []" "of_lane l (m # ms) = (if um_lane_id m = l then m # of_lane l ms else of_lane l ms)"
  "of_lane l (ms @ ns) = of_lane l ms @ of_lane l ns"
  by (simp_all add: of_lane_def)

definition in_lanes :: "int list \<Rightarrow> user_message list \<Rightarrow> bool" where
  "in_lanes sequences ms \<longleftrightarrow> (\<forall>m \<in> set ms. 0 \<le> um_lane_id m \<and> nat (um_lane_id m) < length sequences)"

definition counts_from :: "int \<Rightarrow> user_message list \<Rightarrow> bool" where
  "counts_from n ms \<longleftrightarrow> map um_lane_sequence ms = map (\<lambda>k. n + int k) [0..<length ms]"

lemma counts_from_Cons: "counts_from n (m # ms) \<longleftrightarrow> um_lane_sequence m = n \<and> counts_from (n + 1) ms"
proof -
  have "map (\<lambda>k. n + int k) [0..<Suc j] = n # map (\<lambda>k. n + 1 + int k) [0..<j]" for j
    by (simp add: upt_conv_Cons map_Suc_upt [symmetric] del: upt_Suc)
  then show ?thesis by (simp add: counts_from_def del: upt_Suc)
qed

lemma counts_from_prefix: "counts_from n ms \<Longrightarrow> prefix ns ms \<Longrightarrow> counts_from n ns"
  by (auto simp: counts_from_def prefix_def upt_add_eq_append [of 0, simplified])

lemma numbered_lanes:
  "in_lanes sequences ms \<Longrightarrow>
     numbered sequences ms \<longleftrightarrow> (\<forall>l < length sequences. counts_from (sequences ! l) (of_lane (int l) ms))"
proof (induction ms arbitrary: sequences)
  case Nil
  then show ?case by (simp add: counts_from_def)
next
  case (Cons m ms)
  let ?k = "nat (um_lane_id m)"
  have "0 \<le> um_lane_id m" "?k < length sequences" using Cons.prems by (simp_all add: in_lanes_def)
  then have k: "?k < length sequences" "um_lane_id m = int l \<longleftrightarrow> l = ?k" for l by auto
  have "in_lanes (sequences[?k := um_lane_sequence m + 1]) ms" using Cons.prems by (simp add: in_lanes_def)
  from Cons.IH [OF this] show ?case
  proof (cases "um_lane_sequence m = sequences ! ?k")
    case True
    have "counts_from (sequences ! l) (of_lane (int l) (m # ms))
        \<longleftrightarrow> counts_from (sequences[?k := um_lane_sequence m + 1] ! l) (of_lane (int l) ms)" if "l < length sequences" for l
      using that True k(1) k(2) [of l] by (cases "l = ?k") (simp_all add: counts_from_Cons)
    then show ?thesis
      using Cons.IH [OF \<open>in_lanes (sequences[?k := um_lane_sequence m + 1]) ms\<close>] True by simp
  next
    case False
    then have "\<not> counts_from (sequences ! ?k) (of_lane (int ?k) (m # ms))"
      using k(2) [of ?k] by (simp add: counts_from_Cons)
    then show ?thesis using False k(1) unfolding numbered.simps by blast
  qed
qed

lemma numbered_prefixes:
  assumes "numbered sequences ms" "in_lanes sequences ms" "\<And>l. prefix (of_lane l ns) (of_lane l ms)"
  shows "numbered sequences ns" "in_lanes sequences ns" "set ns \<subseteq> set ms"
proof -
  have sub: "m \<in> set ms" if "m \<in> set ns" for m
  proof -
    have "m \<in> set (of_lane (um_lane_id m) ns)" using that by (simp add: of_lane_def)
    then have "m \<in> set (of_lane (um_lane_id m) ms)" using assms(3) set_mono_prefix by blast
    then show ?thesis by (simp add: of_lane_def)
  qed
  then show "set ns \<subseteq> set ms" by blast
  show ns: "in_lanes sequences ns" using assms(2) sub by (auto simp: in_lanes_def)
  show "numbered sequences ns"
    unfolding numbered_lanes [OF ns]
    using assms counts_from_prefix numbered_lanes [OF assms(2)] by blast
qed

section \<open>Sending\<close>

lemma require_active_Inr:
  "require_active expected a = (Inr u, b) \<longleftrightarrow>
     b = a \<and> as_state a = AS_ACTIVE \<and> (expected = None \<or> as_peer_incarnation_uid a = expected)"
  by (auto simp: require_active_def ensure_Inr) (auto simp: ensure_def split: if_splits)

lemma on_connection_Inr:
  "on_connection f a = (Inr u, b) \<longleftrightarrow> (\<exists>c. f (as_connection a) = Inr c \<and> b = a\<lparr>as_connection := c\<rparr>)"
  by (auto simp: on_connection_def split: sum.splits)

lemma admit_outbound_Inr:
  assumes "admit_outbound current l payload a = (Inr u, b)"
  obtains c where "tcp_send_active \<lparr>tr_channel = \<lparr>ch_kind = DELIVERY_LANE, ch_lane_id = l\<rparr>, tr_payload = payload\<rparr>
      (as_connection a) = Inr c" "b = a\<lparr>as_connection := c\<rparr>"
proof -
  let ?m = "abind (ensure (\<lambda>a. as_peer_system_name a \<noteq> None) (Raised AssertionError)) (\<lambda>_.
      abind (lift_result Raised (logical_channel_init DELIVERY_LANE l)) (\<lambda>channel.
        send_if_current current \<lparr>tr_channel = channel, tr_payload = payload\<rparr>))"
  have "?m a = (Inr u, b)"
    using assms by (auto simp: admit_outbound_def attempt_def modify_bind raise_def split: prod.splits sum.splits if_splits)
  then have "\<exists>c. tcp_send_active \<lparr>tr_channel = \<lparr>ch_kind = DELIVERY_LANE, ch_lane_id = l\<rparr>, tr_payload = payload\<rparr>
      (as_connection a) = Inr c \<and> b = a\<lparr>as_connection := c\<rparr>"
    unfolding ensure_Inr lift_Inr send_if_current_def send_payload_locked_def gets_bind
    by (auto simp: on_connection_Inr raise_def logical_channel_init_def result_simps split: if_splits)
  then show thesis using that by blast
qed

lemma send_user_message_Inr:
  fixes a :: "'b association"
  assumes "send_user_message env current recipient message a = (Inr u, a')"
  obtains serialized lanes payload c m where
    "serialize_outbound env message a = Inr serialized" "as_lane_count a = Some lanes" "as_state a = AS_ACTIVE"
    "as_peer_incarnation_uid a = Some (ai_system_incarnation_uid recipient)"
    "nat (lane_of recipient lanes) < length (as_outbound_sequences a)"
    "m = user_message_for env recipient serialized (lane_of recipient lanes)
       (as_outbound_sequences a ! nat (lane_of recipient lanes)) a"
    "encode_frame (en_nfc env) (UserMessage m) (as_maximum_frame_bytes a) (Some DELIVERY_LANE) = Inr payload"
    "tcp_send_active \<lparr>tr_channel = \<lparr>ch_kind = DELIVERY_LANE, ch_lane_id = um_lane_id m\<rparr>, tr_payload = payload\<rparr>
       (as_connection a) = Inr c"
    "a' = increment_many True [(M_accepted, 1)] (a\<lparr>as_connection := c,
       as_outbound_sequences := (as_outbound_sequences a)[nat (um_lane_id m) := um_lane_sequence m + 1]\<rparr>)"
proof -
  obtain serialized where s: "serialize_outbound env message a = Inr serialized"
    using assms by (cases "serialize_outbound env message a")
      (auto simp: send_user_message_def attempt_def gets_bind lift_result_def modify_bind raise_def)
  then have ser: "abind (attempt (abind (gets (serialize_outbound env message)) (lift_result Raised)) h) k a = k serialized a"
      for h and k :: "_ \<Rightarrow> ('b, unit) association_action"
    by (simp add: attempt_def gets_bind lift_result_def)
  note run = assms [unfolded send_user_message_def ser]
  have active: "as_state a = AS_ACTIVE" "as_peer_incarnation_uid a = Some (ai_system_incarnation_uid recipient)"
      "require_active (Some (ai_system_incarnation_uid recipient)) a = (Inr (), a)"
    using run by (auto simp: abind_Inr require_active_Inr)
  note run = run [unfolded abind_simps(1) [of "require_active _" a, OF active(3)] gets_bind]
  obtain lanes where lanes: "as_lane_count a = Some lanes"
    using run by (cases "as_lane_count a") (auto simp: raise_def)
  let ?l = "lane_of recipient lanes"
  let ?n = "as_outbound_sequences a ! nat ?l"
  let ?m = "user_message_for env recipient serialized ?l ?n a"
  have range: "nat ?l < length (as_outbound_sequences a)" "\<not> ?n > MAX_U64"
    using run by (auto simp: lanes Let_def raise_def abind_Inr split: if_splits)
  obtain payload where p: "encode_frame (en_nfc env) (UserMessage ?m) (as_maximum_frame_bytes a) (Some DELIVERY_LANE) = Inr payload"
    using run range by (cases "encode_frame (en_nfc env) (UserMessage ?m) (as_maximum_frame_bytes a) (Some DELIVERY_LANE)")
      (auto simp: lanes Let_def gets_bind attempt_def lift_result_def raise_def abind_Inr modify_bind split: if_splits)
  have enc: "abind (attempt (lift_result Raised (Inr payload)) h) k a = k payload a"
      for h and k :: "_ \<Rightarrow> ('b, unit) association_action"
    by (simp add: attempt_def lift_result_def)
  obtain b where b: "admit_outbound current ?l payload a = (Inr (), b)"
      "a' = increment_many True [(M_accepted, 1)]
         (b\<lparr>as_outbound_sequences := (as_outbound_sequences b)[nat ?l := ?n + 1]\<rparr>)"
    using run range by (auto simp: lanes Let_def gets_bind p enc abind_Inr modify_def)
  obtain c where "tcp_send_active \<lparr>tr_channel = \<lparr>ch_kind = DELIVERY_LANE, ch_lane_id = ?l\<rparr>, tr_payload = payload\<rparr>
      (as_connection a) = Inr c" "b = a\<lparr>as_connection := c\<rparr>"
    by (rule admit_outbound_Inr [OF b(1)])
  then show thesis
    using that [OF s lanes active(1,2) range(1) refl p] b(2) by (simp add: user_message_for_def)
qed

text \<open>
  A sequence of calls of \<^verbatim>\<open>send_user_message\<close>, each with the runtime's verdict; the result lists the
  messages that were accepted, with the frames they became.
\<close>

definition sent_message :: "('t, 'v) association_env \<Rightarrow> actor_identity \<Rightarrow> 'v \<Rightarrow> 'v association \<Rightarrow> user_message" where
  "sent_message env recipient v a =
     (let lane = lane_of recipient (the (as_lane_count a)) in
      user_message_for env recipient (projr (serialize_outbound env v a)) lane (as_outbound_sequences a ! nat lane) a)"

fun send_all ::
  "('t, 'v) association_env \<Rightarrow> (unit result \<times> actor_identity \<times> 'v) list \<Rightarrow> 'v association
     \<Rightarrow> (actor_identity \<times> 'v \<times> user_message) list \<times> 'v association"
where
  "send_all env [] a = ([], a)"
| "send_all env ((current, recipient, v) # calls) a =
     (case send_user_message env current recipient v a of
        (Inl _, a') \<Rightarrow> send_all env calls a'
      | (Inr _, a') \<Rightarrow> (case send_all env calls a' of (sent, a'') \<Rightarrow> ((recipient, v, sent_message env recipient v a) # sent, a'')))"

text \<open>What sending does not change.\<close>

definition sending_view ::
  "'v association \<Rightarrow> uuid \<times> (int \<times> serializer_route) list \<times> (int \<times> int) list \<times> int option \<times> uuid option \<times> hello_accept option"
where
  "sending_view a = (as_uid a, as_send_routes a, as_serializer_minors a, as_lane_count a, as_peer_incarnation_uid a, as_accept a)"

lemma sending_view_fixed:
  "fixed_part c = fixed_part (as_connection a) \<Longrightarrow> sending_view (a\<lparr>as_connection := c\<rparr>) = sending_view a"
  by (simp add: sending_view_def as_uid_def fixed_part_def)

lemma sending_view_simps [simp]:
  "sending_view (increment_many b ms a) = sending_view a"
  "sending_view (a\<lparr>as_outbound_sequences := x\<rparr>) = sending_view a"
  "sending_view (a\<lparr>as_stop_requested := y\<rparr>) = sending_view a"
  "sending_view (transition_to_closing_locked d (a\<lparr>as_close_reason := r, as_close_detail := e\<rparr>)) = sending_view a"
  "sending_view (as_call c a) = sending_view a" "sending_view (consume_sequence m a) = sending_view a"
  "sending_view (increment_sequence_violation l a) = sending_view a"
  by (simp_all add: sending_view_def as_uid_def increment_many_def as_call_def transition_to_closing_locked_def
      consume_sequence_def increment_sequence_violation_def Let_def)

lemma serialize_outbound_view:
  "sending_view a = sending_view b \<Longrightarrow> serialize_outbound env v a = serialize_outbound env v b"
  unfolding serialize_outbound_def sending_view_def by (elim Pair_inject) (simp only:)

lemma tcp_terminal_fixed: "tcp_send_terminal seen r c = Inr c' \<Longrightarrow> fixed_part c' = fixed_part c"
  by (auto simp: fixed_part_def tcp_send_terminal_def result_simps split: if_splits)

lemmas preserves_control = preserves_pure preserves_modify preserves_abind preserves_finally preserves_attempt
  preserves_if preserves_option preserves_pair preserves_Let preserves_sum

lemma sending_preserves:
  "preserves sending_view (send_payload_locked r)" "preserves sending_view (send_frame env f b e)"
  "preserves sending_view (send_terminal_best_effort env reason detail)"
proof -
  have connection: "preserves sending_view (on_connection g)"
    if "\<And>c c'. g c = Inr c' \<Longrightarrow> fixed_part c' = fixed_part c" for g
    using that sending_view_fixed
    by (auto simp: preserves_def on_connection_def split: sum.splits)
  show payload: "preserves sending_view (send_payload_locked r)" for r
    unfolding send_payload_locked_def by (intro preserves_control connection) simp
  have send: "preserves sending_view (connection_send r)" for r
    unfolding connection_send_def by (intro connection) simp
  show "preserves sending_view (send_frame env f b e)"
    unfolding send_frame_def by (intro preserves_control payload send)
  show "preserves sending_view (send_terminal_best_effort env reason detail)"
    unfolding send_terminal_best_effort_def send_terminal_def best_effort_def
    by (intro preserves_control connection) (erule tcp_terminal_fixed)+
qed

lemma send_user_message_view: "preserves sending_view (send_user_message env current recipient v)"
proof -
  have close: "preserves sending_view (request_close env reason detail n)" for reason detail n
    unfolding request_close_def by (intro preserves_control sending_preserves; simp)
  have admit: "preserves sending_view (admit_outbound current l payload)" for l payload
    unfolding admit_outbound_def send_if_current_def by (intro preserves_control sending_preserves; simp)
  show ?thesis unfolding send_user_message_def by (intro preserves_control require_active_preserves close admit; simp)
qed

text \<open>A call that raises leaves the sequence numbers alone: they are advanced last.\<close>

definition fails_clean :: "('s \<Rightarrow> 'x) \<Rightarrow> ('s, 'e, 'a) action \<Rightarrow> bool" where
  "fails_clean f m \<longleftrightarrow> (\<forall>s. isl (fst (m s)) \<longrightarrow> f (snd (m s)) = f s)"

lemma fails_clean_intros:
  "preserves f m1 \<Longrightarrow> fails_clean f m1"
  "preserves f m2 \<Longrightarrow> (\<And>x. fails_clean f (k2 x)) \<Longrightarrow> fails_clean f (abind m2 k2)"
  "fails_clean f (abind (modify g) (\<lambda>_. modify h))"
  "fails_clean f m4 \<Longrightarrow> fails_clean f n4 \<Longrightarrow> fails_clean f (if b then m4 else n4)"
  "fails_clean f m5 \<Longrightarrow> (\<And>x. fails_clean f (k5 x)) \<Longrightarrow> fails_clean f (case o5 of None \<Rightarrow> m5 | Some x \<Rightarrow> k5 x)"
  "(\<And>x y. fails_clean f (k6 x y)) \<Longrightarrow> fails_clean f (case p of (x, y) \<Rightarrow> k6 x y)"
  "(\<And>x. fails_clean f (k7 x)) \<Longrightarrow> fails_clean f (Let v k7)"
  unfolding fails_clean_def preserves_def
  by (auto simp: abind_def modify_def split: prod.splits sum.splits option.splits) (metis fst_conv isl_def snd_conv)+

lemma send_user_message_rejected:
  assumes "send_user_message env current recipient v a = (Inl e, a')"
  shows "as_outbound_sequences a' = as_outbound_sequences a"
proof -
  have view: "ignores_connection as_outbound_sequences" by (simp add: ignores_connection_def)
  have counters: "as_outbound_sequences (increment_many b ms a) = as_outbound_sequences a" for b ms a
    by (simp add: increment_many_def as_call_def Let_def)
  have close: "preserves as_outbound_sequences (request_close env reason detail n)" for reason detail n
    unfolding request_close_def by (intro preserves_intros; simp add: view transition_to_closing_locked_def)
  have admit: "preserves as_outbound_sequences (admit_outbound current l payload)" for l payload
    unfolding admit_outbound_def send_if_current_def by (intro preserves_intros; simp add: view counters)
  have "fails_clean as_outbound_sequences (send_user_message env current recipient v)"
    unfolding send_user_message_def
    by (rule fails_clean_intros(3) fails_clean_intros(2,4-7) fails_clean_intros(1)
        | (intro preserves_intros close admit; simp add: counters; fail))+
  then show ?thesis using assms unfolding fails_clean_def by (metis fst_conv isl_def snd_conv)
qed

definition sent_ok ::
  "('t, 'v) association_env \<Rightarrow> 'v association \<Rightarrow> actor_identity \<times> 'v \<times> user_message \<Rightarrow> bool"
where
  "sent_ok env a = (\<lambda>(recipient, v, m). \<exists>serialized lanes.
     serialize_outbound env v a = Inr serialized \<and> as_lane_count a = Some lanes
     \<and> as_peer_incarnation_uid a = Some (ai_system_incarnation_uid recipient)
     \<and> m = user_message_for env recipient serialized (lane_of recipient lanes) (um_lane_sequence m) a
     \<and> encode_frame (en_nfc env) (UserMessage m) (as_maximum_frame_bytes a) (Some DELIVERY_LANE) \<in> range Inr)"

lemma sent_ok_view:
  assumes "sending_view a = sending_view b"
  shows "sent_ok env a = sent_ok env b"
proof -
  have "as_uid a = as_uid b" "as_lane_count a = as_lane_count b" "as_peer_incarnation_uid a = as_peer_incarnation_uid b"
      "as_maximum_frame_bytes a = as_maximum_frame_bytes b"
    using assms by (simp_all add: sending_view_def as_maximum_frame_bytes_def)
  moreover have "serialize_outbound env v a = serialize_outbound env v b" for v
    using serialize_outbound_view [OF assms] .
  ultimately show ?thesis by (simp add: sent_ok_def user_message_for_def fun_eq_iff)
qed

lemma encoded_lane:
  "encode_frame nfc (UserMessage m) maximum kind = Inr payload \<Longrightarrow> 0 \<le> um_lane_id m \<and> um_recipient_actor_uid m \<noteq> 0"
  by (auto simp: encode_frame_Inr encode_generic_Inr encode_user_message_body_Inr user_message_ok_def)

lemma send_user_message_sent:
  assumes "send_user_message env current recipient v a = (Inr u, a')"
  defines "m \<equiv> sent_message env recipient v a"
  shows "sent_ok env a (recipient, v, m)" "um_lane_sequence m = as_outbound_sequences a ! nat (um_lane_id m)"
    "0 \<le> um_lane_id m" "nat (um_lane_id m) < length (as_outbound_sequences a)"
    "as_outbound_sequences a' = (as_outbound_sequences a)[nat (um_lane_id m) := um_lane_sequence m + 1]"
proof -
  obtain serialized lanes payload c m' where s:
    "serialize_outbound env v a = Inr serialized" "as_lane_count a = Some lanes"
    "as_peer_incarnation_uid a = Some (ai_system_incarnation_uid recipient)"
    "nat (lane_of recipient lanes) < length (as_outbound_sequences a)"
    "m' = user_message_for env recipient serialized (lane_of recipient lanes)
       (as_outbound_sequences a ! nat (lane_of recipient lanes)) a"
    "encode_frame (en_nfc env) (UserMessage m') (as_maximum_frame_bytes a) (Some DELIVERY_LANE) = Inr payload"
    "a' = increment_many True [(M_accepted, 1)] (a\<lparr>as_connection := c,
       as_outbound_sequences := (as_outbound_sequences a)[nat (um_lane_id m') := um_lane_sequence m' + 1]\<rparr>)"
    by (rule send_user_message_Inr [OF assms(1)])
  have m: "m = m'" by (simp add: assms(2) sent_message_def s Let_def)
  show "sent_ok env a (recipient, v, m)" "um_lane_sequence m = as_outbound_sequences a ! nat (um_lane_id m)"
    "0 \<le> um_lane_id m" "nat (um_lane_id m) < length (as_outbound_sequences a)"
    "as_outbound_sequences a' = (as_outbound_sequences a)[nat (um_lane_id m) := um_lane_sequence m + 1]"
    unfolding m using s encoded_lane [OF s(6)]
    by (auto simp: sent_ok_def user_message_for_def increment_many_def as_call_def)
qed

abbreviation (input) frames_of :: "(actor_identity \<times> 'v \<times> user_message) list \<Rightarrow> user_message list" where
  "frames_of sent \<equiv> map (\<lambda>(_, _, m). m) sent"

lemma send_all_effect:
  assumes "send_all env calls a = (sent, a')"
  shows "numbered (as_outbound_sequences a) (frames_of sent)" "in_lanes (as_outbound_sequences a) (frames_of sent)"
    "\<forall>x \<in> set sent. sent_ok env a x"
proof -
  have "numbered (as_outbound_sequences a) (frames_of sent) \<and> in_lanes (as_outbound_sequences a) (frames_of sent)
    \<and> (\<forall>x \<in> set sent. sent_ok env a x)"
    using assms
  proof (induction env calls a arbitrary: sent a' rule: send_all.induct)
    case (2 env current recipient v calls a)
    obtain r b where b: "send_user_message env current recipient v a = (r, b)" by fastforce
    then have view: "sending_view b = sending_view a" using preservesD [OF send_user_message_view b] by simp
    show ?case
    proof (cases r)
      case (Inl e)
      have "as_outbound_sequences b = as_outbound_sequences a" by (rule send_user_message_rejected [OF b [unfolded Inl]])
      then show ?thesis
        using "2.IH"(1) [OF b [symmetric] Inl] "2.prems" b Inl sent_ok_view [OF view, of env] by simp
    next
      case (Inr u)
      obtain sent' c where c: "send_all env calls b = (sent', c)" by fastforce
      note ih = "2.IH"(2) [OF b [symmetric] Inr c]
      note this' = send_user_message_sent [OF b [unfolded Inr]]
      have "sent = (recipient, v, sent_message env recipient v a) # sent'" using "2.prems" b Inr c by simp
      then show ?thesis using ih this' sent_ok_view [OF view, of env] by (simp add: in_lanes_def)
    qed
  qed (simp add: in_lanes_def)
  then show "numbered (as_outbound_sequences a) (frames_of sent)" "in_lanes (as_outbound_sequences a) (frames_of sent)"
    "\<forall>x \<in> set sent. sent_ok env a x" by blast+
qed

section \<open>Receiving\<close>

definition acceptable :: "('t, 'v) association_env \<Rightarrow> 'v association \<Rightarrow> user_message \<times> logical_channel \<Rightarrow> bool" where
  "acceptable env b = (\<lambda>(m, channel). \<exists>lanes route v.
     as_lane_count b = Some lanes \<and> as_peer_incarnation_uid b = Some (um_sender_incarnation_uid m)
     \<and> um_association_uid m = as_uid b \<and> um_lane_id m < lanes
     \<and> (ch_kind channel = DELIVERY_LANE \<longrightarrow> ch_lane_id channel = um_lane_id m)
     \<and> um_recipient_incarnation_uid m = en_incarnation_uid env \<and> en_incarnation_uid env \<noteq> 0
     \<and> um_recipient_actor_uid m \<noteq> 0
     \<and> map_of (as_receive_routes b) (um_serializer_id m) = Some route \<and> um_manifest m \<in> set (sr_manifests route)
     \<and> deserialize_inbound env m b = Inr v)"

definition received_value :: "('t, 'v) association_env \<Rightarrow> 'v association \<Rightarrow> user_message \<Rightarrow> 'v" where
  "received_value env b m = projr (deserialize_inbound env m b)"

lemma prepare_user_message_ok:
  assumes "acceptable env b (m, channel)" "nat (um_lane_id m) < length (as_inbound_sequences b)"
    and "um_lane_sequence m = as_inbound_sequences b ! nat (um_lane_id m)"
  shows "prepare_user_message env m channel b =
    (Inr (Some (\<lparr>ai_system_incarnation_uid = en_incarnation_uid env, ai_actor_uid = um_recipient_actor_uid m\<rparr>,
        received_value env b m, metadata_of m (consume_sequence m b), m)), consume_sequence m b)"
proof -
  obtain lanes route v where ok:
     "as_lane_count b = Some lanes" "as_peer_incarnation_uid b = Some (um_sender_incarnation_uid m)"
     "um_association_uid m = as_uid b" "um_lane_id m < lanes"
     "ch_kind channel = DELIVERY_LANE \<Longrightarrow> ch_lane_id channel = um_lane_id m"
     "um_recipient_incarnation_uid m = en_incarnation_uid env" "en_incarnation_uid env \<noteq> 0" "um_recipient_actor_uid m \<noteq> 0"
     "map_of (as_receive_routes b) (um_serializer_id m) = Some route" "um_manifest m \<in> set (sr_manifests route)"
     "deserialize_inbound env m b = Inr v"
    using assms(1) by (auto simp: acceptable_def)
  have check: "check_user_message env m channel b = (Inr (), b)"
    using ok assms(2,3) by (simp add: check_user_message_def gets_bind ensure_def ret_def abind_simps)
  have "deserialize_inbound env m (consume_sequence m b) = Inr v"
    using ok(11) by (simp add: deserialize_inbound_def consume_sequence_def)
  then show ?thesis
    using ok(7,8,11) check
    by (simp add: prepare_user_message_def modify_bind gets_bind lift_result_def actor_identity_init_def gets_def
        received_value_def abind_simps)
qed

lemma acceptable_consume [simp]:
  "acceptable env (consume_sequence m b) = acceptable env b"
  "received_value env (consume_sequence m b) = received_value env b"
  by (simp_all add: acceptable_def received_value_def deserialize_inbound_def consume_sequence_def as_uid_def fun_eq_iff)

definition advance :: "user_message list \<Rightarrow> int list \<Rightarrow> int list" where
  "advance ms sequences = fold (\<lambda>m s. s[nat (um_lane_id m) := um_lane_sequence m + 1]) ms sequences"

lemma advance_simps [simp]:
  "advance [] s = s" "advance (m # ms) s = advance ms (s[nat (um_lane_id m) := um_lane_sequence m + 1])"
  by (simp_all add: advance_def)

lemma length_advance [simp]: "length (advance ms s) = length s"
  by (induction ms arbitrary: s) simp_all

lemma numbered_append: "numbered s (ms @ ns) \<longleftrightarrow> numbered s ms \<and> numbered (advance ms s) ns"
  by (induction ms arbitrary: s) simp_all

definition prepared_value :: "'v prepared \<Rightarrow> uuid \<times> 'v" where
  "prepared_value = (\<lambda>(identity, v, _, _). (ai_actor_uid identity, v))"

lemma prepared_value_simp [simp]: "prepared_value (identity, v, md, m) = (ai_actor_uid identity, v)"
  by (simp add: prepared_value_def)

lemma prepare_all_ok:
  assumes "numbered (as_inbound_sequences b) (map fst frames)" "in_lanes (as_inbound_sequences b) (map fst frames)"
    and "\<forall>x \<in> set frames. acceptable env b x"
  obtains ps where
    "prepare_all env frames b = (Inr (), ps, fold consume_sequence (map fst frames) b)"
    "map prepared_value ps
       = map (\<lambda>m. (um_recipient_actor_uid m, received_value env b m)) (map fst frames)"
proof -
  have "\<exists>ps. prepare_all env frames b = (Inr (), ps, fold consume_sequence (map fst frames) b)
    \<and> map prepared_value ps
       = map (\<lambda>m. (um_recipient_actor_uid m, received_value env b m)) (map fst frames)"
    using assms
  proof (induction frames arbitrary: b)
    case (Cons frame frames)
    obtain m channel where frame: "frame = (m, channel)" by (cases frame)
    have m: "acceptable env b (m, channel)" "nat (um_lane_id m) < length (as_inbound_sequences b)"
        "um_lane_sequence m = as_inbound_sequences b ! nat (um_lane_id m)"
      using Cons.prems by (simp_all add: frame in_lanes_def)
    have "as_inbound_sequences (consume_sequence m b) = (as_inbound_sequences b)[nat (um_lane_id m) := um_lane_sequence m + 1]"
      by (simp add: consume_sequence_def)
    then have "\<exists>ps. prepare_all env frames (consume_sequence m b)
          = (Inr (), ps, fold consume_sequence (map fst frames) (consume_sequence m b))
        \<and> map prepared_value ps
          = map (\<lambda>m. (um_recipient_actor_uid m, received_value env b m)) (map fst frames)"
      using Cons.IH [of "consume_sequence m b"] Cons.prems m(3) by (auto simp: frame in_lanes_def)
    then show ?case using prepare_user_message_ok [OF m] by (auto simp: frame)
  qed simp
  then show thesis using that by blast
qed

fun values_for :: "uuid \<Rightarrow> 'v runtime_call list \<Rightarrow> 'v list" where
  "values_for u [] = []"
| "values_for u (AdmitRemoteMessage identity v _ _ # calls) =
     (if ai_actor_uid identity = u then v # values_for u calls else values_for u calls)"
| "values_for u (_ # calls) = values_for u calls"

lemma values_for_append [simp]: "values_for u (xs @ ys) = values_for u xs @ values_for u ys"
  by (induction u xs rule: values_for.induct) simp_all

definition accept_view ::
  "'v association \<Rightarrow> (uuid \<times> (int \<times> serializer_route) list \<times> (int \<times> int) list \<times> int option \<times> uuid option
     \<times> hello_accept option) \<times> (int \<times> serializer_route) list"
where
  "accept_view a = (sending_view a, as_receive_routes a)"

lemma accept_view_simps [simp]:
  "accept_view (increment_many b ms a) = accept_view a" "accept_view (as_call c a) = accept_view a"
  "accept_view (consume_sequence m a) = accept_view a"
  by (simp_all add: accept_view_def) (simp_all add: increment_many_def as_call_def consume_sequence_def Let_def)

lemma acceptable_view:
  assumes "accept_view a = accept_view b"
  shows "acceptable env a = acceptable env b" "received_value env a = received_value env b"
  using assms by (simp_all add: accept_view_def sending_view_def acceptable_def received_value_def
      deserialize_inbound_def fun_eq_iff)

lemma control_accept_view: "preserves accept_view (send_control_best_effort env f)"
proof -
  have "preserves sending_view (send_control_best_effort env f)"
    unfolding send_control_best_effort_def best_effort_def by (intro preserves_control sending_preserves)
  moreover have "preserves as_receive_routes (send_control_best_effort env f)"
    by (rule preserves_send) (simp add: ignores_connection_def)
  ultimately show ?thesis by (simp add: preserves_def accept_view_def)
qed

definition values_view where
  "values_view a = (accept_view a, \<lambda>u. values_for u (as_calls a))"

lemma values_view_increment [simp]: "values_view (increment_many b ms a) = values_view a"
proof -
  have "values_for u (as_calls (increment_many b ms a)) = values_for u (as_calls a)" for u
    by (simp add: increment_many_def as_call_def Let_def)
  then show ?thesis by (simp add: values_view_def)
qed

lemma control_values_view: "preserves values_view (send_control_best_effort env f)"
proof -
  have "preserves as_calls (send_control_best_effort env f)" by (rule preserves_send) (simp add: ignores_connection_def)
  then show ?thesis using control_accept_view [of env f] by (simp add: preserves_def values_view_def)
qed

lemma admit_one_values:
  assumes "admit_one env p b = (r, c)"
  shows "accept_view c = accept_view b" "values_for u (as_calls c) = values_for u (as_calls b)
      @ (if fst (prepared_value p) = u then [snd (prepared_value p)] else [])"
proof -
  obtain identity v md m where p: "p = (identity, v, md, m)" by (cases p)
  let ?result = "en_admit env (as_calls b) identity v"
  let ?d = "as_call (AdmitRemoteMessage identity v md ?result) b"
  have d: "accept_view ?d = accept_view b" "values_for u (as_calls ?d) = values_for u (as_calls b)
      @ (if fst (prepared_value p) = u then [snd (prepared_value p)] else [])"
    by simp (simp add: as_call_def p)
  have "values_view c = values_view ?d"
  proof (cases "?result = AR_ACCEPTED")
    case True
    then show ?thesis using assms by (auto simp: admit_one_def p gets_bind modify_bind ret_def)
  next
    case False
    then obtain w e where e: "abind (send_control_best_effort env (RecipientUnavailable w)) (\<lambda>_. ret 0) e = (r, c)"
        "values_view e = values_view ?d"
      using assms by (auto simp: admit_one_def p gets_bind modify_bind)
    have "preserves values_view (abind (send_control_best_effort env (RecipientUnavailable w)) (\<lambda>_. ret 0))"
      by (intro preserves_intros control_values_view)
    from preservesD [OF this e(1)] show ?thesis using e(2) by simp
  qed
  then show "accept_view c = accept_view b" "values_for u (as_calls c) = values_for u (as_calls b)
      @ (if fst (prepared_value p) = u then [snd (prepared_value p)] else [])"
    using d by (simp_all add: values_view_def fun_eq_iff)
qed

lemma admit_each_values:
  assumes "admit_each env ps n b = (r, c)"
  shows "accept_view c = accept_view b
    \<and> values_for u (as_calls c) = values_for u (as_calls b) @ map snd (filter (\<lambda>x. fst x = u) (map prepared_value ps))"
  using assms
proof (induction ps arbitrary: n b)
  case (Cons p ps)
  obtain x d where d: "admit_one env p b = (x, d)" by fastforce
  obtain k where k: "x = Inr k" using admit_one_effect(1) [OF d] by blast
  show ?case using Cons.IH [of "n + k" d] Cons.prems d k admit_one_values(1) [OF d] admit_one_values(2) [OF d, of u] by simp
qed (auto simp: ret_def)

lemma fold_consume:
  "accept_view (fold consume_sequence ms b) = accept_view b"
  "as_calls (fold consume_sequence ms b) = as_calls b"
  "as_inbound_sequences (fold consume_sequence ms b) = advance ms (as_inbound_sequences b)"
proof -
  have "as_calls (consume_sequence m b) = as_calls b" "as_inbound_sequences (consume_sequence m b)
      = (as_inbound_sequences b)[nat (um_lane_id m) := um_lane_sequence m + 1]" for m and b :: "'a association"
    by (simp_all add: consume_sequence_def)
  then show "accept_view (fold consume_sequence ms b) = accept_view b"
    "as_calls (fold consume_sequence ms b) = as_calls b"
    "as_inbound_sequences (fold consume_sequence ms b) = advance ms (as_inbound_sequences b)"
    by (induction ms arbitrary: b) simp_all
qed

lemma handle_user_messages_ok:
  assumes "numbered (as_inbound_sequences b) (map fst frames)" "in_lanes (as_inbound_sequences b) (map fst frames)"
    and "\<forall>x \<in> set frames. acceptable env b x" "handle_user_messages env frames b = (r, c)"
  shows "r = Inr ()" "accept_view c = accept_view b"
    "as_inbound_sequences c = advance (map fst frames) (as_inbound_sequences b)"
    "values_for u (as_calls c) = values_for u (as_calls b)
       @ map (received_value env b) (filter (\<lambda>m. um_recipient_actor_uid m = u) (map fst frames))"
proof -
  obtain ps where ps: "prepare_all env frames b = (Inr (), ps, fold consume_sequence (map fst frames) b)"
    "map prepared_value ps = map (\<lambda>m. (um_recipient_actor_uid m, received_value env b m)) (map fst frames)"
    by (rule prepare_all_ok [OF assms(1-3)])
  let ?d = "fold consume_sequence (map fst frames) b"
  obtain x e where e: "admit_each env ps 0 ?d = (x, e)" by fastforce
  obtain k where k: "x = Inr k" "core_view e = core_view ?d" using admit_each_effect [OF e] by blast
  obtain y f where f: "admit_prepared_user_messages env ps ?d = (y, f)" by fastforce
  have y: "y = Inr ()" "core_view f = core_view ?d" using admit_prepared_effect(1,2) [OF f] .
  have "values_view f = values_view e"
    using f e k by (auto simp: admit_prepared_user_messages_def ret_def modify_def split: if_splits)
  moreover have "map snd (filter (\<lambda>x. fst x = u) (map prepared_value ps))
      = map (received_value env b) (filter (\<lambda>m. um_recipient_actor_uid m = u) (map fst frames))"
    by (simp add: ps(2) filter_map o_def)
  moreover have c: "r = Inr ()" "c = f" using assms(4) ps(1) f y by (simp_all add: handle_user_messages_def)
  ultimately show "r = Inr ()" "accept_view c = accept_view b"
    "as_inbound_sequences c = advance (map fst frames) (as_inbound_sequences b)"
    "values_for u (as_calls c) = values_for u (as_calls b)
       @ map (received_value env b) (filter (\<lambda>m. um_recipient_actor_uid m = u) (map fst frames))"
    using admit_each_values [OF e, of u] y(2) by (simp_all add: values_view_def fold_consume core_view_def fun_eq_iff)
qed

section \<open>Both ends\<close>

definition mirrored ::
  "('t, 'v) association_env \<Rightarrow> 'v association \<Rightarrow> ('t, 'v) association_env \<Rightarrow> 'v association \<Rightarrow> bool"
where
  "mirrored ea a eb b \<longleftrightarrow> en_nfc ea = en_nfc eb \<and> en_incarnation_uid eb \<noteq> 0
     \<and> as_uid a = as_uid b \<and> as_accept a = as_accept b
     \<and> as_lane_count a = as_lane_count b \<and> (\<exists>lanes. as_lane_count b = Some lanes \<and> 0 < lanes)
     \<and> as_send_routes a = as_receive_routes b \<and> as_serializer_minors a = as_serializer_minors b
     \<and> as_outbound_sequences a = as_inbound_sequences b
     \<and> as_peer_incarnation_uid a = Some (en_incarnation_uid eb)
     \<and> as_peer_incarnation_uid b = Some (en_incarnation_uid ea)"

text \<open>The contract of application serializers: the peer's serializer reads what this side's wrote.\<close>

definition readable_by :: "('t, 'v) association_env \<Rightarrow> ('t, 'v) association_env \<Rightarrow> 'v \<Rightarrow> bool" where
  "readable_by ea eb v \<longleftrightarrow> (\<forall>sid ra rb manifest minor payload.
     map_of (rg_registrations (rc_serializers (en_config ea))) sid = Some ra
     \<longrightarrow> map_of (rg_registrations (rc_serializers (en_config eb))) sid = Some rb
     \<longrightarrow> rn_serialize ra v manifest minor = SerializeBytes payload
     \<longrightarrow> rn_deserialize rb payload manifest minor = Some v)"

text \<open>The handshake leaves the two ends in mirrored states.\<close>

lemma handshake_mirrored:
  assumes "en_nfc ea = en_nfc eb" "as_initiator a" "\<not> as_initiator b" "as_uid a = as_uid b"
    and "registry_inv (en_nfc ea) (rc_serializers (en_config ea))"
    and "registry_inv (en_nfc eb) (rc_serializers (en_config eb))"
    and "handshake_on_hello ea retained_a from_b a = (Inr accept, a')"
    and "handshake_on_hello eb retained_b from_a b = (Inr accept', b')"
    and "decode_frame (en_nfc ea) (tr_payload from_b) BOOTSTRAP_MAX_FRAME_BYTES (Some (ch_kind (tr_channel from_b)))
           = Inr (Hello (local_hello eb b RESPONDER))"
    and "decode_frame (en_nfc eb) (tr_payload from_a) BOOTSTRAP_MAX_FRAME_BYTES (Some (ch_kind (tr_channel from_a)))
           = Inr (Hello (local_hello ea a INITIATOR))"
    and "en_incarnation_uid eb \<noteq> 0"
  shows "mirrored ea a' eb b'"
proof -
  note mirror = handshake_mirror [OF assms(1-10)]
  obtain n where a: "peer_hello_ok ea (local_hello eb b RESPONDER) (local_role a) a"
      "same_but_connection (negotiated_state ea (local_hello eb b RESPONDER) n accept a) a'"
    using handshake_on_hello_Inr [OF assms(7)] assms(9) by (metis Inr_inject frame.inject(1))
  obtain m c where b: "peer_hello_ok eb (local_hello ea a INITIATOR) (local_role b) b"
      "same_but_connection (negotiated_state eb (local_hello ea a INITIATOR) m accept' b) b'"
      "accept' = accept_of (as_initiator b) (as_uid b) (local_hello eb b (local_role b)) (local_hello ea a INITIATOR) (sn_routes m) c"
    using handshake_on_hello_Inr [OF assms(8)] assms(10) by (metis Inr_inject frame.inject(1))
  have "0 < a_lane_count accept'"
    using a(1) b(1,3) assms(3) by (simp add: peer_hello_ok_def accept_of_def local_role_def local_hello_def Let_def)
  moreover have "as_uid a' = as_uid a" "as_peer_incarnation_uid a' = Some (en_incarnation_uid eb)"
    using a(2) by (auto simp: same_but_connection_def negotiated_state_def prepare_negotiated_def gets_bind modify_def
        with_peer_def Let_def as_uid_def fixed_part_def local_hello_def)
  moreover have "as_uid b' = as_uid b" "as_peer_incarnation_uid b' = Some (en_incarnation_uid ea)"
    using b(2) by (auto simp: same_but_connection_def negotiated_state_def prepare_negotiated_def gets_bind modify_def
        with_peer_def Let_def as_uid_def fixed_part_def local_hello_def)
  ultimately show ?thesis
    using mirror assms(1,4,11) negotiated_fields(2) [OF b(2)] by (simp add: mirrored_def)
qed

lemma serialize_outbound_Inr:
  assumes "serialize_outbound env v a = Inr s"
  obtains ra route minor where "map_of (as_send_routes a) (sp_serializer_id s) = Some route"
    "sp_manifest s \<in> set (sr_manifests route)" "map_of (as_serializer_minors a) (sp_serializer_id s) = Some minor"
    "map_of (rg_registrations (rc_serializers (en_config env))) (sp_serializer_id s) = Some ra"
    "rn_serialize ra v (sp_manifest s) minor = SerializeBytes (sp_payload s)"
proof -
  have opt: "(case x of None \<Rightarrow> Inl e | Some y \<Rightarrow> f y) = Inr z \<longleftrightarrow> (\<exists>y. x = Some y \<and> f y = Inr z)"
    for x and e :: exn and f :: "'x \<Rightarrow> 'y result" and z by (cases x) simp_all
  have out: "(case x of SerializeRaised \<Rightarrow> Inl e | SerializeNotBytes \<Rightarrow> Inl e | SerializeBytes p \<Rightarrow> f p) = Inr z
      \<longleftrightarrow> (\<exists>p. x = SerializeBytes p \<and> f p = Inr z)"
    for x and e :: exn and f :: "bytes \<Rightarrow> 'y result" and z by (cases x) simp_all
  show thesis using assms that
    by (auto simp: serialize_outbound_def serialize_for_route_def registry_serialize_bound_def Let_def result_simps
        opt out)
qed

definition multiplexed :: logical_channel where
  "multiplexed = \<lparr>ch_kind = MULTIPLEXED, ch_lane_id = CONTROL_LANE_ID\<rparr>"

text \<open>What the peer's reader makes of the frame of a message.\<close>

definition arrival_record :: "('t, 'v) association_env \<Rightarrow> 'v association \<Rightarrow> user_message \<Rightarrow> transport_record" where
  "arrival_record env a m = \<lparr>tr_channel = multiplexed, tr_payload =
     projr (encode_frame (en_nfc env) (UserMessage m) (as_maximum_frame_bytes a) (Some DELIVERY_LANE))\<rparr>"

lemma sent_message_acceptable:
  assumes "mirrored ea a eb b" "routes_readable eb b" "readable_by ea eb v" "sent_ok ea a (recipient, v, m)"
  shows "acceptable eb b (m, multiplexed)" "received_value eb b m = v" "um_recipient_actor_uid m = ai_actor_uid recipient"
    "um_lane_id m = lane_of \<lparr>ai_system_incarnation_uid = en_incarnation_uid eb, ai_actor_uid = um_recipient_actor_uid m\<rparr>
       (the (as_lane_count b))"
    "decode_frame (en_nfc eb) (tr_payload (arrival_record ea a m)) (as_maximum_frame_bytes b) (Some MULTIPLEXED)
       = Inr (UserMessage m)"
proof -
  obtain s lanes payload where s: "serialize_outbound ea v a = Inr s" "as_lane_count a = Some lanes"
      "as_peer_incarnation_uid a = Some (ai_system_incarnation_uid recipient)"
      "m = user_message_for ea recipient s (lane_of recipient lanes) (um_lane_sequence m) a"
      "encode_frame (en_nfc ea) (UserMessage m) (as_maximum_frame_bytes a) (Some DELIVERY_LANE) = Inr payload"
    using assms(4) by (auto simp: sent_ok_def)
  have m: "um_association_uid m = as_uid a" "um_lane_id m = lane_of recipient lanes"
      "um_sender_incarnation_uid m = en_incarnation_uid ea"
      "um_recipient_incarnation_uid m = ai_system_incarnation_uid recipient"
      "um_recipient_actor_uid m = ai_actor_uid recipient" "um_serializer_id m = sp_serializer_id s"
      "um_manifest m = sp_manifest s" "um_payload m = sp_payload s"
    by (subst s(4), simp add: user_message_for_def)+
  obtain ra route minor where w: "map_of (as_send_routes a) (sp_serializer_id s) = Some route"
      "sp_manifest s \<in> set (sr_manifests route)" "map_of (as_serializer_minors a) (sp_serializer_id s) = Some minor"
      "map_of (rg_registrations (rc_serializers (en_config ea))) (sp_serializer_id s) = Some ra"
      "rn_serialize ra v (sp_manifest s) minor = SerializeBytes (sp_payload s)"
    by (rule serialize_outbound_Inr [OF s(1)])
  then have "(sp_serializer_id s, route) \<in> set (as_receive_routes b)"
    using assms(1) map_of_SomeD by (fastforce simp: mirrored_def)
  then obtain rb where r: "map_of (rg_registrations (rc_serializers (en_config eb))) (sp_serializer_id s) = Some rb"
      "registry_uint minor (sd_protocol_minor (rn_descriptor rb)) False \<in> range Inr"
      "sp_manifest s |\<in>| sd_readable_manifests (rn_descriptor rb)"
    using assms(1,2) w(2,3) by (fastforce simp: routes_readable_def mirrored_def)
  have "rn_deserialize rb (sp_payload s) (sp_manifest s) minor = Some v"
    using assms(3) w(4,5) r(1) unfolding readable_by_def by blast
  then have v: "deserialize_inbound eb m b = Inr v"
    using r w(3) assms(1)
    by (auto simp: deserialize_inbound_def registry_deserialize_def m mirrored_def result_simps)
  have lane: "0 < lanes" "as_lane_count b = Some lanes" "ai_system_incarnation_uid recipient = en_incarnation_uid eb"
    using assms(1) s(2,3) by (auto simp: mirrored_def)
  then show "um_lane_id m = lane_of \<lparr>ai_system_incarnation_uid = en_incarnation_uid eb,
      ai_actor_uid = um_recipient_actor_uid m\<rparr> (the (as_lane_count b))"
    by (simp add: m lane_of_def)
  show "received_value eb b m = v" "um_recipient_actor_uid m = ai_actor_uid recipient"
    using v by (simp_all add: received_value_def m)
  show "acceptable eb b (m, multiplexed)"
    using assms(1) lane v w(1,2) m encoded_lane [OF s(5)]
    by (simp add: acceptable_def mirrored_def multiplexed_def lane_of_def)
  show "decode_frame (en_nfc eb) (tr_payload (arrival_record ea a m)) (as_maximum_frame_bytes b) (Some MULTIPLEXED)
       = Inr (UserMessage m)"
    using frame_codec_decode_encode [OF _ encode_multiplexed [OF s(5)]] s(5) assms(1)
    by (simp add: arrival_record_def mirrored_def as_maximum_frame_bytes_def)
qed

section \<open>The receive loop on a run of user messages\<close>

fun receive_batches :: "('t, 'v) association_env \<Rightarrow> transport_record list list \<Rightarrow> ('v, bool) association_action" where
  "receive_batches env [] = ret False"
| "receive_batches env (records # batches) =
     abind (active_batch env records) (\<lambda>finished. if finished then ret True else receive_batches env batches)"

lemma dispatch_arrivals:
  assumes "\<forall>m \<in> set ms. decode_frame (en_nfc env) (tr_payload (record_of m)) (as_maximum_frame_bytes b) (Some MULTIPLEXED)
       = Inr (UserMessage m)" "\<forall>m. tr_channel (record_of m) = multiplexed"
  shows "dispatch_records env users (map record_of ms) b = (Inr False, users @ map (\<lambda>m. (m, multiplexed)) ms, b)"
  using assms by (induction ms arbitrary: users) (simp_all add: multiplexed_def user_message_of_def)

lemma receive_batches_ok:
  assumes "\<forall>m \<in> set (concat batches). acceptable env b (m, multiplexed) \<and> decode_frame (en_nfc env)
        (tr_payload (record_of m)) (as_maximum_frame_bytes b) (Some MULTIPLEXED) = Inr (UserMessage m)"
    and "\<forall>m. tr_channel (record_of m) = multiplexed"
    and "numbered (as_inbound_sequences b) (concat batches)" "in_lanes (as_inbound_sequences b) (concat batches)"
    and "receive_batches env (map (map record_of) batches) b = (r, c)"
  shows "r = Inr False \<and> values_for u (as_calls c) = values_for u (as_calls b)
       @ map (received_value env b) (filter (\<lambda>m. um_recipient_actor_uid m = u) (concat batches))"
  using assms(1,3-)
proof (induction batches arbitrary: b)
  case (Cons ms batches)
  let ?frames = "map (\<lambda>m. (m, multiplexed)) ms"
  have fst: "map fst ?frames = ms" by (simp add: comp_def)
  obtain x d where d: "handle_user_messages env ?frames b = (x, d)" by fastforce
  have numbered: "numbered (as_inbound_sequences b) (map fst ?frames)"
      "in_lanes (as_inbound_sequences b) (map fst ?frames)" "\<forall>x \<in> set ?frames. acceptable env b x"
    using Cons.prems unfolding fst by (auto simp: numbered_append in_lanes_def)
  note ok = handle_user_messages_ok(1-3) [OF this d] handle_user_messages_ok(4) [OF this d, of u]
  have flush: "flush_users env ?frames b = (Inr (), if ms = [] then b else d)"
    using d ok(1) by (simp add: flush_users_def ret_def)
  have empty: "d = b" if "ms = []"
    using d that by (simp add: handle_user_messages_def admit_prepared_user_messages_def ret_def)
  have "dispatch_records env [] (map record_of ms) b = (Inr False, ?frames, b)"
    using dispatch_arrivals [of ms env record_of b "[]"] Cons.prems(1) assms(2) by simp
  then have "active_batch env (map record_of ms) b = (Inr False, d)"
    using flush empty by (cases "ms = []") (simp_all add: active_batch_def)
  then have "receive_batches env (map (map record_of) batches) d = (r, c)"
    using Cons.prems(4) by (simp add: abind_def)
  moreover have "as_maximum_frame_bytes d = as_maximum_frame_bytes b"
    using ok(2) by (simp add: accept_view_def sending_view_def as_maximum_frame_bytes_def)
  moreover have "numbered (as_inbound_sequences d) (concat batches)" "in_lanes (as_inbound_sequences d) (concat batches)"
    using Cons.prems(2,3) ok(3) fst by (simp_all add: numbered_append in_lanes_def)
  ultimately show ?case
    using Cons.IH [of d] Cons.prems(1) acceptable_view [OF ok(2), of env] ok(4) fst by simp
qed (simp add: ret_def)

lemma send_all_subset: "send_all env calls a = (sent, a') \<Longrightarrow> (recipient, v, m) \<in> set sent \<Longrightarrow> \<exists>c. (c, recipient, v) \<in> set calls"
proof (induction env calls a arbitrary: sent a' rule: send_all.induct)
  case (2 env current w x calls a)
  obtain r b where b: "send_user_message env current w x a = (r, b)" by fastforce
  obtain rest c where c: "send_all env calls b = (rest, c)" by fastforce
  show ?case
  proof (cases r)
    case (Inl e)
    then show ?thesis using "2.IH"(1) [OF b [symmetric] Inl] "2.prems" b by auto
  next
    case (Inr u)
    then have "(recipient, v) = (w, x) \<or> (recipient, v, m) \<in> set rest" using "2.prems" b c by auto
    then show ?thesis using "2.IH"(2) [OF b [symmetric] Inr c] by (metis list.set_intros prod.inject)
  qed
qed simp

definition sent_to :: "uuid \<Rightarrow> (actor_identity \<times> 'v \<times> user_message) list \<Rightarrow> 'v list" where
  "sent_to u sent = map (\<lambda>(_, v, _). v) (filter (\<lambda>(recipient, _, _). ai_actor_uid recipient = u) sent)"

lemma sent_to_values:
  assumes "\<forall>(recipient, v, m) \<in> set sent. f m = v \<and> um_recipient_actor_uid m = ai_actor_uid recipient"
  shows "map f (filter (\<lambda>m. um_recipient_actor_uid m = u) (frames_of sent)) = sent_to u sent"
  using assms by (induction sent) (auto simp: sent_to_def)

lemma filter_actor_lane:
  assumes "\<forall>m \<in> set ms. um_recipient_actor_uid m = u \<longrightarrow> um_lane_id m = l"
  shows "filter (\<lambda>m. um_recipient_actor_uid m = u) ms = filter (\<lambda>m. um_recipient_actor_uid m = u) (of_lane l ms)"
  using assms by (induction ms) auto

section \<open>Properties\<close>

text \<open>
  C8. Remote sends arrive in order: when the two ends of an association mirror each other, as the
  handshake leaves them, and the peer's reader has cut an initial part of what was sent on every lane
  into batches, in any interleaving of the lanes, the peer's receive loop goes through all of them
  without an error and offers to every actor exactly as many messages as arrived for it: an initial
  part of the messages sent to that actor, with their values, in the order of the sends. Sends that
  were refused in between leave no gap.
\<close>

theorem messages_delivered_in_order:
  assumes "mirrored ea a eb b" "routes_readable eb b" "\<forall>(_, _, v) \<in> set calls. readable_by ea eb v"
    and "send_all ea calls a = (sent, a')"
    and "\<And>l. prefix (of_lane l (concat arrivals)) (of_lane l (frames_of sent))"
    and "receive_batches eb (map (map (arrival_record ea a)) arrivals) b = (r, b')"
  shows "r = Inr False \<and> (\<exists>delivered. values_for u (as_calls b') = values_for u (as_calls b) @ delivered
    \<and> length delivered = length [m \<leftarrow> concat arrivals. um_recipient_actor_uid m = u]
    \<and> prefix delivered (sent_to u sent))"
proof -
  note effect = send_all_effect [OF assms(4)]
  have sequences: "as_outbound_sequences a = as_inbound_sequences b" using assms(1) by (simp add: mirrored_def)
  note arrived = numbered_prefixes [OF effect(1,2) [unfolded sequences] assms(5)]
  have sent: "sent_ok ea a (recipient, v, m)" "readable_by ea eb v" if "(recipient, v, m) \<in> set sent" for recipient v m
    using effect(3) that send_all_subset [OF assms(4) that] assms(3) by fastforce+
  note ok = sent_message_acceptable [OF assms(1,2) sent(2,1)]
  let ?l = "lane_of \<lparr>ai_system_incarnation_uid = en_incarnation_uid eb, ai_actor_uid = u\<rparr> (the (as_lane_count b))"
  let ?u = "filter (\<lambda>m. um_recipient_actor_uid m = u)"
  have lane: "um_lane_id m = ?l" if "m \<in> set (frames_of sent)" "um_recipient_actor_uid m = u" for m
    using that ok(4) by fastforce
  have "prefix (?u (of_lane ?l (concat arrivals))) (?u (of_lane ?l (frames_of sent)))"
    by (rule filter_mono_prefix [OF assms(5)])
  moreover have "?u (of_lane ?l (concat arrivals)) = ?u (concat arrivals)"
    by (rule filter_actor_lane [symmetric]) (use arrived(3) lane in blast)
  moreover have "?u (of_lane ?l (frames_of sent)) = ?u (frames_of sent)"
    by (rule filter_actor_lane [symmetric]) (use lane in blast)
  ultimately have "prefix (map (received_value eb b) (?u (concat arrivals))) (map (received_value eb b) (?u (frames_of sent)))"
    using map_mono_prefix by metis
  moreover have "map (received_value eb b) (?u (frames_of sent)) = sent_to u sent"
    using ok(2,3) by (intro sent_to_values) blast
  moreover have "\<forall>m \<in> set (concat arrivals). acceptable eb b (m, multiplexed) \<and> decode_frame (en_nfc eb)
      (tr_payload (arrival_record ea a m)) (as_maximum_frame_bytes b) (Some MULTIPLEXED) = Inr (UserMessage m)"
  proof
    fix m assume "m \<in> set (concat arrivals)"
    then have "m \<in> set (frames_of sent)" using arrived(3) by blast
    then obtain recipient v where "(recipient, v, m) \<in> set sent" by auto
    from ok(1,5) [OF this this] show "acceptable eb b (m, multiplexed) \<and> decode_frame (en_nfc eb)
      (tr_payload (arrival_record ea a m)) (as_maximum_frame_bytes b) (Some MULTIPLEXED) = Inr (UserMessage m)" ..
  qed
  then have "r = Inr False \<and> values_for u (as_calls b') = values_for u (as_calls b)
      @ map (received_value eb b) (?u (concat arrivals))"
    by (rule receive_batches_ok [OF _ _ arrived(1,2) assms(6)]) (simp add: arrival_record_def)
  ultimately show ?thesis by simp
qed

definition sample_sender :: "nat association" where
  "sample_sender = (association_init (sample_connection\<lparr>tc_activated := True\<rparr>) True (Some (str ''beta'')) None 3)\<lparr>
     as_state := AS_ACTIVE, as_peer_system_name := Some (str ''beta''), as_peer_incarnation_uid := Some 9, as_lane_count := Some 2,
     as_outbound_message_limit := Some 4, as_outbound_byte_limit := Some 4096,
     as_send_routes := [(1, \<lparr>sr_origin_incarnation_uid = 7, sr_serializer_id = 1, sr_manifests = [str ''order/1'']\<rparr>)],
     as_serializer_minors := [(1, 2)], as_outbound_sequences := [0, 0], as_inbound_sequences := [0, 0]\<rparr>"

definition sample_calls :: "(unit result \<times> actor_identity \<times> nat) list" where
  "sample_calls = (let to = (\<lambda>u. \<lparr>ai_system_incarnation_uid = 9, ai_actor_uid = u\<rparr>) in
     [(Inr (), to 17, 3), (Inl NoAssociationError, to 17, 6), (Inr (), to 18, 5), (Inr (), to 17, 4)])"

definition sample_number :: "uuid \<Rightarrow> int \<Rightarrow> int \<Rightarrow> nat \<Rightarrow> actor_identity \<times> nat \<times> user_message" where
  "sample_number u lane sequence v = (\<lparr>ai_system_incarnation_uid = 9, ai_actor_uid = u\<rparr>, v,
     (sample_delivery sequence v)\<lparr>um_lane_id := lane, um_recipient_actor_uid := u\<rparr>)"

lemma sample_sent: "fst (send_all env_a sample_calls sample_sender)
    = [sample_number 17 1 0 3, sample_number 18 0 0 5, sample_number 17 1 1 4]"
  by code_simp

definition sample_received :: "(failure + bool) \<times> nat association" where
  "sample_received = receive_batches env_b (map (map (arrival_record env_a sample_sender))
     [[snd (snd (sample_number 18 0 0 5))], [snd (snd (sample_number 17 1 0 3))]]) (sample_receiver [])"

theorem messages_delivered_in_order_witness:
  "sent_to 17 (fst (send_all env_a sample_calls sample_sender)) = [3, 4]
    \<and> fst sample_received = Inr False \<and> values_for 17 (as_calls (snd sample_received)) = [3]"
proof -
  have sent: "sent_to 17 (fst (send_all env_a sample_calls sample_sender)) = [3, 4]"
    by (simp add: sample_sent sample_number_def sent_to_def)
  have mirrored: "mirrored env_a sample_sender env_b (sample_receiver [])"
    by (simp add: mirrored_def sample_sender_def sample_receiver_def association_init_def env_a_def env_b_def
        sample_env_def as_uid_def)
  have readable: "routes_readable env_b (sample_receiver [])" 
    by (simp add: routes_readable_def sample_receiver_def association_init_def env_b_def sample_env_def
        registry_uint_def sample_peer_descriptor_def sample_descriptor_def guard_def)
  have contract: "\<forall>(_, _, v) \<in> set sample_calls. readable_by env_a env_b v"
    by (simp add: sample_calls_def readable_by_def env_a_def env_b_def sample_env_def)
  have arrived: "prefix (of_lane l (concat [[snd (snd (sample_number 18 0 0 5))], [snd (snd (sample_number 17 1 0 3))]]))
      (of_lane l (frames_of (fst (send_all env_a sample_calls sample_sender))))" for l
    by (simp add: sample_sent sample_number_def sample_delivery_def)
  note run = trans [OF sample_received_def [symmetric] prod.collapse [symmetric, of sample_received]]
  have "values_for 17 (as_calls (sample_receiver [])) = []"
    by (simp add: sample_receiver_def association_init_def)
  then obtain delivered where "values_for 17 (as_calls (snd sample_received)) = delivered" "length delivered = 1"
      "prefix delivered [3, 4]" "fst sample_received = Inr False"
    using messages_delivered_in_order [OF mirrored readable contract prod.collapse [symmetric] arrived run, of 17] sent
    by (auto simp: sample_number_def sample_delivery_def)
  then show ?thesis using sent by (cases delivered) auto
qed

end
