(* ===== verification/Http_Codec.thy ===== *)
theory Http_Codec
  imports Decimal
begin

text \<open>
  The HTTP/1.1 codec of the server: requests and responses (\<^verbatim>\<open>movie/http/model.py\<close>), the incremental
  request parser and the response renderer (\<^verbatim>\<open>movie/http/codec.py\<close>). The parser is a record with its
  limits and its buffer; \<open>feed\<close> and \<open>finish\<close> take it and return the new one. A
  \<^verbatim>\<open>HttpProtocolError\<close> carries its status, its detail and the requests parsed before it.
\<close>

section \<open>Bytes and text\<close>

fun bytes_find :: "bytes \<Rightarrow> bytes \<Rightarrow> nat option" where
  "bytes_find sub [] = (if sub = [] then Some 0 else None)"
| "bytes_find sub (b # bs) =
     (if take (length sub) (b # bs) = sub then Some 0 else map_option Suc (bytes_find sub bs))"

definition bytes_find_from :: "bytes \<Rightarrow> nat \<Rightarrow> bytes \<Rightarrow> nat option" where
  "bytes_find_from sub start bs = map_option (\<lambda>i. start + i) (bytes_find sub (drop start bs))"

lemma bytes_find_bound: "bytes_find sub bs = Some i \<Longrightarrow> i + length sub \<le> length bs"
proof (induction sub bs arbitrary: i rule: bytes_find.induct)
  case (2 sub b bs)
  then show ?case
    by (cases "take (length sub) (b # bs) = sub") (auto dest: arg_cong [where f = length] simp del: take_Cons)
qed (simp split: if_splits)

text \<open>\<^verbatim>\<open>bytes.split\<close> with a separator that is not empty.\<close>

function bytes_split :: "bytes \<Rightarrow> bytes \<Rightarrow> bytes list" where
  "bytes_split sep bs =
     (if sep = [] then [bs]
      else case bytes_find sep bs of
             None \<Rightarrow> [bs]
           | Some i \<Rightarrow> take i bs # bytes_split sep (drop (i + length sep) bs))"
  by pat_completeness auto
termination
proof (relation "measure (\<lambda>(_, bs). length bs)"; clarsimp)
  fix sep bs :: bytes and i assume "sep \<noteq> []" "bytes_find sep bs = Some i"
  then show "length bs - (i + length sep) < length bs"
    using bytes_find_bound [of sep bs i] by (cases sep) simp_all
qed

declare bytes_split.simps [simp del]

definition bytes_strip :: "(byte \<Rightarrow> bool) \<Rightarrow> bytes \<Rightarrow> bytes" where
  "bytes_strip unwanted bs = rev (dropWhile unwanted (rev (dropWhile unwanted bs)))"

abbreviation (input) ascii :: "string \<Rightarrow> bytes" where
  "ascii s \<equiv> map of_nat (str s)"

abbreviation CRLF :: bytes where
  "CRLF \<equiv> [13, 10]"

abbreviation decoded :: "bytes \<Rightarrow> pystr" where
  "decoded \<equiv> map unat"

text \<open>
  \<^verbatim>\<open>str.lower\<close> on ASCII letters. The names it is compared with contain no \<^verbatim>\<open>k\<close>, so no other character
  is folded into one of theirs.
\<close>

definition lower :: "pystr \<Rightarrow> pystr" where
  "lower s = map (\<lambda>c. if 65 \<le> c \<and> c \<le> 90 then c + 32 else c) s"

definition whitespace :: "nat \<Rightarrow> bool" where
  "whitespace c \<longleftrightarrow> 9 \<le> c \<and> c \<le> 13 \<or> 28 \<le> c \<and> c \<le> 32 \<or> 8192 \<le> c \<and> c \<le> 8202
     \<or> c \<in> set [133, 160, 5760, 8232, 8233, 8239, 8287, 12288]"

definition text_strip :: "pystr \<Rightarrow> pystr" where
  "text_strip s = rev (dropWhile whitespace (rev (dropWhile whitespace s)))"

fun text_split :: "nat \<Rightarrow> pystr \<Rightarrow> pystr list" where
  "text_split sep [] = [[]]"
| "text_split sep (c # cs) =
     (if c = sep then [] # text_split sep cs
      else case text_split sep cs of part # parts \<Rightarrow> (c # part) # parts | [] \<Rightarrow> [[c]])"

definition token_char :: "nat \<Rightarrow> bool" where
  "token_char c \<longleftrightarrow> 48 \<le> c \<and> c \<le> 57 \<or> 65 \<le> c \<and> c \<le> 90 \<or> 97 \<le> c \<and> c \<le> 122
     \<or> c \<in> set [33, 35, 36, 37, 38, 39, 42, 43, 45, 46, 94, 95, 96, 124, 126]"

abbreviation token_byte :: "byte \<Rightarrow> bool" where
  "token_byte b \<equiv> token_char (unat b)"

text \<open>A byte that no header value, reason or status line may hold.\<close>

definition control_char :: "nat \<Rightarrow> bool" where
  "control_char c \<longleftrightarrow> c < 32 \<and> c \<noteq> 9 \<or> c = 127"

abbreviation control_byte :: "byte \<Rightarrow> bool" where
  "control_byte b \<equiv> control_char (unat b)"

section \<open>Requests and responses\<close>

type_synonym http_headers = "(pystr \<times> pystr) list"

record http_request =
  rq_method :: pystr
  rq_target :: pystr
  rq_headers :: http_headers
  rq_body :: bytes
  rq_version :: pystr

record http_response =
  rs_status :: int
  rs_headers :: http_headers
  rs_body :: bytes
  rs_reason :: "pystr option"

record http_error =
  he_status :: int
  he_detail :: pystr
  he_parsed_requests :: "http_request list"

datatype http_failure = HttpProtocolError http_error | HttpRaised exn

definition protocol_error :: "int \<Rightarrow> string \<Rightarrow> http_failure" where
  "protocol_error status detail =
     HttpProtocolError \<lparr>he_status = status, he_detail = str detail, he_parsed_requests = []\<rparr>"

definition normalize_headers :: "http_headers \<Rightarrow> http_failure + http_headers" where
  "normalize_headers headers = rbind (guard (list_all (\<lambda>(name, _). name \<noteq> []) headers) (HttpRaised ValueError)) (\<lambda>_. Inr headers)"

definition header_values :: "http_headers \<Rightarrow> pystr \<Rightarrow> pystr list" where
  "header_values headers name = map snd (filter (\<lambda>(header, _). lower header = lower name) headers)"

definition header_value :: "http_headers \<Rightarrow> pystr \<Rightarrow> pystr option" where
  "header_value headers name = (case header_values headers name of [] \<Rightarrow> None | value # _ \<Rightarrow> Some value)"

definition connection_close :: "http_headers \<Rightarrow> bool" where
  "connection_close headers =
     list_ex (\<lambda>value. list_ex (\<lambda>part. lower (text_strip part) = str ''close'') (text_split 44 value))
       (header_values headers (str ''connection''))"

definition http_request_init ::
  "pystr \<Rightarrow> pystr \<Rightarrow> http_headers \<Rightarrow> bytes \<Rightarrow> pystr \<Rightarrow> http_failure + http_request"
where
  "http_request_init method target headers body version =
     rbind (guard (method \<noteq> []) (HttpRaised ValueError)) (\<lambda>_.
     rbind (guard (target \<noteq> []) (HttpRaised ValueError)) (\<lambda>_.
     rbind (guard (version = str ''HTTP/1.1'') (HttpRaised ValueError)) (\<lambda>_.
     rbind (normalize_headers headers) (\<lambda>headers.
       Inr \<lparr>rq_method = method, rq_target = target, rq_headers = headers, rq_body = body, rq_version = version\<rparr>))))"

definition http_response_init ::
  "int \<Rightarrow> http_headers \<Rightarrow> bytes \<Rightarrow> pystr option \<Rightarrow> http_failure + http_response"
where
  "http_response_init status headers body reason =
     rbind (guard (100 \<le> status \<and> status \<le> 599) (HttpRaised ValueError)) (\<lambda>_.
     rbind (normalize_headers headers) (\<lambda>headers.
       Inr \<lparr>rs_status = status, rs_headers = headers, rs_body = body, rs_reason = reason\<rparr>))"

section \<open>The request parser\<close>

record http_parser =
  hp_max_request_line_bytes :: int
  hp_max_header_bytes :: int
  hp_max_header_count :: int
  hp_max_body_bytes :: int
  hp_max_buffer_bytes :: int
  hp_buffer :: bytes

definition http_parser_init :: "int \<Rightarrow> int \<Rightarrow> int \<Rightarrow> int \<Rightarrow> int \<Rightarrow> http_failure + http_parser" where
  "http_parser_init line headers header_count body buffer =
     rbind (guard (list_all (\<lambda>limit. 0 < limit) [line, headers, header_count, body, buffer]) (HttpRaised ValueError)) (\<lambda>_.
     rbind (guard (line \<le> headers) (HttpRaised ValueError)) (\<lambda>_.
     rbind (guard (headers + body \<le> buffer) (HttpRaised ValueError)) (\<lambda>_.
       Inr \<lparr>hp_max_request_line_bytes = line, hp_max_header_bytes = headers, hp_max_header_count = header_count,
            hp_max_body_bytes = body, hp_max_buffer_bytes = buffer, hp_buffer = []\<rparr>)))"

definition buffered_bytes :: "http_parser \<Rightarrow> nat" where
  "buffered_bytes p = length (hp_buffer p)"

definition parse_request_line :: "bytes \<Rightarrow> http_failure + pystr \<times> pystr \<times> pystr" where
  "parse_request_line line =
     (case bytes_split [32] line of
        [raw_method, raw_target, raw_version] \<Rightarrow>
          rbind (guard (raw_method \<noteq> [] \<and> raw_target \<noteq> [] \<and> raw_version \<noteq> [])
                   (protocol_error 400 ''Malformed HTTP request line'')) (\<lambda>_.
          rbind (guard (list_all token_byte raw_method) (protocol_error 400 ''Malformed HTTP request method'')) (\<lambda>_.
          rbind (guard (list_all (\<lambda>b. unat b < 128) (raw_method @ raw_target @ raw_version))
                   (protocol_error 400 ''HTTP request line must be ASCII'')) (\<lambda>_.
          let method = decoded raw_method; target = decoded raw_target; version = decoded raw_version in
          rbind (guard (list_all (\<lambda>c. 33 \<le> c \<and> c \<noteq> 127) target)
                   (protocol_error 400 ''Malformed HTTP request target'')) (\<lambda>_.
          rbind (guard (version = str ''HTTP/1.1'')
                   (protocol_error 400 ''Only HTTP/1.1 requests are supported'')) (\<lambda>_.
            Inr (method, target, version))))))
      | _ \<Rightarrow> Inl (protocol_error 400 ''Malformed HTTP request line''))"

definition parse_header_line :: "bytes \<Rightarrow> http_failure + pystr \<times> pystr" where
  "parse_header_line line =
     rbind (guard (line \<noteq> [] \<and> hd line \<noteq> 32 \<and> hd line \<noteq> 9) (protocol_error 400 ''Malformed HTTP header line'')) (\<lambda>_.
     case bytes_find [58] line of
       None \<Rightarrow> Inl (protocol_error 400 ''Malformed HTTP header name'')
     | Some i \<Rightarrow>
         let name = take i line; raw_value = drop (i + 1) line in
         rbind (guard (name \<noteq> [] \<and> list_all token_byte name) (protocol_error 400 ''Malformed HTTP header name'')) (\<lambda>_.
         let value = bytes_strip (\<lambda>b. b = 32 \<or> b = 9) raw_value in
         rbind (guard (list_all (\<lambda>b. \<not> control_byte b) value) (protocol_error 400 ''Malformed HTTP header value'')) (\<lambda>_.
           Inr (lower (decoded name), decoded value))))"

definition parse_headers :: "http_parser \<Rightarrow> bytes list \<Rightarrow> http_failure + http_headers" where
  "parse_headers p lines =
     rbind (guard (int (length lines) \<le> hp_max_header_count p)
              (protocol_error 431 ''HTTP request has too many headers'')) (\<lambda>_.
     rbind (map_result parse_header_line lines) (\<lambda>headers.
     let hosts = map snd (filter (\<lambda>(name, _). name = str ''host'') headers) in
     rbind (guard (length hosts = 1 \<and> hd hosts \<noteq> [])
              (protocol_error 400 ''HTTP/1.1 requires exactly one Host header'')) (\<lambda>_. Inr headers)))"

definition content_length :: "http_parser \<Rightarrow> http_headers \<Rightarrow> http_failure + nat" where
  "content_length p headers =
     (let lengths = map snd (filter (\<lambda>(name, _). name = str ''content-length'') headers);
          transfer_encodings = map snd (filter (\<lambda>(name, _). name = str ''transfer-encoding'') headers) in
      rbind (guard (\<not> (transfer_encodings \<noteq> [] \<and> lengths \<noteq> []))
               (protocol_error 400 ''Content-Length and Transfer-Encoding cannot be combined'')) (\<lambda>_.
      rbind (guard (transfer_encodings = []) (protocol_error 501 ''Transfer-Encoding request bodies are not supported'')) (\<lambda>_.
      rbind (guard (length lengths \<le> 1) (protocol_error 400 ''Multiple Content-Length headers are not supported'')) (\<lambda>_.
      case lengths of
        [] \<Rightarrow> Inr 0
      | value # _ \<Rightarrow>
          rbind (guard (value \<noteq> [] \<and> list_all is_digit value) (protocol_error 400 ''Malformed Content-Length header'')) (\<lambda>_.
          let stripped = dropWhile (\<lambda>c. c = 48) value;
              normalized = (if stripped = [] then str ''0'' else stripped) in
          rbind (guard (length normalized \<le> length (dec (hp_max_body_bytes p)))
                   (protocol_error 413 ''HTTP request body is too large'')) (\<lambda>_.
          let length = undec normalized in
          rbind (guard (int length \<le> hp_max_body_bytes p) (protocol_error 413 ''HTTP request body is too large'')) (\<lambda>_.
            Inr length)))))))"

definition parse_one :: "http_parser \<Rightarrow> http_failure + (http_request \<times> nat) option" where
  "parse_one p =
     (let buffer = hp_buffer p in
      case bytes_find CRLF buffer of
        None \<Rightarrow>
          rbind (guard (int (length buffer) \<le> hp_max_request_line_bytes p)
                   (protocol_error 414 ''HTTP request line is too long'')) (\<lambda>_. Inr None)
      | Some first_line_end \<Rightarrow>
          rbind (guard (int first_line_end \<le> hp_max_request_line_bytes p)
                   (protocol_error 414 ''HTTP request line is too long'')) (\<lambda>_.
          case bytes_find_from (CRLF @ CRLF) first_line_end buffer of
            None \<Rightarrow>
              rbind (guard (int (length buffer) \<le> hp_max_header_bytes p)
                       (protocol_error 431 ''HTTP request headers are too large'')) (\<lambda>_. Inr None)
          | Some header_end \<Rightarrow>
              let header_bytes = header_end + 4 in
              rbind (guard (int header_bytes \<le> hp_max_header_bytes p)
                       (protocol_error 431 ''HTTP request headers are too large'')) (\<lambda>_.
              let lines = bytes_split CRLF (take header_end buffer) in
              rbind (parse_request_line (hd lines)) (\<lambda>(method, target, version).
              rbind (parse_headers p (tl lines)) (\<lambda>headers.
              rbind (content_length p headers) (\<lambda>body_bytes.
              let consumed = header_bytes + body_bytes in
              if length buffer < consumed then Inr None
              else rbind (http_request_init method target headers (take body_bytes (drop header_bytes buffer)) version)
                     (\<lambda>request. Inr (Some (request, consumed)))))))))"

lemma parse_one_consumed:
  assumes "parse_one p = Inr (Some (request, consumed))"
  shows "4 \<le> consumed" "consumed \<le> length (hp_buffer p)"
  using assms
  by (auto simp: parse_one_def Let_def result_simps split: option.splits if_splits)

definition with_parsed :: "http_request list \<Rightarrow> http_failure \<Rightarrow> http_failure" where
  "with_parsed requests failure =
     (case failure of
        HttpProtocolError e \<Rightarrow> HttpProtocolError (e\<lparr>he_parsed_requests := requests\<rparr>)
      | HttpRaised e \<Rightarrow> HttpRaised e)"

function feed_loop ::
  "int option \<Rightarrow> http_request list \<Rightarrow> http_parser \<Rightarrow> (http_failure + http_request list) \<times> http_parser"
where
  "feed_loop max_requests requests p =
     (if (case max_requests of None \<Rightarrow> True | Some m \<Rightarrow> int (length requests) < m)
      then case parse_one p of
             Inl e \<Rightarrow> (Inl (with_parsed requests e), p)
           | Inr None \<Rightarrow> (Inr requests, p)
           | Inr (Some (request, consumed)) \<Rightarrow>
               feed_loop max_requests (requests @ [request]) (p\<lparr>hp_buffer := drop consumed (hp_buffer p)\<rparr>)
      else (Inr requests, p))"
  by pat_completeness auto
termination
proof (relation "measure (\<lambda>(_, _, p). length (hp_buffer p))"; clarsimp)
  fix p request consumed
  assume "parse_one p = Inr (Some (request, consumed))"
  then have "4 \<le> consumed" "consumed \<le> length (hp_buffer p)" by (fact parse_one_consumed)+
  then show "length (hp_buffer p) - consumed < length (hp_buffer p)" by simp
qed

declare feed_loop.simps [simp del]

definition feed ::
  "http_parser \<Rightarrow> bytes \<Rightarrow> int option \<Rightarrow> (http_failure + http_request list) \<times> http_parser"
where
  "feed p data max_requests =
     (if (case max_requests of None \<Rightarrow> False | Some m \<Rightarrow> m < 0) then (Inl (HttpRaised ValueError), p)
      else if hp_max_buffer_bytes p < int (length (hp_buffer p) + length data)
      then (Inl (protocol_error 413 ''HTTP request buffer capacity exceeded''), p)
      else feed_loop max_requests [] (p\<lparr>hp_buffer := hp_buffer p @ data\<rparr>))"

definition finish ::
  "http_parser \<Rightarrow> int option \<Rightarrow> (http_failure + http_request list) \<times> http_parser"
where
  "finish p max_requests =
     (case feed p [] max_requests of
        (Inl e, p') \<Rightarrow> (Inl e, p')
      | (Inr requests, p') \<Rightarrow>
          if max_requests = Some 0 \<or> max_requests = Some (int (length requests)) then (Inr requests, p')
          else if hp_buffer p' \<noteq> []
          then (Inl (with_parsed requests (protocol_error 400 ''HTTP request ended before its framing was complete'')), p')
          else (Inr requests, p'))"

section \<open>The response renderer\<close>

definition default_reason :: "int \<Rightarrow> pystr" where
  "default_reason status =
     (case map_of
        [(100, ''Continue''), (200, ''OK''), (201, ''Created''), (202, ''Accepted''), (204, ''No Content''),
         (301, ''Moved Permanently''), (302, ''Found''), (304, ''Not Modified''), (400, ''Bad Request''),
         (404, ''Not Found''), (405, ''Method Not Allowed''), (408, ''Request Timeout''),
         (413, ''Content Too Large''), (414, ''URI Too Long''), (431, ''Request Header Fields Too Large''),
         (500, ''Internal Server Error''), (501, ''Not Implemented''), (503, ''Service Unavailable'')] status of
        None \<Rightarrow> [] | Some reason \<Rightarrow> str reason)"

abbreviation (input) encodable :: "nat \<Rightarrow> pystr \<Rightarrow> bool" where
  "encodable bound s \<equiv> list_all (\<lambda>c. c < bound) s"

fun render_headers :: "http_headers \<Rightarrow> http_failure + bytes list" where
  "render_headers [] = Inr []"
| "render_headers ((name, value) # headers) =
     (if lower name = str ''content-length'' \<or> lower name = str ''connection'' then render_headers headers
      else
        rbind (guard (lower name \<noteq> str ''transfer-encoding'' \<and> lower name \<noteq> str ''trailer'') (HttpRaised ValueError)) (\<lambda>_.
        rbind (guard (encodable 128 name \<and> encodable 256 value) (HttpRaised ValueError)) (\<lambda>_.
        let encoded_name = map of_nat name; encoded_value = map of_nat value in
        rbind (guard (encoded_name \<noteq> [] \<and> list_all token_byte encoded_name) (HttpRaised ValueError)) (\<lambda>_.
        rbind (guard (list_all (\<lambda>b. \<not> control_byte b) encoded_value) (HttpRaised ValueError)) (\<lambda>_.
        rbind (render_headers headers) (\<lambda>rest.
          Inr ((encoded_name @ ascii '': '' @ encoded_value @ CRLF) # rest)))))))"

definition render_response :: "http_response \<Rightarrow> bool \<Rightarrow> bool \<Rightarrow> http_failure + bytes" where
  "render_response response close head_request =
     rbind (guard (\<not> (100 \<le> rs_status response \<and> rs_status response < 200)) (HttpRaised ValueError)) (\<lambda>_.
     let close = close \<or> connection_close (rs_headers response);
         reason = (case rs_reason response of Some reason \<Rightarrow> reason | None \<Rightarrow> default_reason (rs_status response)) in
     rbind (guard (13 \<notin> set reason \<and> 10 \<notin> set reason) (HttpRaised ValueError)) (\<lambda>_.
     let status_text = str ''HTTP/1.1 '' @ dec (rs_status response) @ str '' '' @ reason in
     rbind (guard (encodable 256 status_text) (HttpRaised ValueError)) (\<lambda>_.
     let status_line = map of_nat status_text @ CRLF in
     rbind (guard (list_all (\<lambda>b. \<not> control_byte b) (butlast (butlast status_line))) (HttpRaised ValueError)) (\<lambda>_.
     let body_allowed = rs_status response \<notin> {204, 205, 304} in
     rbind (guard (body_allowed \<or> rs_body response = []) (HttpRaised ValueError)) (\<lambda>_.
     let content_length = (if body_allowed then length (rs_body response) else 0);
         payload = (if head_request \<or> \<not> body_allowed then [] else rs_body response) in
     rbind (render_headers (rs_headers response)) (\<lambda>rendered.
     let rendered = rendered
           @ (if rs_status response \<notin> {204, 304}
              then [ascii ''Content-Length: '' @ map of_nat (dec (int content_length)) @ CRLF] else [])
           @ (if close then [ascii ''Connection: close'' @ CRLF] else []) in
       Inr (status_line @ concat rendered @ CRLF @ payload)))))))"

end
