(* ===== verification/Http_Grammar.thy ===== *)
theory Http_Grammar
  imports Http_Properties
begin

text \<open>
  The requests the parser stands for: \<open>request_ok\<close> says which ones there are under the limits of a parser
  and \<open>request_bytes\<close> how they are written. The parser returns only such requests and returns every one
  of them; the response renderer writes a block that is cut at the right place.
\<close>

section \<open>Joining and cutting lines\<close>

lemma bytes_find_skip:
  "c \<notin> set l \<Longrightarrow> bytes_find (c # sub) (l @ bs) = map_option (\<lambda>i. length l + i) (bytes_find (c # sub) bs)"
  by (cases "bytes_find (c # sub) bs"; induction l) auto

lemma bytes_find_here: "sub \<noteq> [] \<Longrightarrow> bytes_find sub (sub @ bs) = Some 0"
  by (cases sub) simp_all

definition joined :: "bytes \<Rightarrow> bytes list \<Rightarrow> bytes" where
  "joined sep parts = concat (map (\<lambda>part. sep @ part) parts)"

lemma bytes_split_joined:
  assumes "c \<notin> set part" "\<forall>part \<in> set parts. c \<notin> set part"
  shows "bytes_split (c # sub) (part @ joined (c # sub) parts) = part # parts"
  using assms
proof (induction parts arbitrary: part)
  case Nil
  have "bytes_find (c # sub) part = None"
    using bytes_find_skip [OF Nil.prems(1), of sub "[]"] by simp
  then show ?case by (simp add: bytes_split.simps joined_def)
next
  case (Cons q parts)
  have "joined (c # sub) (q # parts) = (c # sub) @ q @ joined (c # sub) parts" by (simp add: joined_def)
  moreover have "bytes_find (c # sub) (part @ (c # sub) @ q @ joined (c # sub) parts) = Some (length part)"
    using bytes_find_skip [OF Cons.prems(1), of sub] bytes_find_here [of "c # sub"] by simp
  ultimately show ?case using Cons.IH [of q] Cons.prems
    by (subst bytes_split.simps) simp
qed

text \<open>A header block: lines without a carriage return, none of them empty, and an empty line.\<close>

lemma find_block_end:
  assumes "\<forall>l \<in> set ls. l \<noteq> [] \<and> 13 \<notin> set l"
  shows "bytes_find (CRLF @ CRLF) (joined CRLF ls @ CRLF @ CRLF @ body) = Some (length (joined CRLF ls))"
  using assms
proof (induction ls)
  case Nil
  then show ?case by (simp add: joined_def)
next
  case (Cons l ls)
  have l: "l \<noteq> []" "13 \<notin> set l" using Cons.prems by simp_all
  then have "hd l \<noteq> 13" by (cases l) simp_all
  have "bytes_find (CRLF @ CRLF) (10 # l @ joined CRLF ls @ CRLF @ CRLF @ body)
      = Some (Suc (length l + length (joined CRLF ls)))"
    using Cons bytes_find_skip [of 13 "10 # l" "[10, 13, 10]"] l(2) by simp
  then show ?case using l by (cases l) (simp_all add: joined_def)
qed

lemma find_line_end: "13 \<notin> set l \<Longrightarrow> bytes_find CRLF (l @ CRLF @ bs) = Some (length l)"
  using bytes_find_skip [of 13 l "[10]"] by simp

section \<open>Requests\<close>

definition trimmed :: "pystr \<Rightarrow> bool" where
  "trimmed v \<longleftrightarrow> v = [] \<or> hd v \<notin> {32, 9} \<and> last v \<notin> {32, 9}"

definition http_header_ok :: "pystr \<times> pystr \<Rightarrow> bool" where
  "http_header_ok = (\<lambda>(name, value). name \<noteq> [] \<and> list_all (\<lambda>c. token_char c \<and> \<not> (65 \<le> c \<and> c \<le> 90)) name
     \<and> list_all (\<lambda>c. c < 256 \<and> \<not> control_char c) value \<and> trimmed value)"

definition named :: "string \<Rightarrow> http_headers \<Rightarrow> pystr list" where
  "named name headers = map snd (filter (\<lambda>(n, _). n = str name) headers)"

definition request_ok :: "http_parser \<Rightarrow> http_request \<Rightarrow> bool" where
  "request_ok p r \<longleftrightarrow>
     rq_method r \<noteq> [] \<and> list_all token_char (rq_method r)
     \<and> rq_target r \<noteq> [] \<and> list_all (\<lambda>c. 33 \<le> c \<and> c < 127) (rq_target r) \<and> rq_version r = str ''HTTP/1.1''
     \<and> int (length (rq_headers r)) \<le> hp_max_header_count p \<and> list_all http_header_ok (rq_headers r)
     \<and> (\<exists>host. named ''host'' (rq_headers r) = [host] \<and> host \<noteq> []) \<and> named ''transfer-encoding'' (rq_headers r) = []
     \<and> (named ''content-length'' (rq_headers r) = [] \<and> rq_body r = []
        \<or> (\<exists>v. named ''content-length'' (rq_headers r) = [v] \<and> v \<noteq> [] \<and> list_all is_digit v
               \<and> undec v = length (rq_body r)))
     \<and> int (length (rq_body r)) \<le> hp_max_body_bytes p"

definition header_line :: "pystr \<times> pystr \<Rightarrow> bytes" where
  "header_line = (\<lambda>(name, value). map of_nat name @ ascii '': '' @ map of_nat value)"

definition request_line :: "http_request \<Rightarrow> bytes" where
  "request_line r = map of_nat (rq_method r) @ [32] @ map of_nat (rq_target r) @ [32] @ map of_nat (rq_version r)"

definition request_head :: "http_request \<Rightarrow> bytes" where
  "request_head r = request_line r @ joined CRLF (map header_line (rq_headers r))"

definition request_bytes :: "http_request \<Rightarrow> bytes" where
  "request_bytes r = request_head r @ CRLF @ CRLF @ rq_body r"

section \<open>Numerals\<close>

lemma undec_zeros: "undec (dropWhile (\<lambda>c. c = 48) s) = undec s"
  by (induction s) (simp_all add: undec_def)

lemma dec_undec:
  assumes "list_all is_digit s" "s \<noteq> []" "hd s \<noteq> 48"
  shows "dec_nat (undec s) = s"
  using assms
proof (induction s rule: rev_induct)
  case (snoc c s)
  define k where "k = c - 48"
  have c: "c = 48 + k" "k < 10" "undec (s @ [c]) = 10 * undec s + k"
    using snoc.prems(1) by (auto simp: is_digit_def undec_def undec_from_append k_def)
  show ?case
  proof (cases s)
    case Nil
    then show ?thesis using c by (simp add: dec_nat.simps undec_def)
  next
    case (Cons d ds)
    then have s: "dec_nat (undec s) = s" using snoc by simp
    then have "undec s \<noteq> 0" using Cons snoc.prems(3) dec_nat_leading [of "undec s"] by auto
    then show ?thesis using c s by (subst dec_nat.simps) simp
  qed
qed simp

lemma dec_nat_length_mono: "m \<le> n \<Longrightarrow> length (dec_nat m) \<le> length (dec_nat n)"
proof (induction n arbitrary: m rule: dec_nat.induct)
  case (1 n)
  have small: "length (dec_nat k) = (if k < 10 then 1 else Suc (length (dec_nat (k div 10))))" for k
    by (subst dec_nat.simps) simp
  show ?case using 1 div_le_mono [of m n 10] by (auto simp: small [of n] small [of m])
qed

section \<open>What the parser reads\<close>

lemma unat_of_nat_byte: "c < 256 \<Longrightarrow> unat (of_nat c :: byte) = c"
  by (simp add: unat_of_nat)

lemma decoded_bytes: "list_all (\<lambda>c. c < 256) s \<Longrightarrow> decoded (map of_nat s) = s"
  by (induction s) (simp_all add: unat_of_nat_byte)

lemma token_char_bound: "token_char c \<Longrightarrow> c < 127 \<and> c \<notin> {9, 13, 32, 58}"
  by (auto simp: token_char_def)

lemma content_length_Inr:
  assumes "0 < hp_max_body_bytes p"
  shows "content_length p headers = Inr n \<longleftrightarrow> named ''transfer-encoding'' headers = [] \<and> int n \<le> hp_max_body_bytes p
    \<and> (named ''content-length'' headers = [] \<and> n = 0
       \<or> (\<exists>v. named ''content-length'' headers = [v] \<and> v \<noteq> [] \<and> list_all is_digit v \<and> undec v = n))"
proof -
  define normal where
    "normal = (\<lambda>v. if dropWhile (\<lambda>c. c = 48) v = [] then str ''0'' else dropWhile (\<lambda>c. c = 48) v)"
  have zero: "undec (str ''0'') = 0" "undec [] = 0" "dec_nat 0 = str ''0''"
    by (simp_all add: undec_def str_def dec_nat.simps)
  have same: "undec (normal v) = undec v" for v
    using undec_zeros [of v] zero(1,2) unfolding normal_def by metis
  have digits: "dec_nat (undec v) = normal v" if "list_all is_digit v" for v
  proof (cases "dropWhile (\<lambda>c. c = 48) v = []")
    case True
    then show ?thesis using undec_zeros [of v] zero unfolding normal_def by metis
  next
    case False
    moreover have "list_all is_digit (dropWhile (\<lambda>c. c = 48) v)"
      using that by (auto simp: list_all_iff dest: set_dropWhileD)
    ultimately show ?thesis
      using dec_undec [of "dropWhile (\<lambda>c. c = 48) v"] hd_dropWhile [OF False] undec_zeros [of v] by (auto simp: normal_def)
  qed
  have short: "length (normal v) \<le> length (dec (hp_max_body_bytes p))"
    if "list_all is_digit v" "int (undec v) \<le> hp_max_body_bytes p" for v
    using dec_nat_length_mono [of "undec v" "nat (hp_max_body_bytes p)"] that assms digits [of v]
    by (simp add: dec_def) 
  show ?thesis
  proof (cases "named ''content-length'' headers")
    case Nil
    then show ?thesis using assms unfolding content_length_def named_def by (auto simp: result_simps Let_def)
  next
    case (Cons v vs)
    have "content_length p headers = Inr n \<longleftrightarrow> named ''transfer-encoding'' headers = [] \<and> vs = [] \<and> v \<noteq> []
        \<and> list_all is_digit v \<and> length (normal v) \<le> length (dec (hp_max_body_bytes p))
        \<and> int (undec (normal v)) \<le> hp_max_body_bytes p \<and> undec (normal v) = n"
      using Cons unfolding content_length_def named_def [symmetric]
      by (auto simp: result_simps Let_def normal_def)
    then show ?thesis using Cons short [of v] unfolding same by auto
  qed
qed



lemma bytes_strip_fixed:
  assumes "bs \<noteq> []" "\<not> P (hd bs)" "\<not> P (last bs)" "P b"
  shows "bytes_strip P (b # bs) = bs"
proof -
  have "dropWhile P bs = bs" using assms(1,2) by (cases bs) simp_all
  moreover have "dropWhile P (rev bs) = rev bs" using assms(1,3) by (cases bs rule: rev_cases) simp_all
  ultimately show ?thesis using assms(4) by (simp add: bytes_strip_def)
qed

lemma bytes_strip_id:
  assumes "trimmed v" "list_all (\<lambda>c. c < 256) v"
  shows "bytes_strip (\<lambda>b. b = 32 \<or> b = 9) (32 # map of_nat v) = map of_nat v"
proof (cases "v = []")
  case False
  have "of_nat c \<noteq> (32 :: byte) \<and> of_nat c \<noteq> (9 :: byte)" if "c < 256" "c \<notin> {32, 9}" for c
    using that unat_of_nat_byte [of c] by (auto simp: word_unat_eq_iff)
  then have "\<not> (of_nat (hd v) = (32 :: byte) \<or> of_nat (hd v) = (9 :: byte))"
      "\<not> (of_nat (last v) = (32 :: byte) \<or> of_nat (last v) = (9 :: byte))"
    using assms False by (simp_all add: trimmed_def list_all_iff)
  then show ?thesis using False by (intro bytes_strip_fixed) (simp_all add: hd_map last_map)
qed (simp add: bytes_strip_def)


lemma parse_header_line_header:
  assumes "http_header_ok h"
  shows "parse_header_line (header_line h) = Inr h"
proof (cases h)
  case (Pair name v)
  have name: "name \<noteq> []" "\<forall>c \<in> set name. token_char c \<and> c < 256 \<and> \<not> (65 \<le> c \<and> c \<le> 90) \<and> c \<notin> {9, 32, 58}"
    using assms token_char_bound by (force simp: http_header_ok_def Pair list_all_iff)+
  have val: "trimmed v" "list_all (\<lambda>c. c < 256) v" "list_all (\<lambda>c. \<not> control_char c) v"
    using assms by (simp_all add: http_header_ok_def Pair list_all_iff)
  have dn: "decoded (map of_nat name) = name" using name(2) by (intro decoded_bytes) (simp add: list_all_iff)
  have dv: "decoded (map of_nat v) = v" by (rule decoded_bytes [OF val(2)])
  have no: "of_nat c \<noteq> (b :: byte)" if "c \<in> set name" "unat b \<in> {9, 32, 58}" for c b
    using that name(2) unat_of_nat_byte [of c] by fastforce
  have colon: "bytes_find [58] (map of_nat name @ [58] @ 32 # map of_nat v) = Some (length name)"
    using bytes_find_skip [of 58 "map of_nat name" "[]"] no [of _ 58] by force
  have line: "header_line h = map of_nat name @ [58] @ 32 # map of_nat v"
    by (simp add: header_line_def Pair str_def)
  have "\<forall>c \<in> set v. \<not> control_byte (of_nat c)" using val(2,3) by (simp add: list_all_iff unat_of_nat_byte)
  moreover have "lower name = name" using name(2) by (simp add: lower_def map_idI)
  ultimately show ?thesis
    using colon name no [of "hd name"] val(3) dn dv bytes_strip_id [OF val(1,2)]
    unfolding line parse_header_line_def
    by (simp add: Pair list_all_iff hd_append hd_map unat_of_nat_byte)
qed

lemma parse_request_line_ok:
  assumes "method \<noteq> []" "list_all token_char method" "target \<noteq> []" "list_all (\<lambda>c. 33 \<le> c \<and> c < 127) target"
  shows "parse_request_line (map of_nat method @ [32] @ map of_nat target @ [32] @ map of_nat (str ''HTTP/1.1''))
    = Inr (method, target, str ''HTTP/1.1'')"
proof -
  have b: "c < 128 \<and> c \<noteq> 32" if "c \<in> set method \<union> set target \<union> set (str ''HTTP/1.1'')" for c
    using that assms(2,4) token_char_bound [of c] by (auto simp: list_all_iff str_def)
  then have no: "of_nat c \<noteq> (32 :: byte)" if "c \<in> set method \<union> set target \<union> set (str ''HTTP/1.1'')" for c
    using that unat_of_nat_byte [of c] by (fastforce simp: word_unat_eq_iff)
  have d: "decoded (map of_nat s) = s" if "set s \<subseteq> set method \<union> set target \<union> set (str ''HTTP/1.1'')" for s
    using that b by (intro decoded_bytes) (force simp: list_all_iff)
  have "bytes_split [32] (map of_nat method @ joined [32] [map of_nat target, map of_nat (str ''HTTP/1.1'')])
      = [map of_nat method, map of_nat target, map of_nat (str ''HTTP/1.1'')]"
    using no by (intro bytes_split_joined) force+
  moreover have "list_all (\<lambda>b. unat b < 128) (map of_nat method @ map of_nat target @ map of_nat (str ''HTTP/1.1'') :: bytes)"
    using b by (fastforce simp: list_all_iff unat_of_nat_byte)
  moreover have "list_all token_byte (map of_nat method)"
    using assms(2) b by (fastforce simp: list_all_iff unat_of_nat_byte)
  moreover have "list_all (\<lambda>c. 33 \<le> c \<and> c \<noteq> 127) target" using assms(4) by (auto simp: list_all_iff)
  moreover have "decoded (map of_nat method) = method" "decoded (map of_nat target) = target"
      "decoded (map of_nat (str ''HTTP/1.1'')) = str ''HTTP/1.1''" "str ''HTTP/1.1'' \<noteq> []"
    by (rule d, blast)+ (simp add: str_def)
  ultimately show ?thesis
    using assms(1,3) by (simp add: parse_request_line_def joined_def del: map_map list_all_append list.pred_map)
qed

lemma no_CR: "\<forall>c \<in> set s. c < 256 \<and> c \<noteq> 13 \<Longrightarrow> 13 \<notin> set (map of_nat s :: bytes)"
  using unat_of_nat_byte by (fastforce simp: word_unat_eq_iff)

lemma request_lines_no_CR:
  assumes "request_ok p r"
  shows "13 \<notin> set (request_line r)" "\<forall>l \<in> set (map header_line (rq_headers r)). l \<noteq> [] \<and> 13 \<notin> set l"
proof -
  have "13 \<notin> set (map of_nat (rq_method r) :: bytes)" "13 \<notin> set (map of_nat (rq_target r) :: bytes)"
      "13 \<notin> set (map of_nat (str ''HTTP/1.1'') :: bytes)"
    by (rule no_CR; use assms token_char_bound in \<open>fastforce simp: request_ok_def list_all_iff str_def\<close>)+
  then show "13 \<notin> set (request_line r)" using assms by (simp add: request_line_def request_ok_def)
  have "header_line h \<noteq> [] \<and> 13 \<notin> set (header_line h)" if h: "h \<in> set (rq_headers r)" for h
  proof -
    obtain name v where nv: "h = (name, v)" by (cases h)
    have "http_header_ok (name, v)" using assms h nv by (auto simp: request_ok_def list_all_iff)
    then have "13 \<notin> set (map of_nat name :: bytes)" "13 \<notin> set (map of_nat v :: bytes)"
      by (intro no_CR; use token_char_bound in \<open>fastforce simp: http_header_ok_def list_all_iff control_char_def\<close>)+
    then show ?thesis by (simp add: nv header_line_def str_def)
  qed
  then show "\<forall>l \<in> set (map header_line (rq_headers r)). l \<noteq> [] \<and> 13 \<notin> set l" by simp
qed

lemma parse_headers_Inr:
  "parse_headers p lines = Inr headers \<longleftrightarrow> int (length lines) \<le> hp_max_header_count p
     \<and> list_all2 (\<lambda>l h. parse_header_line l = Inr h) lines headers \<and> (\<exists>host. named ''host'' headers = [host] \<and> host \<noteq> [])"
  unfolding parse_headers_def named_def [symmetric]
  by (auto simp: result_simps map_result_Inr Let_def length_Suc_conv)

lemma parse_block_request:
  assumes "request_ok p r" "0 < hp_max_body_bytes p" "int (length (request_head r) + 4) \<le> hp_max_header_bytes p"
    and "hp_buffer p = request_bytes r @ rest"
  shows "parse_block p (length (request_head r))
    = Inr (rq_headers r, length (rq_body r), rq_method r, rq_target r, rq_version r)"
proof -
  note ok = assms(1) [unfolded request_ok_def]
  have "take (length (request_head r)) (hp_buffer p) = request_line r @ joined CRLF (map header_line (rq_headers r))"
    using assms(4) by (simp add: request_bytes_def request_head_def)
  then have "bytes_split CRLF (take (length (request_head r)) (hp_buffer p)) = request_line r # map header_line (rq_headers r)"
    using bytes_split_joined request_lines_no_CR [OF assms(1)] by simp
  moreover have "parse_request_line (request_line r) = Inr (rq_method r, rq_target r, rq_version r)"
    using ok parse_request_line_ok [of "rq_method r" "rq_target r"] by (simp add: request_line_def)
  moreover have "parse_headers p (map header_line (rq_headers r)) = Inr (rq_headers r)"
    unfolding parse_headers_Inr using ok parse_header_line_header
    by (auto simp: list_all2_map1 list_all_iff intro: list.rel_refl_strong)
  moreover have "content_length p (rq_headers r) = Inr (length (rq_body r))"
    using ok unfolding content_length_Inr [OF assms(2)] by auto
  ultimately show ?thesis using assms(3) by (simp add: parse_block_def)
qed

lemma parse_one_request:
  assumes "request_ok p r" "0 < hp_max_body_bytes p" "int (length (request_line r)) \<le> hp_max_request_line_bytes p"
    and "int (length (request_head r) + 4) \<le> hp_max_header_bytes p" "hp_buffer p = request_bytes r @ rest"
  shows "parse_one p = Inr (Some (r, length (request_bytes r)))"
proof -
  let ?ls = "map header_line (rq_headers r)"
  have buffer: "hp_buffer p = request_line r @ joined CRLF ?ls @ CRLF @ CRLF @ rq_body r @ rest"
    by (simp add: assms(5) request_bytes_def request_head_def)
  obtain Y where "joined CRLF ?ls @ CRLF @ CRLF @ rq_body r @ rest = CRLF @ Y"
    by (cases ?ls) (auto simp: joined_def)
  then have line: "bytes_find CRLF (hp_buffer p) = Some (length (request_line r))"
    using find_line_end [OF request_lines_no_CR(1) [OF assms(1)], of Y] buffer by simp
  have "bytes_find_from (CRLF @ CRLF) (length (request_line r)) (hp_buffer p) = Some (length (request_head r))"
    using find_block_end [OF request_lines_no_CR(2) [OF assms(1)]] buffer
    by (simp add: bytes_find_from_def request_head_def)
  from parse_one_eqs(4) [OF line assms(3) this] parse_block_request [OF assms(1,2,4,5)]
    request_init_ok [OF parse_block_request [OF assms(1,2,4,5)]]
  show ?thesis by (simp add: assms(5) request_bytes_def)
qed


lemma parse_one_Inl:
  assumes "parse_one p = Inl e"
  shows "\<exists>status detail. e = protocol_error status detail \<and> status \<in> {400, 413, 414, 431, 501}"
proof -
  have line: "parse_request_line l = Inl e \<Longrightarrow> ?thesis" for l
    by (auto simp: parse_request_line_def Let_def result_simps split: list.splits)
  have header: "parse_header_line l = Inl e \<Longrightarrow> ?thesis" for l
    by (auto simp: parse_header_line_def Let_def result_simps split: option.splits)
  have headers: "parse_headers p ls = Inl e \<Longrightarrow> ?thesis" for ls
    using header map_result_Inl by (fastforce simp: parse_headers_def Let_def result_simps)
  have body: "content_length p hs = Inl e \<Longrightarrow> ?thesis" for hs
    by (auto simp: content_length_def Let_def result_simps split: list.splits)
  have block: "parse_block p j = Inl e \<Longrightarrow> ?thesis" for j
    using line headers body by (auto simp: parse_block_def Let_def result_simps)
  show ?thesis
  proof (cases p rule: parse_one_cases)
    case (block i j)
    have "parse_block p j = Inl e"
      using assms request_init_ok [of p j] unfolding parse_one_eqs(4) [OF block(1-3)]
      by (cases "parse_block p j") (auto split: if_splits)
    then show ?thesis by (rule \<open>\<And>j. parse_block p j = Inl e \<Longrightarrow> _\<close>)
  qed (use assms in \<open>auto simp: parse_one_eqs split: if_splits\<close>)
qed

section \<open>Feeding\<close>

definition returned :: "http_failure + http_request list \<Rightarrow> http_request list" where
  "returned outcome =
     (case outcome of Inr requests \<Rightarrow> requests | Inl (HttpProtocolError e) \<Rightarrow> he_parsed_requests e | Inl (HttpRaised _) \<Rightarrow> [])"

lemma returned_error [simp]: "returned (Inl (with_parsed requests (protocol_error status detail))) = requests"
  by (simp add: returned_def with_parsed_def protocol_error_def)

lemma request_ok_buffer [simp]: "request_ok (p\<lparr>hp_buffer := b\<rparr>) = request_ok p"
  by (simp add: request_ok_def fun_eq_iff)


lemma feed_loop_errors:
  assumes "feed_loop m requests p = (Inl e, p')"
  shows "\<exists>err. e = HttpProtocolError err \<and> he_status err \<in> {400, 413, 414, 431, 501}"
  using assms
proof (induction m requests p rule: feed_loop.induct)
  case (1 m requests p)
  show ?case
  proof (cases "parse_one p")
    case (Inl x)
    then show ?thesis using "1.prems" parse_one_Inl [OF Inl]
      by (auto simp: feed_loop.simps [of m requests p] with_parsed_def protocol_error_def split: if_splits)
  next
    case parsed: (Inr parsed)
    then obtain r n where some: "parsed = Some (r, n)" "case m of None \<Rightarrow> True | Some m \<Rightarrow> int (length requests) < m"
      using "1.prems" by (cases parsed) (auto simp: feed_loop.simps [of m requests p] split: if_splits)
    then have "feed_loop m (requests @ [r]) (p\<lparr>hp_buffer := drop n (hp_buffer p)\<rparr>) = (Inl e, p')"
      using "1.prems" parsed by (simp add: feed_loop.simps [of m requests p])
    from "1.IH" [OF some(2) parsed some(1) refl this] show ?thesis .
  qed
qed

lemma feed_loop_requests:
  assumes "\<forall>r \<in> set rs. request_ok p r \<and> int (length (request_line r)) \<le> hp_max_request_line_bytes p
      \<and> int (length (request_head r) + 4) \<le> hp_max_header_bytes p"
    and "0 < hp_max_body_bytes p" "0 < hp_max_request_line_bytes p"
  shows "feed_loop None requests (p\<lparr>hp_buffer := concat (map request_bytes rs)\<rparr>) = (Inr (requests @ rs), p\<lparr>hp_buffer := []\<rparr>)"
  using assms
proof (induction rs arbitrary: requests)
  case Nil
  then show ?case by (subst feed_loop.simps) (simp add: parse_one_eqs(1))
next
  case (Cons r rs)
  let ?q = "p\<lparr>hp_buffer := concat (map request_bytes (r # rs))\<rparr>"
  have "parse_one ?q = Inr (Some (r, length (request_bytes r)))"
    using Cons.prems by (intro parse_one_request [of _ _ "concat (map request_bytes rs)"]) simp_all
  then show ?case using Cons by (subst feed_loop.simps) simp
qed

section \<open>Response blocks\<close>

definition field_name :: "bytes \<Rightarrow> pystr" where
  "field_name line = lower (decoded (takeWhile (\<lambda>b. b \<noteq> 58) line))"

lemma field_name_line:
  assumes "list_all token_byte name"
  shows "field_name (name @ ascii '': '' @ v) = lower (decoded name)"
proof -
  have "\<forall>b \<in> set name. b \<noteq> 58" using assms token_char_bound by (fastforce simp: list_all_iff)
  then have "takeWhile (\<lambda>b. b \<noteq> 58) (name @ ascii '': '' @ v) = name"
    by (simp add: takeWhile_append2 str_def)
  then show ?thesis by (simp add: field_name_def)
qed

lemma no_control: "list_all (\<lambda>b. \<not> control_byte b) bs \<Longrightarrow> 13 \<notin> set bs"
  by (force simp: list_all_iff control_char_def)

lemma render_headers_lines:
  assumes "render_headers headers = Inr rendered"
  shows "\<exists>ls. rendered = map (\<lambda>l. l @ CRLF) ls \<and> (\<forall>l \<in> set ls. l \<noteq> [] \<and> 13 \<notin> set l
    \<and> field_name l \<notin> {str ''content-length'', str ''transfer-encoding'', str ''connection'', str ''trailer''})"
  using assms
proof (induction headers arbitrary: rendered)
  case (Cons h headers)
  obtain name v where h: "h = (name, v)" by (cases h)
  show ?case
  proof (cases "lower name = str ''content-length'' \<or> lower name = str ''connection''")
    case True
    then show ?thesis using Cons by (auto simp: h)
  next
    case False
    let ?line = "map of_nat name @ ascii '': '' @ map of_nat v :: bytes"
    obtain rest where rest: "render_headers headers = Inr rest" "rendered = (?line @ CRLF) # rest"
        "lower name \<noteq> str ''transfer-encoding''" "lower name \<noteq> str ''trailer''"
        "list_all (\<lambda>c. c < 128) name" "name \<noteq> []" "list_all token_byte (map of_nat name)"
        "list_all (\<lambda>b. \<not> control_byte b) (map of_nat v)"
      using Cons.prems False by (auto simp: h result_simps Let_def)
    have "decoded (map of_nat name) = name" using rest(5) by (intro decoded_bytes) (auto simp: list_all_iff)
    then have "field_name ?line = lower name" using field_name_line [OF rest(7)] by simp
    moreover have "13 \<notin> set ?line"
      using no_control [OF rest(8)] rest(7) token_char_bound by (fastforce simp: list_all_iff str_def)
    moreover obtain ls where "rest = map (\<lambda>l. l @ CRLF) ls" "\<forall>l \<in> set ls. l \<noteq> [] \<and> 13 \<notin> set l
        \<and> field_name l \<notin> {str ''content-length'', str ''transfer-encoding'', str ''connection'', str ''trailer''}"
      using Cons.IH [OF rest(1)] by blast
    ultimately show ?thesis using rest(2-4,6) False by (intro exI [of _ "?line # ls"]) simp
  qed
qed simp

lemma joined_lines: "CRLF @ concat (map (\<lambda>l. l @ CRLF) ls) = joined CRLF ls @ CRLF"
  by (induction ls) (simp_all add: joined_def)

lemma cut_block:
  fixes payload :: bytes
  assumes "13 \<notin> set status" "\<forall>l \<in> set ls. l \<noteq> [] \<and> 13 \<notin> set l"
  defines "out \<equiv> status @ CRLF @ concat (map (\<lambda>l. l @ CRLF) ls) @ CRLF @ payload"
  obtains i where "bytes_find (CRLF @ CRLF) out = Some i" "bytes_split CRLF (take i out) = status # ls" "drop (i + 4) out = payload"
proof -
  have out: "out = status @ joined CRLF ls @ CRLF @ CRLF @ payload"
    using joined_lines [of ls] by (simp add: out_def)
  show thesis
  proof (rule that [of "length status + length (joined CRLF ls)"])
    show "bytes_find (CRLF @ CRLF) out = Some (length status + length (joined CRLF ls))"
      using bytes_find_skip [OF assms(1)] find_block_end [OF assms(2)] by (simp add: out)
    show "bytes_split CRLF (take (length status + length (joined CRLF ls)) out) = status # ls"
      using bytes_split_joined [OF assms(1)] assms(2) by (simp add: out)
    show "drop (length status + length (joined CRLF ls) + 4) out = payload"
      by (simp add: out)
  qed
qed

text \<open>The lines the renderer adds.\<close>

definition length_line :: "nat \<Rightarrow> bytes" where
  "length_line n = ascii ''Content-Length: '' @ map of_nat (dec_nat n)"

definition close_line :: bytes where
  "close_line = ascii ''Connection: close''"

lemma added_lines:
  "length_line n \<noteq> []" "13 \<notin> set (length_line n)" "close_line \<noteq> []" "13 \<notin> set close_line"
  "field_name (length_line n) = str ''content-length''" "field_name close_line = str ''connection''"
  "str ''content-length'' \<noteq> str ''transfer-encoding''" "str ''connection'' \<notin> {str ''content-length'', str ''transfer-encoding''}"
proof -
  have "13 \<notin> set (map of_nat (dec_nat n) :: bytes)"
    using dec_nat_digits [of n] by (intro no_CR) (auto simp: list_all_iff is_digit_def)
  then show "13 \<notin> set (length_line n)" by (simp add: length_line_def str_def)
  show "field_name (length_line n) = str ''content-length''" "field_name close_line = str ''connection''"
    by (simp_all add: field_name_def length_line_def close_line_def str_def lower_def)
qed (simp_all add: length_line_def close_line_def str_def)

section \<open>Properties of requests and responses\<close>



text \<open>
  C34. The parser fails only as a protocol: with a legal request limit, every error \<^verbatim>\<open>feed\<close> raises is an
  \<^verbatim>\<open>HttpProtocolError\<close> with one of the statuses 400, 413, 414, 431 and 501; no exception of the request
  type or of a conversion escapes, whatever the bytes are.
\<close>

theorem http_errors_are_protocol_errors:
  assumes "feed p x m = (Inl e, p')" "m \<in> {None} \<union> Some ` {0..}"
  shows "\<exists>err. e = HttpProtocolError err \<and> he_status err \<in> {400, 413, 414, 431, 501}"
proof -
  have "e = protocol_error 413 ''HTTP request buffer capacity exceeded'' \<or> feed_loop m [] (fed p x) = (Inl e, p')"
    using assms by (auto simp: feed_def split: if_splits)
  then show ?thesis using feed_loop_errors by (force simp: protocol_error_def)
qed

theorem http_errors_are_protocol_errors_witness:
  "\<exists>err. fst (feed sample_parser (ascii ''GET /'' @ CRLF @ CRLF) None) = Inl (HttpProtocolError err)
    \<and> he_status err \<in> {400, 413, 414, 431, 501}"
proof -
  let ?run = "feed sample_parser (ascii ''GET /'' @ CRLF @ CRLF) None"
  have "isl (fst ?run)" by code_simp
  then have "?run = (Inl (projl (fst ?run)), snd ?run)" by (simp add: prod_eq_iff)
  from http_errors_are_protocol_errors [OF this] show ?thesis
    using \<open>isl (fst ?run)\<close> by (metis UnI1 singletonI sum.collapse(1))
qed

text \<open>
  C35. Every well-formed request within the limits is accepted: from an empty buffer, the bytes of any
  number of requests sent one after the other give back exactly those requests, in order, and nothing
  is left over.
\<close>

theorem http_pipeline_accepted:
  assumes "\<forall>r \<in> set rs. request_ok p r \<and> int (length (request_line r)) \<le> hp_max_request_line_bytes p
      \<and> int (length (request_head r) + 4) \<le> hp_max_header_bytes p"
    and "0 < hp_max_body_bytes p" "0 < hp_max_request_line_bytes p" "hp_buffer p = []"
    and "int (length (concat (map request_bytes rs))) \<le> hp_max_buffer_bytes p"
  shows "feed p (concat (map request_bytes rs)) None = (Inr rs, p)"
  using feed_loop_requests [OF assms(1-3), of "[]"] assms(4,5) by (simp add: feed_def)

definition sample_requests :: "http_request list" where
  "sample_requests = [\<lparr>rq_method = str ''GET'', rq_target = str ''/'', rq_headers = [(str ''host'', str ''a'')],
       rq_body = [], rq_version = str ''HTTP/1.1''\<rparr>,
     \<lparr>rq_method = str ''POST'', rq_target = str ''/'', rq_headers = [(str ''host'', str ''a''), (str ''content-length'', str ''03'')],
       rq_body = [13, 10, 0], rq_version = str ''HTTP/1.1''\<rparr>]"

theorem http_pipeline_accepted_witness:
  "fst (feed (sample_parser\<lparr>hp_max_request_line_bytes := 32\<rparr>) (concat (map request_bytes sample_requests)) None)
    = Inr sample_requests"
proof -
  have ok: "\<forall>r \<in> set sample_requests. request_ok (sample_parser\<lparr>hp_max_request_line_bytes := 32\<rparr>) r
      \<and> int (length (request_line r)) \<le> hp_max_request_line_bytes (sample_parser\<lparr>hp_max_request_line_bytes := 32\<rparr>)
      \<and> int (length (request_head r) + 4) \<le> hp_max_header_bytes (sample_parser\<lparr>hp_max_request_line_bytes := 32\<rparr>)"
    by (simp add: sample_requests_def request_ok_def sample_parser_def http_parser_init_def named_def http_header_ok_def
        trimmed_def token_char_def control_char_def str_def is_digit_def undec_def request_line_def request_head_def
        joined_def header_line_def)
  have "0 < hp_max_body_bytes (sample_parser\<lparr>hp_max_request_line_bytes := 32\<rparr>)"
      "0 < hp_max_request_line_bytes (sample_parser\<lparr>hp_max_request_line_bytes := 32\<rparr>)"
      "hp_buffer (sample_parser\<lparr>hp_max_request_line_bytes := 32\<rparr>) = []"
      "int (length (concat (map request_bytes sample_requests)))
        \<le> hp_max_buffer_bytes (sample_parser\<lparr>hp_max_request_line_bytes := 32\<rparr>)"
    by code_simp+
  from http_pipeline_accepted [OF ok this] show ?thesis by simp
qed

text \<open>
  C32. A response cannot be split: in whatever \<^verbatim>\<open>render_response\<close> returns, the first empty line is the one
  that ends the header block; what follows it is the body (nothing for a \<^verbatim>\<open>HEAD\<close> request or a status
  without body); the block consists of the status line and the header lines; the only \<^verbatim>\<open>Content-Length\<close> is
  the length of the body, and there is no \<^verbatim>\<open>Transfer-Encoding\<close>, whatever headers and reason the
  application supplied.
\<close>

theorem http_response_framed:
  assumes "render_response response close head_request = Inr out"
  defines "bodyless \<equiv> rs_status response \<in> {204, 205, 304}"
  shows "\<exists>i status ls. bytes_find (CRLF @ CRLF) out = Some i \<and> bytes_split CRLF (take i out) = status # ls
    \<and> take 9 status = ascii ''HTTP/1.1 ''
    \<and> drop (i + 4) out = (if head_request \<or> bodyless then [] else rs_body response)
    \<and> [l \<leftarrow> ls. field_name l = str ''content-length''] = (if rs_status response \<in> {204, 304} then []
        else [ascii ''Content-Length: '' @ map of_nat (dec_nat (if bodyless then 0 else length (rs_body response)))])
    \<and> [l \<leftarrow> ls. field_name l = str ''transfer-encoding''] = []"
proof -
  let ?n = "if bodyless then 0 else length (rs_body response)"
  let ?payload = "if head_request \<or> bodyless then [] else rs_body response"
  obtain reason rendered where r: "render_headers (rs_headers response) = Inr rendered"
      "list_all (\<lambda>b. \<not> control_byte b) (map of_nat (str ''HTTP/1.1 '' @ dec (rs_status response) @ str '' '' @ reason))"
      "out = map of_nat (str ''HTTP/1.1 '' @ dec (rs_status response) @ str '' '' @ reason) @ CRLF @ concat (rendered
         @ (if rs_status response \<in> {204, 304} then [] else [length_line ?n @ CRLF])
         @ (if close \<or> connection_close (rs_headers response) then [close_line @ CRLF] else [])) @ CRLF @ ?payload"
    using assms(1) unfolding render_response_def Let_def result_simps bodyless_def length_line_def close_line_def
    by (auto simp: butlast_append dec_nonneg simp del: map_append concat_append)
  obtain ls where ls: "rendered = map (\<lambda>l. l @ CRLF) ls" "\<forall>l \<in> set ls. l \<noteq> [] \<and> 13 \<notin> set l
      \<and> field_name l \<notin> {str ''content-length'', str ''transfer-encoding'', str ''connection'', str ''trailer''}"
    using render_headers_lines [OF r(1)] by blast
  define cl where "cl = (if rs_status response \<in> {204, 304} then [] else [length_line ?n])"
  define cn where "cn = (if close \<or> connection_close (rs_headers response) then [close_line] else [])"
  let ?status = "map of_nat (str ''HTTP/1.1 '' @ dec (rs_status response) @ str '' '' @ reason) :: bytes"
  have out: "out = ?status @ CRLF @ concat (map (\<lambda>l. l @ CRLF) (ls @ cl @ cn)) @ CRLF @ ?payload"
    unfolding r(3) ls(1) cl_def cn_def by auto
  have lines: "\<forall>l \<in> set (ls @ cl @ cn). l \<noteq> [] \<and> 13 \<notin> set l"
    using ls(2) added_lines(1-4) by (auto simp: cl_def cn_def)
  obtain i where i: "bytes_find (CRLF @ CRLF) out = Some i" "bytes_split CRLF (take i out) = ?status # ls @ cl @ cn"
      "drop (i + 4) out = ?payload"
    unfolding out by (rule cut_block [OF no_control [OF r(2)] lines])
  moreover have "take 9 ?status = ascii ''HTTP/1.1 ''" by (simp add: str_def)
  moreover have "[l \<leftarrow> ls. field_name l = str ''content-length''] = []" "[l \<leftarrow> ls. field_name l = str ''transfer-encoding''] = []"
    using ls(2) by (auto simp: filter_empty_conv)
  then have "[l \<leftarrow> ls @ cl @ cn. field_name l = str ''content-length''] = cl"
      "[l \<leftarrow> ls @ cl @ cn. field_name l = str ''transfer-encoding''] = []"
    using added_lines(5-8) by (auto simp: cl_def cn_def)
  ultimately show ?thesis unfolding cl_def length_line_def by blast
qed

definition sample_response :: http_response where
  "sample_response = \<lparr>rs_status = 200, rs_headers = [(str ''X-Id'', str ''7''), (str ''content-LENGTH'', str ''99'')],
     rs_body = [13, 10, 13, 10], rs_reason = None\<rparr>"

theorem http_response_framed_witness:
  "\<exists>i status ls. bytes_find (CRLF @ CRLF) (projr (render_response sample_response True False)) = Some i
    \<and> bytes_split CRLF (take i (projr (render_response sample_response True False))) = status # ls
    \<and> drop (i + 4) (projr (render_response sample_response True False)) = [13, 10, 13, 10]
    \<and> [l \<leftarrow> ls. field_name l = str ''content-length''] = [ascii ''Content-Length: 4'']"
proof -
  have "\<not> isl (render_response sample_response True False)" by code_simp
  then have "render_response sample_response True False = Inr (projr (render_response sample_response True False))" by simp
  from http_response_framed [OF this] show ?thesis
    by (auto simp: sample_response_def str_def dec_nat.simps)
qed

end
