(* ===== verification/Spec2Isabelle.thy ===== *)
theory Spec2Isabelle
  imports Wire_Codec Tcp_Properties Event_Windows Association_Delivery Http_Grammar
begin

text \<open>
  Movie is an actor runtime in Python. Actors exchange messages in one process through mailboxes and
  dispatchers; a remoting layer connects actor systems over TCP; a cluster layer, a persistence layer with
  projections, streams, an HTTP server and an I/O reactor are built on top. This development models the
  remoting stack from the bytes of a frame up to the delivery of a message to an actor, the event windows
  on which dead letters and health events are published, and the HTTP codec.

  \<^bold>\<open>How the code is modelled.\<close> A class is a \<^theory_text>\<open>record\<close>, an enum or a union of frames a
  \<^theory_text>\<open>datatype\<close>, and a method a function from the state to a result and the new state. An exception is a
  value: \<open>exn\<close> lists the exception classes and \<open>'a result\<close> is \<open>exn + 'a\<close> (\<^verbatim>\<open>Movie_Prelude\<close>);
  \<^verbatim>\<open>Effects\<close> is the state monad with failures for methods that change state and then raise. Strings are
  lists of code points (\<open>pystr\<close>), bytes are lists of 8-bit words, UUIDs 128-bit words, Python integers
  \<open>int\<close>, dicts association lists in insertion order. Threads are interleaved at the granularity of the
  code's locks: one step is one section that runs under a lock. Code that is not in the repository is a
  parameter: Unicode normalisation (\<open>nfc\<close>), application serializers, the actor system's admission of
  remote messages (\<open>en_admit\<close>) and path lookup (\<open>en_resolve_local\<close>), the text of an exception.

  \<^bold>\<open>The theories\<close>, from the bottom up:

  \<^item> \<^verbatim>\<open>Movie_Prelude\<close>, \<^verbatim>\<open>Utf8\<close>, \<^verbatim>\<open>Decimal\<close>, \<^verbatim>\<open>Effects\<close>: results, big-endian integers, UTF-8, decimal
    numerals, state with exceptions; generic lemmas and the collections the component proofs use.
  \<^item> \<^verbatim>\<open>Serialization\<close>, \<^verbatim>\<open>Negotiation\<close> (\<^verbatim>\<open>movie/remoting/serialization.py\<close>): serializer descriptors, the
    registry and its builder, and the negotiation of routes and protocol versions between two peers. Every
    built registry is sound; both peers compute the same negotiation, which admits exactly what one side
    writes and the other reads.
  \<^item> \<^verbatim>\<open>Wire_Primitives\<close>, \<^verbatim>\<open>Wire_Frames\<close>, \<^verbatim>\<open>Wire_Roundtrip\<close>, \<^verbatim>\<open>Wire_Codec\<close> (\<^verbatim>\<open>movie/remoting/wire.py\<close>):
    writer, reader, header, preamble and the body of every frame type. Decoding inverts encoding, the
    encoding is canonical and self-delimiting, and the specialised encoder and decoder of user messages
    agree with the generic ones, errors included. The locales \<open>codec\<close> and \<open>canonical_codec\<close> are the
    contract of a field codec and are interpreted on every field.
  \<^item> \<^verbatim>\<open>Transport\<close>, \<^verbatim>\<open>Tcp_Connection\<close>, \<^verbatim>\<open>Tcp_Outbound\<close>, \<^verbatim>\<open>Tcp_Steps\<close>, \<^verbatim>\<open>Tcp_Inbound\<close>, \<^verbatim>\<open>Tcp_Properties\<close>
    (\<^verbatim>\<open>movie/remoting/transport.py\<close>, \<^verbatim>\<open>TcpConnection\<close> of \<^verbatim>\<open>movie/remoting/tcp.py\<close>): limits, records,
    the outbound queues, the writer and the reader thread as a step relation \<open>tcp_step\<close>. A connection
    refines one FIFO queue per channel, its counters are exact, no wake-up of the writer or the reader is
    lost, \<^verbatim>\<open>GOAWAY\<close> is the last record, and two connections joined by a byte stream deliver the frames
    that were sent. The writer's batch loop and the reader's loops are total functions.
  \<^item> \<^verbatim>\<open>Association\<close>, \<^verbatim>\<open>Handshake\<close>, \<^verbatim>\<open>Association_Active\<close> (\<^verbatim>\<open>movie/remoting/association.py\<close>): the state of
    an association, the handshake, sending and resolving, the receive loop, the end of the association.
    \<^verbatim>\<open>Association_Steps\<close>, \<^verbatim>\<open>Association_System\<close> and \<^verbatim>\<open>Association_Delivery\<close> hold what follows: the two ends
    agree on everything they negotiated, the handshake completes, each inbound message is dealt with
    exactly once and in order, the first reason to close stands, and the values offered to an actor are an
    initial part of the values sent to it. The locale \<open>close_invariant\<close> states once what the closing
    operations keep.
  \<^item> \<^verbatim>\<open>Event_Windows\<close> (\<^verbatim>\<open>movie/actor/dead_letter.py\<close>, \<^verbatim>\<open>movie/remoting/observability.py\<close>): bounded replay
    windows with subscriptions; the locale \<open>event_stream\<close> is interpreted on both variants.
  \<^item> \<^verbatim>\<open>Http_Codec\<close>, \<^verbatim>\<open>Http_Properties\<close>, \<^verbatim>\<open>Http_Grammar\<close> (\<^verbatim>\<open>movie/http/codec.py\<close>, \<^verbatim>\<open>movie/http/model.py\<close>):
    the incremental request parser and the response renderer. Chunking does not matter, rejections are
    final, the parser accepts exactly the well-formed requests, and responses cannot be split.
  \<^bold>\<open>Bounds and fuel.\<close> No fuel is used. Loops whose recursion is not structural have a termination proof:
  the UTF-8 decoder and \<open>feed_loop\<close> consume bytes, \<open>collect_batch\<close> consumes queued records,
  \<open>drain_loop\<close> and \<open>correlation_loop\<close> count down, \<open>dec_nat\<close> divides. Waiting is not modelled as a loop:
  a step is enabled when the condition the code waits for holds.

  \<^bold>\<open>Not modelled.\<close> Listeners, dialers and sockets (\<^verbatim>\<open>TcpListener\<close>, \<^verbatim>\<open>TcpTransport\<close>, \<^verbatim>\<open>asyncio_tcp.py\<close>,
  \<^verbatim>\<open>movie/io\<close>) are operating-system and event-loop calls, of which the model keeps the byte stream.
  Deadlines and clocks appear only as the decision that a wait timed out.
  The remoting runtime is a parameter of the association: it decides whether an association is still the
  current one. The actor system, mailboxes, dispatchers, futures, the cluster, persistence, projections,
  streams and the HTTP server are not modelled: they drive application code, timers, an SQLite database or
  an event loop.
\<close>

end
